(* ===== verification/Prelude.thy ===== *)
theory Prelude
  imports
    Main
    "HOL-Library.Char_ord"
    "HOL-Library.List_Lexorder"
    "HOL-Library.Multiset"
    "HOL-Library.Product_Lexorder"
    "HOL-Library.Sublist"
begin

text \<open>
  Vocabulary shared by every component: Go's time arithmetic, decimal rendering, the
  relational operations the SQL statements of \<^verbatim>\<open>src/dbos/internal/sysdb\<close> are made of, and
  the generic lemmas about them.

  A table is a list of rows. The order of the list carries no meaning for the program: where a
  statement leaves the order of ties open (\<^verbatim>\<open>ORDER BY created_at\<close>), the model breaks ties by
  position, and since the theorems quantify over every table they cover every way of breaking
  them. A nullable column has an option type; a comparison with \<^verbatim>\<open>NULL\<close> is not true, so a
  \<^verbatim>\<open>WHERE\<close> clause drops the row.
\<close>

named_theorems table_simps \<open>rewriting of table operations\<close>
named_theorems row_defs \<open>definitions of row updates and row guards\<close>
named_theorems op_defs \<open>definitions of database operations\<close>

section \<open>Go time values\<close>

text \<open>
  An instant is a number of nanoseconds since the epoch, a duration a number of nanoseconds; the
  zero \<^verbatim>\<open>time.Time\<close> is \<open>None\<close> of a \<open>gotime\<close>.
\<close>

type_synonym instant = int
type_synonym duration = int
type_synonym gotime = "int option"

abbreviation Millisecond :: duration where
  "Millisecond \<equiv> 1000000"

abbreviation Second :: duration where
  "Second \<equiv> 1000000000"

definition UnixMilli :: "instant \<Rightarrow> int" where
  "UnixMilli t = t div 1000000"

definition time_of_ms :: "int \<Rightarrow> instant" where
  "time_of_ms m = m * 1000000"

text \<open>\<^verbatim>\<open>Time.Round(time.Millisecond)\<close> rounds half up.\<close>

definition time_round_ms :: "instant \<Rightarrow> instant" where
  "time_round_ms t = ((t + 500000) div 1000000) * 1000000"

text \<open>
  \<^verbatim>\<open>Duration.Round(time.Millisecond).Milliseconds()\<close>: rounds half away from zero; both callers
  apply it to positive durations.
\<close>

definition duration_round_ms :: "duration \<Rightarrow> int" where
  "duration_round_ms d =
     (if d < 0 then - ((- d + 500000) div 1000000) else (d + 500000) div 1000000)"

lemma UnixMilli_time_of_ms [simp]: "UnixMilli (time_of_ms m) = m"
  by (simp add: UnixMilli_def time_of_ms_def)

lemma UnixMilli_mono: "s \<le> t \<Longrightarrow> UnixMilli s \<le> UnixMilli t"
  by (simp add: UnixMilli_def zdiv_mono1)

lemma UnixMilli_round [simp]: "UnixMilli (time_round_ms t) = (t + 500000) div 1000000"
  by (simp add: UnixMilli_def time_round_ms_def)

section \<open>Decimal rendering\<close>

definition digit_char :: "nat \<Rightarrow> char" where
  "digit_char d = char_of (48 + d)"

fun show_nat :: "nat \<Rightarrow> string" where
  "show_nat n = (if n < 10 then [digit_char n] else show_nat (n div 10) @ [digit_char (n mod 10)])"

declare show_nat.simps [simp del]

definition show_int :: "int \<Rightarrow> string" where
  "show_int i = (if i < 0 then ''-'' @ show_nat (nat (- i)) else show_nat (nat i))"

lemma show_nat_not_Nil [simp]: "show_nat n \<noteq> []" "[] \<noteq> show_nat n"
  by (subst show_nat.simps, simp)+

lemma digit_char_inj: "m < 10 \<Longrightarrow> n < 10 \<Longrightarrow> digit_char m = digit_char n \<Longrightarrow> m = n"
  by (simp add: digit_char_def)

lemma show_nat_inj: "show_nat m = show_nat n \<Longrightarrow> m = n"
proof (induction m arbitrary: n rule: show_nat.induct)
  case (1 m)
  show ?case
  proof (cases "m < 10 \<or> n < 10")
    case True
    then show ?thesis using "1.prems" digit_char_inj by (subst (asm) (1 2) show_nat.simps) (auto split: if_splits)
  next
    case False
    then have "show_nat (m div 10) = show_nat (n div 10)" "digit_char (m mod 10) = digit_char (n mod 10)"
      using "1.prems" by (subst (asm) (1 2) show_nat.simps, simp)+
    then have "m div 10 = n div 10" "m mod 10 = n mod 10" using "1.IH" False digit_char_inj [of "m mod 10" "n mod 10"] by auto
    then show ?thesis by (metis div_mult_mod_eq)
  qed
qed

lemma show_nat_no_minus: "CHR ''-'' \<notin> set (show_nat n)"
proof (induction n rule: show_nat.induct)
  case (1 n)
  have "digit_char d \<noteq> CHR ''-''" if "d < 10" for d
  proof
    assume "digit_char d = CHR ''-''"
    then have "of_char (char_of (48 + d) :: char) = (of_char CHR ''-'' :: nat)" by (simp add: digit_char_def)
    then show False using that by simp
  qed
  then have "CHR ''-'' \<noteq> digit_char d" if "d < 10" for d using that by metis
  from this [of n] this [of "n mod 10"] 1 show ?case by (subst show_nat.simps) simp
qed

lemma show_int_inj: "show_int i = show_int j \<Longrightarrow> i = j"
proof -
  assume eq: "show_int i = show_int j"
  have m: "show_nat n \<noteq> CHR ''-'' # xs" "CHR ''-'' # xs \<noteq> show_nat n" for n xs
    using show_nat_no_minus [of n] by (metis list.set_intros(1))+
  show ?thesis using eq by (auto simp: show_int_def m split: if_splits dest!: show_nat_inj)
qed

section \<open>Nullable columns\<close>

definition sql_eq :: "'a option \<Rightarrow> 'a \<Rightarrow> bool" where
  "sql_eq c v = (c = Some v)"

definition sql_lt :: "int option \<Rightarrow> int \<Rightarrow> bool" where
  "sql_lt c v = (case c of None \<Rightarrow> False | Some x \<Rightarrow> x < v)"

definition sql_le :: "int option \<Rightarrow> int \<Rightarrow> bool" where
  "sql_le c v = (case c of None \<Rightarrow> False | Some x \<Rightarrow> x \<le> v)"

definition sql_gt :: "int option \<Rightarrow> int \<Rightarrow> bool" where
  "sql_gt c v = (case c of None \<Rightarrow> False | Some x \<Rightarrow> v < x)"

definition sql_ge :: "int option \<Rightarrow> int \<Rightarrow> bool" where
  "sql_ge c v = (case c of None \<Rightarrow> False | Some x \<Rightarrow> v \<le> x)"

definition sql_in :: "'a option \<Rightarrow> 'a list \<Rightarrow> bool" where
  "sql_in c vs = (case c of None \<Rightarrow> False | Some x \<Rightarrow> x \<in> set vs)"

definition coalesce :: "'a option \<Rightarrow> 'a option \<Rightarrow> 'a option" where
  "coalesce a b = (case a of None \<Rightarrow> b | Some _ \<Rightarrow> a)"

definition nullif_empty :: "string option \<Rightarrow> string option" where
  "nullif_empty c = (if c = Some [] then None else c)"

text \<open>The Go side of a nullable text column: an empty string is stored as \<^verbatim>\<open>NULL\<close>.\<close>

definition nonempty :: "string \<Rightarrow> string option" where
  "nonempty s = (if s = [] then None else Some s)"

definition derefStr :: "string option \<Rightarrow> string" where
  "derefStr s = (case s of None \<Rightarrow> [] | Some x \<Rightarrow> x)"

definition nullableStrEq :: "string option \<Rightarrow> string option \<Rightarrow> bool" where
  "nullableStrEq a b = (derefStr a = derefStr b)"

lemmas null_defs = sql_eq_def sql_lt_def sql_le_def sql_gt_def sql_ge_def sql_in_def

lemma sql_eq_simps [simp]: "sql_eq None v = False" "sql_eq (Some x) v = (x = v)"
  by (simp_all add: sql_eq_def)

lemma sql_cmp_simps [simp]:
  "sql_lt None v = False" "sql_lt (Some x) v = (x < v)"
  "sql_le None v = False" "sql_le (Some x) v = (x \<le> v)"
  "sql_gt None v = False" "sql_gt (Some x) v = (v < x)"
  "sql_ge None v = False" "sql_ge (Some x) v = (v \<le> x)"
  by (simp_all add: sql_lt_def sql_le_def sql_gt_def sql_ge_def)

lemma sql_in_simps [simp]: "sql_in None vs = False" "sql_in (Some x) vs = (x \<in> set vs)"
  by (simp_all add: sql_in_def)

lemma coalesce_simps [simp]: "coalesce None b = b" "coalesce (Some x) b = Some x"
  by (simp_all add: coalesce_def)

lemma derefStr_simps [simp]: "derefStr None = []" "derefStr (Some x) = x"
  by (simp_all add: derefStr_def)

lemma derefStr_nonempty [simp]: "derefStr (nonempty s) = s"
  by (simp add: nonempty_def)

lemma nonempty_eq_None [simp]: "nonempty s = None \<longleftrightarrow> s = []"
  by (simp add: nonempty_def)

lemma nonempty_eq_Some [simp]: "nonempty s = Some t \<longleftrightarrow> s = t \<and> t \<noteq> []"
  by (auto simp: nonempty_def)

lemma nullableStrEq_refl [simp]: "nullableStrEq a a"
  by (simp add: nullableStrEq_def)

lemma coalesce_nullif_Some [simp]: "\<exists>q. coalesce (nullif_empty c) (Some d) = Some q"
  by (cases "nullif_empty c") auto

lemma coalesce_nullif_nonempty:
  "d \<noteq> [] \<Longrightarrow> coalesce (nullif_empty c) (Some d) = Some q \<Longrightarrow> q \<noteq> []"
  by (cases c) (auto simp: nullif_empty_def split: if_splits)

text \<open>
  \<^verbatim>\<open>LIKE\<close> with Postgres' default escape: \<open>%\<close> matches any string, \<open>_\<close> one character, a
  backslash takes the next pattern character literally.
\<close>

fun sql_like :: "string \<Rightarrow> string \<Rightarrow> bool" where
  "sql_like [] s = (s = [])"
| "sql_like (c # p) s =
     (if c = CHR ''%'' then sql_like p s \<or> (case s of [] \<Rightarrow> False | _ # t \<Rightarrow> sql_like (c # p) t)
      else if c = CHR 0x5C then
        (case p of [] \<Rightarrow> False
         | d # q \<Rightarrow> (case s of [] \<Rightarrow> False | x # t \<Rightarrow> x = d \<and> sql_like q t))
      else (case s of [] \<Rightarrow> False
            | x # t \<Rightarrow> (c = CHR ''_'' \<or> x = c) \<and> sql_like p t))"

definition like_literal :: "string \<Rightarrow> bool" where
  "like_literal p = list_all (\<lambda>c. c \<noteq> CHR ''%'' \<and> c \<noteq> CHR ''_'' \<and> c \<noteq> CHR 0x5C) p"

lemma sql_like_percent: "sql_like [CHR ''%''] s"
  by (induction s) auto

lemma sql_like_prefix:
  "like_literal p \<Longrightarrow> sql_like (p @ ''%'') s \<longleftrightarrow> prefix p s"
proof (induction p arbitrary: s)
  case Nil
  then show ?case using sql_like_percent by simp
next
  case (Cons c p)
  then show ?case by (cases s) (auto simp: like_literal_def)
qed

section \<open>Tables\<close>

definition update_where :: "('r \<Rightarrow> bool) \<Rightarrow> ('r \<Rightarrow> 'r) \<Rightarrow> 'r list \<Rightarrow> 'r list" where
  "update_where p f rows = map (\<lambda>r. if p r then f r else r) rows"

definition delete_where :: "('r \<Rightarrow> bool) \<Rightarrow> 'r list \<Rightarrow> 'r list" where
  "delete_where p rows = filter (\<lambda>r. \<not> p r) rows"

definition count_where :: "('r \<Rightarrow> bool) \<Rightarrow> 'r list \<Rightarrow> int" where
  "count_where p rows = int (length (filter p rows))"

definition exists_where :: "('r \<Rightarrow> bool) \<Rightarrow> 'r list \<Rightarrow> bool" where
  "exists_where p rows = list_ex p rows"

definition order_by :: "('r \<Rightarrow> 'k::linorder) \<Rightarrow> 'r list \<Rightarrow> 'r list" where
  "order_by k rows = sort_key k rows"

definition order_by_desc :: "('r \<Rightarrow> int) \<Rightarrow> 'r list \<Rightarrow> 'r list" where
  "order_by_desc k rows = sort_key (\<lambda>r. - k r) rows"

text \<open>\<^verbatim>\<open>LIMIT\<close> and \<^verbatim>\<open>OFFSET\<close>; a negative bound is rejected by the callers.\<close>

definition limit_rows :: "int \<Rightarrow> 'r list \<Rightarrow> 'r list" where
  "limit_rows n rows = take (nat n) rows"

definition offset_rows :: "int \<Rightarrow> 'r list \<Rightarrow> 'r list" where
  "offset_rows n rows = drop (nat n) rows"

lemma update_where_simps [simp]:
  "update_where p f [] = []"
  "update_where p f (r # rs) = (if p r then f r else r) # update_where p f rs"
  by (simp_all add: update_where_def)

lemma length_update_where [simp]: "length (update_where p f rows) = length rows"
  by (simp add: update_where_def)

lemma set_update_where: "set (update_where p f rows) = (\<lambda>r. if p r then f r else r) ` set rows"
  by (simp add: update_where_def)

lemma update_where_none: "\<forall>r \<in> set rows. \<not> p r \<Longrightarrow> update_where p f rows = rows"
  by (simp add: update_where_def map_idI)

lemma update_where_keeps [table_simps]:
  "(\<And>r. k (f r) = k r) \<Longrightarrow> map k (update_where p f rows) = map k rows"
  by (simp add: update_where_def)

lemma update_where_in_D:
  assumes "r' \<in> set (update_where p f rows)"
  obtains r where "r \<in> set rows" and "r' = (if p r then f r else r)"
  using assms by (auto simp: set_update_where)

lemma delete_where_simps [simp]:
  "delete_where p [] = []"
  "delete_where p (r # rs) = (if p r then delete_where p rs else r # delete_where p rs)"
  by (simp_all add: delete_where_def)

lemma set_delete_where [simp]: "set (delete_where p rows) = {r \<in> set rows. \<not> p r}"
  by (simp add: delete_where_def)

lemma distinct_map_delete_where: "distinct (map k rows) \<Longrightarrow> distinct (map k (delete_where p rows))"
  by (simp add: delete_where_def distinct_map_filter)

lemma count_where_simps [simp]:
  "count_where p [] = 0"
  "count_where p (r # rs) = (if p r then 1 else 0) + count_where p rs"
  by (simp_all add: count_where_def)

lemma count_where_append [simp]: "count_where p (xs @ ys) = count_where p xs + count_where p ys"
  by (simp add: count_where_def)

lemma count_where_nonneg [simp]: "0 \<le> count_where p rows"
  by (simp add: count_where_def)

lemma count_where_mono: "(\<And>r. r \<in> set rows \<Longrightarrow> p r \<Longrightarrow> q r) \<Longrightarrow> count_where p rows \<le> count_where q rows"
  by (induction rows) auto

lemma count_where_update:
  "count_where q (update_where p f rows) = count_where (\<lambda>r. if p r then q (f r) else q r) rows"
  by (induction rows) auto

lemma exists_where_iff [simp]: "exists_where p rows \<longleftrightarrow> (\<exists>r \<in> set rows. p r)"
  by (simp add: exists_where_def list_ex_iff)

lemma set_order_by [simp]: "set (order_by k rows) = set rows" "set (order_by_desc d rows) = set rows"
  by (simp_all add: order_by_def order_by_desc_def)

lemma length_order_by [simp]:
  "length (order_by k rows) = length rows" "length (order_by_desc d rows) = length rows"
  by (simp_all add: order_by_def order_by_desc_def)

lemma sorted_order_by: "sorted (map k (order_by k rows))"
  by (simp add: order_by_def)

lemma mset_order_by [simp]:
  "mset (order_by k rows) = mset rows" "mset (order_by_desc d rows) = mset rows"
  by (simp_all add: order_by_def order_by_desc_def)

lemma distinct_map_order_by [simp]:
  "distinct (map f (order_by k rows)) = distinct (map f rows)"
  "distinct (map f (order_by_desc d rows)) = distinct (map f rows)"
proof -
  have "mset (map f (order_by k rows)) = mset (map f rows)"
    "mset (map f (order_by_desc d rows)) = mset (map f rows)" by simp_all
  then show "distinct (map f (order_by k rows)) = distinct (map f rows)"
    "distinct (map f (order_by_desc d rows)) = distinct (map f rows)"
    by (metis mset_eq_imp_distinct_iff)+
qed

subsection \<open>Keyed tables\<close>

text \<open>A lookup by primary key: at most one row matches.\<close>

definition lookup_by :: "('r \<Rightarrow> 'k) \<Rightarrow> 'k \<Rightarrow> 'r list \<Rightarrow> 'r option" where
  "lookup_by key k rows = find (\<lambda>r. key r = k) rows"

lemma lookup_by_simps [simp]:
  "lookup_by key k [] = None"
  "lookup_by key k (r # rs) = (if key r = k then Some r else lookup_by key k rs)"
  by (simp_all add: lookup_by_def)

lemma lookup_by_SomeD: "lookup_by key k rows = Some r \<Longrightarrow> r \<in> set rows \<and> key r = k"
  by (induction rows) (auto split: if_splits)

lemma lookup_by_eq_None: "lookup_by key k rows = None \<longleftrightarrow> k \<notin> key ` set rows"
  by (induction rows) auto

lemma lookup_by_notin: "k \<notin> key ` set rows \<Longrightarrow> lookup_by key k rows = None"
  by (simp add: lookup_by_eq_None)

lemma lookup_by_in_iff:
  "distinct (map key rows) \<Longrightarrow> lookup_by key k rows = Some r \<longleftrightarrow> r \<in> set rows \<and> key r = k"
  by (induction rows) (auto simp: rev_image_eqI)

lemma lookup_by_append: 
  "lookup_by key k (xs @ ys) = (case lookup_by key k xs of None \<Rightarrow> lookup_by key k ys | Some r \<Rightarrow> Some r)"
  by (induction xs) auto

lemma lookup_by_update_where:
  assumes "\<And>r. key (f r) = key r"
  shows "lookup_by key k (update_where p f rows) =
    map_option (\<lambda>r. if p r then f r else r) (lookup_by key k rows)"
  by (induction rows) (auto simp: assms)

lemma lookup_by_delete_where:
  assumes "distinct (map key rows)"
  shows "lookup_by key k (delete_where p rows) =
    (case lookup_by key k rows of None \<Rightarrow> None | Some r \<Rightarrow> if p r then None else Some r)"
  using assms by (induction rows) (auto simp: lookup_by_notin lookup_by_eq_None split: option.splits)

lemma map_key_update_where_inj:
  "(\<And>r. key (f r) = key r) \<Longrightarrow> distinct (map key (update_where p f rows)) = distinct (map key rows)"
  by (simp add: update_where_keeps)

lemma filter_key_lookup:
  "distinct (map key rows) \<Longrightarrow>
     filter (\<lambda>r. key r = k) rows = (case lookup_by key k rows of None \<Rightarrow> [] | Some r \<Rightarrow> [r])"
  by (induction rows) (auto simp: filter_empty_conv lookup_by_notin rev_image_eqI split: option.splits)

lemma count_where_grow:
  assumes "\<And>r. r \<in> set rows \<Longrightarrow> g r \<Longrightarrow> q' r \<and> \<not> q r"
    and "\<And>r. r \<in> set rows \<Longrightarrow> \<not> g r \<Longrightarrow> q' r = q r"
  shows "count_where q' rows = count_where q rows + count_where g rows"
  using assms by (induction rows) auto

lemma count_where_key_in:
  assumes "distinct (map key rows)" and "distinct ks" and "set ks \<subseteq> key ` set rows"
  shows "count_where (\<lambda>r. key r \<in> set ks) rows = int (length ks)"
proof -
  have "distinct (map key (filter (\<lambda>r. key r \<in> set ks) rows))"
    using assms(1) by (simp add: distinct_map_filter)
  moreover have "set (map key (filter (\<lambda>r. key r \<in> set ks) rows)) = set ks" using assms(3) by auto
  ultimately show ?thesis using assms(2)
    by (metis count_where_def distinct_card length_map)
qed

subsection \<open>Upserts\<close>

text \<open>
  \<^verbatim>\<open>INSERT ... ON CONFLICT (key) DO UPDATE\<close>: the row is added when its key is free, otherwise the
  stored row is changed by the given assignment.
\<close>

definition upsert :: "('r \<Rightarrow> 'k) \<Rightarrow> 'r \<Rightarrow> ('r \<Rightarrow> 'r) \<Rightarrow> 'r list \<Rightarrow> 'r list" where
  "upsert key r f rows =
     (if exists_where (\<lambda>x. key x = key r) rows then update_where (\<lambda>x. key x = key r) f rows else rows @ [r])"

lemma lookup_by_upsert:
  assumes "\<And>x. key (f x) = key x"
  shows "lookup_by key k (upsert key r f rows) =
    (if k = key r then Some (case lookup_by key k rows of None \<Rightarrow> r | Some x \<Rightarrow> f x) else lookup_by key k rows)"
proof (cases "lookup_by key (key r) rows")
  case None
  then have "\<not> exists_where (\<lambda>x. key x = key r) rows"
    unfolding lookup_by_eq_None exists_where_iff by (metis imageI)
  then show ?thesis using None by (auto simp: upsert_def lookup_by_append split: option.splits)
next
  case (Some y)
  then have "exists_where (\<lambda>x. key x = key r) rows" by (auto dest: lookup_by_SomeD)
  then have "upsert key r f rows = update_where (\<lambda>x. key x = key r) f rows" by (simp only: upsert_def if_True)
  moreover have "lookup_by key k rows = Some x \<Longrightarrow> key x = k" for x using lookup_by_SomeD by fast
  ultimately show ?thesis using Some lookup_by_SomeD [OF Some]
    by (cases "lookup_by key k rows") (auto simp: lookup_by_update_where assms)
qed

lemma distinct_upsert:
  assumes "\<And>x. key (f x) = key x"
  shows "distinct (map key rows) \<Longrightarrow> distinct (map key (upsert key r f rows))"
  by (auto simp: upsert_def update_where_keeps assms)

lemma set_upsert_key:
  assumes "\<And>x. key (f x) = key x"
  shows "key ` set (upsert key r f rows) = insert (key r) (key ` set rows)"
proof (cases "exists_where (\<lambda>x. key x = key r) rows")
  case True
  then have "key r \<in> key ` set rows" unfolding exists_where_iff by (metis imageI)
  moreover have "set (map key (update_where (\<lambda>x. key x = key r) f rows)) = set (map key rows)"
    by (simp only: update_where_keeps assms)
  ultimately show ?thesis using True by (simp add: upsert_def insert_absorb)
qed (simp add: upsert_def)

subsection \<open>Sorting a growing table\<close>

lemma insort_key_append_max: "f x \<le> f m \<Longrightarrow> insort_key f x (ys @ [m]) = insort_key f x ys @ [m]"
  by (induction ys) auto

lemma order_by_append_max:
  assumes "\<And>x. x \<in> set rows \<Longrightarrow> k x \<le> k m"
  shows "order_by k (rows @ [m]) = order_by k rows @ [m]"
  using assms unfolding order_by_def
  by (induction rows) (auto simp: insort_key_append_max)

lemma order_by_filter: "order_by k (filter p rows) = filter p (order_by k rows)"
  by (simp add: order_by_def filter_sort)

end
