(* ===== verification/Models.thy ===== *)
theory Models
  imports Prelude
begin

text \<open>
  The data model of \<^verbatim>\<open>src/dbos/internal/models\<close>: workflow statuses, error codes with their
  symbolic names, and the structured errors every component returns
  (\<^verbatim>\<open>errors.go\<close>), with Go's error tree (\<^verbatim>\<open>fmt.Errorf\<close> with a wrapped error, \<^verbatim>\<open>errors.Join\<close>,
  \<^verbatim>\<open>errors.Is\<close>).
\<close>

section \<open>Workflow statuses\<close>

datatype WorkflowStatusType =
    WorkflowStatusPending
  | WorkflowStatusEnqueued
  | WorkflowStatusDelayed
  | WorkflowStatusSuccess
  | WorkflowStatusError
  | WorkflowStatusCancelled
  | WorkflowStatusMaxRecoveryAttemptsExceeded

definition InternalQueueName :: string where
  "InternalQueueName = ''_dbos_internal_queue''"

fun isTerminalStatus :: "WorkflowStatusType \<Rightarrow> bool" where
  "isTerminalStatus WorkflowStatusSuccess = True"
| "isTerminalStatus WorkflowStatusError = True"
| "isTerminalStatus WorkflowStatusCancelled = True"
| "isTerminalStatus WorkflowStatusMaxRecoveryAttemptsExceeded = True"
| "isTerminalStatus _ = False"

text \<open>\<^verbatim>\<open>SUCCESS\<close> and \<^verbatim>\<open>ERROR\<close>: the statuses no operation leaves.\<close>

definition has_outcome :: "WorkflowStatusType \<Rightarrow> bool" where
  "has_outcome st = (st = WorkflowStatusSuccess \<or> st = WorkflowStatusError)"

lemma isTerminalStatus_iff:
  "isTerminalStatus st \<longleftrightarrow>
     st \<notin> {WorkflowStatusPending, WorkflowStatusEnqueued, WorkflowStatusDelayed}"
  by (cases st) auto

lemma has_outcome_simps [simp]:
  "has_outcome WorkflowStatusSuccess" "has_outcome WorkflowStatusError"
  "\<not> has_outcome WorkflowStatusPending" "\<not> has_outcome WorkflowStatusEnqueued"
  "\<not> has_outcome WorkflowStatusDelayed" "\<not> has_outcome WorkflowStatusCancelled"
  "\<not> has_outcome WorkflowStatusMaxRecoveryAttemptsExceeded"
  by (simp_all add: has_outcome_def)

lemma has_outcome_terminal: "has_outcome st \<Longrightarrow> isTerminalStatus st"
  by (cases st) auto

section \<open>Error codes\<close>

type_synonym ErrorCode = int

abbreviation (input) ErrorCodeConflictingID :: ErrorCode where "ErrorCodeConflictingID \<equiv> 1"
abbreviation (input) ErrorCodeInitialization :: ErrorCode where "ErrorCodeInitialization \<equiv> 2"
abbreviation (input) ErrorCodeNonExistentWorkflow :: ErrorCode where "ErrorCodeNonExistentWorkflow \<equiv> 3"
abbreviation (input) ErrorCodeUnexpectedWorkflow :: ErrorCode where "ErrorCodeUnexpectedWorkflow \<equiv> 4"
abbreviation (input) ErrorCodeWorkflowCancelled :: ErrorCode where "ErrorCodeWorkflowCancelled \<equiv> 5"
abbreviation (input) ErrorCodeUnexpectedStep :: ErrorCode where "ErrorCodeUnexpectedStep \<equiv> 6"
abbreviation (input) ErrorCodeAwaitedWorkflowCancelled :: ErrorCode where "ErrorCodeAwaitedWorkflowCancelled \<equiv> 7"
abbreviation (input) ErrorCodeConflictingRegistration :: ErrorCode where "ErrorCodeConflictingRegistration \<equiv> 8"
abbreviation (input) ErrorCodeWorkflowUnexpectedType :: ErrorCode where "ErrorCodeWorkflowUnexpectedType \<equiv> 9"
abbreviation (input) ErrorCodeWorkflowExecution :: ErrorCode where "ErrorCodeWorkflowExecution \<equiv> 10"
abbreviation (input) ErrorCodeStepExecution :: ErrorCode where "ErrorCodeStepExecution \<equiv> 11"
abbreviation (input) ErrorCodeDeadLetterQueue :: ErrorCode where "ErrorCodeDeadLetterQueue \<equiv> 12"
abbreviation (input) ErrorCodeMaxStepRetriesExceeded :: ErrorCode where "ErrorCodeMaxStepRetriesExceeded \<equiv> 13"
abbreviation (input) ErrorCodeQueueDeduplicated :: ErrorCode where "ErrorCodeQueueDeduplicated \<equiv> 14"
abbreviation (input) ErrorCodePatchingNotEnabled :: ErrorCode where "ErrorCodePatchingNotEnabled \<equiv> 15"
abbreviation (input) ErrorCodeTimeout :: ErrorCode where "ErrorCodeTimeout \<equiv> 16"
abbreviation (input) ErrorCodeNoApplicationVersions :: ErrorCode where "ErrorCodeNoApplicationVersions \<equiv> 17"
abbreviation (input) ErrorCodeQueueNotFound :: ErrorCode where "ErrorCodeQueueNotFound \<equiv> 18"
abbreviation (input) ErrorCodeScheduleNotFound :: ErrorCode where "ErrorCodeScheduleNotFound \<equiv> 19"
abbreviation (input) ErrorCodeInvalidOption :: ErrorCode where "ErrorCodeInvalidOption \<equiv> 20"
abbreviation (input) errorCodeSentinel :: ErrorCode where "errorCodeSentinel \<equiv> 21"

definition ErrorCode_String :: "ErrorCode \<Rightarrow> string" where
  "ErrorCode_String c =
     (if c = ErrorCodeConflictingID then ''ConflictingID''
      else if c = ErrorCodeInitialization then ''Initialization''
      else if c = ErrorCodeNonExistentWorkflow then ''NonExistentWorkflow''
      else if c = ErrorCodeUnexpectedWorkflow then ''UnexpectedWorkflow''
      else if c = ErrorCodeWorkflowCancelled then ''WorkflowCancelled''
      else if c = ErrorCodeUnexpectedStep then ''UnexpectedStep''
      else if c = ErrorCodeAwaitedWorkflowCancelled then ''AwaitedWorkflowCancelled''
      else if c = ErrorCodeConflictingRegistration then ''ConflictingRegistration''
      else if c = ErrorCodeWorkflowUnexpectedType then ''WorkflowUnexpectedType''
      else if c = ErrorCodeWorkflowExecution then ''WorkflowExecution''
      else if c = ErrorCodeStepExecution then ''StepExecution''
      else if c = ErrorCodeDeadLetterQueue then ''DeadLetterQueue''
      else if c = ErrorCodeMaxStepRetriesExceeded then ''MaxStepRetriesExceeded''
      else if c = ErrorCodeQueueDeduplicated then ''QueueDeduplicated''
      else if c = ErrorCodePatchingNotEnabled then ''PatchingNotEnabled''
      else if c = ErrorCodeTimeout then ''Timeout''
      else if c = ErrorCodeNoApplicationVersions then ''NoApplicationVersions''
      else if c = ErrorCodeQueueNotFound then ''QueueNotFound''
      else if c = ErrorCodeScheduleNotFound then ''ScheduleNotFound''
      else if c = ErrorCodeInvalidOption then ''InvalidOption''
      else ''ErrorCode('' @ show_int c @ '')'')"

function parse_from :: "ErrorCode \<Rightarrow> string \<Rightarrow> ErrorCode" where
  "parse_from c s =
     (if c < errorCodeSentinel then (if ErrorCode_String c = s then c else parse_from (c + 1) s)
      else 0)"
  by pat_completeness auto
termination
  by (relation "measure (\<lambda>(c, s). nat (errorCodeSentinel - c))") auto

declare parse_from.simps [simp del]

definition parseErrorCode :: "string \<Rightarrow> ErrorCode" where
  "parseErrorCode s = parse_from ErrorCodeConflictingID s"

lemma parse_from_hit:
  "c < errorCodeSentinel \<Longrightarrow> ErrorCode_String c = s \<Longrightarrow> parse_from c s = c"
  by (subst parse_from.simps) simp

lemma parse_from_miss:
  "c < errorCodeSentinel \<Longrightarrow> ErrorCode_String c \<noteq> s \<Longrightarrow> parse_from c s = parse_from (c + 1) s"
  by (subst parse_from.simps) simp

lemma parse_from_sound:
  "parse_from c s = d \<Longrightarrow> d \<noteq> 0 \<Longrightarrow> c \<le> d \<and> d < errorCodeSentinel \<and> ErrorCode_String d = s"
proof (induction c s rule: parse_from.induct)
  case (1 c s)
  show ?case
  proof (cases "c < errorCodeSentinel")
    case True
    show ?thesis
    proof (cases "ErrorCode_String c = s")
      case hit: True
      then have "parse_from c s = c" using True by (simp add: parse_from_hit)
      with 1 True hit show ?thesis by simp
    next
      case False
      then have "parse_from c s = parse_from (c + 1) s" using True by (simp add: parse_from_miss)
      with 1 True False show ?thesis by fastforce
    qed
  next
    case False
    then have "parse_from c s = 0" by (subst parse_from.simps) simp
    with 1 show ?thesis by simp
  qed
qed

lemma ErrorCode_String_distinct: "distinct (map ErrorCode_String [1..20])"
  by code_simp

lemma ErrorCode_String_inj:
  assumes "1 \<le> c" "c < errorCodeSentinel" "1 \<le> d" "d < errorCodeSentinel"
    and "ErrorCode_String c = ErrorCode_String d"
  shows "c = d"
proof -
  have "inj_on ErrorCode_String (set [1..20])"
    using ErrorCode_String_distinct by (simp only: distinct_map)
  then show ?thesis using assms by (auto dest: inj_onD)
qed

lemma parse_from_complete:
  "1 \<le> c \<Longrightarrow> c \<le> d \<Longrightarrow> d < errorCodeSentinel \<Longrightarrow> parse_from c (ErrorCode_String d) = d"
proof (induction c "ErrorCode_String d" rule: parse_from.induct)
  case (1 c)
  show ?case
  proof (cases "c = d")
    case True
    then show ?thesis using 1 by (simp add: parse_from_hit)
  next
    case False
    then have "ErrorCode_String c \<noteq> ErrorCode_String d" "c < errorCodeSentinel"
      using 1 ErrorCode_String_inj [of c d] by auto
    then show ?thesis using 1 False by (simp add: parse_from_miss)
  qed
qed

text \<open>
  Printing an error code and parsing the name back is the identity on the twenty declared
  codes, and any other name parses to the unset code 0: \<open>parseErrorCode\<close> answers a nonzero code
  exactly for that code's own name.
\<close>

theorem parseErrorCode_inverts_String:
  "parseErrorCode s = c \<and> c \<noteq> 0 \<longleftrightarrow>
     1 \<le> c \<and> c < errorCodeSentinel \<and> s = ErrorCode_String c"
proof
  assume "parseErrorCode s = c \<and> c \<noteq> 0"
  then show "1 \<le> c \<and> c < errorCodeSentinel \<and> s = ErrorCode_String c"
    using parse_from_sound [of 1 s c] by (auto simp: parseErrorCode_def)
next
  assume "1 \<le> c \<and> c < errorCodeSentinel \<and> s = ErrorCode_String c"
  then show "parseErrorCode s = c \<and> c \<noteq> 0"
    using parse_from_complete [of 1 c] by (simp add: parseErrorCode_def)
qed

section \<open>Errors\<close>

record error_info =
  Message :: string
  Code :: ErrorCode
  e_WorkflowID :: string
  e_DestinationID :: string
  e_StepName :: string
  e_QueueName :: string
  e_DeduplicationID :: string
  e_StepID :: int
  e_ExpectedName :: string
  e_RecordedName :: string
  e_MaxRetries :: int
  CauseKind :: string

text \<open>
  The cross-language error of \<^verbatim>\<open>src/dbos/serialization.go\<close>. Its code and data are arbitrary JSON
  values: what the engine itself writes there are numbers, strings and flat objects of them.
\<close>

datatype json_value =
    JNumber int
  | JString string
  | JObject "(string \<times> json_value) list"
  | JText string

record portable_error =
  p_Name :: string
  p_Message :: string
  p_Code :: "json_value option"
  p_Data :: "json_value option"

text \<open>
  A Go error value: a plain text, \<^verbatim>\<open>fmt.Errorf("prefix%w", err)\<close>, \<^verbatim>\<open>errors.Join\<close>, the two
  sentinels of package \<^verbatim>\<open>context\<close>, a portable error, or an \<^verbatim>\<open>*Error\<close> with its optional wrapped
  error.
\<close>

datatype go_error =
    ErrorText string
  | Errorf string go_error
  | Join "go_error list"
  | Canceled
  | DeadlineExceeded
  | PortableWorkflowError portable_error
  | Error error_info "go_error option"

type_synonym 'a res = "go_error + 'a"

definition zero_error :: error_info where
  "zero_error = \<lparr>Message = [], Code = 0, e_WorkflowID = [], e_DestinationID = [],
     e_StepName = [], e_QueueName = [], e_DeduplicationID = [], e_StepID = 0,
     e_ExpectedName = [], e_RecordedName = [], e_MaxRetries = 0, CauseKind = []\<rparr>"

text \<open>The tree walk of \<^verbatim>\<open>errors.Is\<close>: the error itself, then everything it unwraps to.\<close>

fun error_tree :: "(go_error \<Rightarrow> bool) \<Rightarrow> go_error \<Rightarrow> bool" where
  "error_tree p (ErrorText t) = p (ErrorText t)"
| "error_tree p (Errorf t e) = (p (Errorf t e) \<or> error_tree p e)"
| "error_tree p (Join es) = (p (Join es) \<or> list_ex (error_tree p) es)"
| "error_tree p Canceled = p Canceled"
| "error_tree p DeadlineExceeded = p DeadlineExceeded"
| "error_tree p (PortableWorkflowError e) = p (PortableWorkflowError e)"
| "error_tree p (Error i w) =
     (p (Error i w) \<or> (case w of None \<Rightarrow> False | Some e \<Rightarrow> error_tree p e))"

definition Error_Is :: "ErrorCode \<Rightarrow> go_error \<Rightarrow> bool" where
  "Error_Is c e = (case e of Error i _ \<Rightarrow> c \<noteq> 0 \<and> Code i = c | _ \<Rightarrow> False)"

definition Portable_Is :: "ErrorCode \<Rightarrow> go_error \<Rightarrow> bool" where
  "Portable_Is c e = (case e of PortableWorkflowError p \<Rightarrow> c \<noteq> 0 \<and> p_Name p = ErrorCode_String c | _ \<Rightarrow> False)"

definition errors_Is :: "ErrorCode \<Rightarrow> go_error \<Rightarrow> bool" where
  "errors_Is c e = error_tree (\<lambda>x. Error_Is c x \<or> Portable_Is c x) e"

definition is_canceled :: "go_error \<Rightarrow> bool" where
  "is_canceled e = error_tree (\<lambda>x. x = Canceled) e"

definition is_deadline :: "go_error \<Rightarrow> bool" where
  "is_deadline e = error_tree (\<lambda>x. x = DeadlineExceeded) e"

fun error_text :: "go_error \<Rightarrow> string"
  and join_text :: "go_error list \<Rightarrow> string" where
  "error_text (ErrorText t) = t"
| "error_text (Errorf t e) = t @ error_text e"
| "error_text (Join es) = join_text es"
| "error_text Canceled = ''context canceled''"
| "error_text DeadlineExceeded = ''context deadline exceeded''"
| "error_text (PortableWorkflowError p) = p_Message p"
| "error_text (Error i w) = ''DBOS Error '' @ ErrorCode_String (Code i) @ '': '' @ Message i"
| "join_text [] = []"
| "join_text [e] = error_text e"
| "join_text (e # es) = error_text e @ [CHR 0x0A] @ join_text es"

definition causeKindCanceled :: string where "causeKindCanceled = ''canceled''"

definition causeKindDeadline :: string where "causeKindDeadline = ''deadline''"

definition withCause :: "error_info \<Rightarrow> go_error option \<Rightarrow> go_error" where
  "withCause i cause =
     (case cause of
        None \<Rightarrow> Error i None
      | Some c \<Rightarrow>
          if is_canceled c then Error (i\<lparr>CauseKind := causeKindCanceled\<rparr>) (Some c)
          else if is_deadline c then Error (i\<lparr>CauseKind := causeKindDeadline\<rparr>) (Some c)
          else Error i (Some c))"

definition RestoreWrappedCause :: "error_info \<Rightarrow> go_error option \<Rightarrow> go_error" where
  "RestoreWrappedCause i w =
     (if w \<noteq> None then Error i w
      else if CauseKind i = causeKindCanceled then Error i (Some Canceled)
      else if CauseKind i = causeKindDeadline then Error i (Some DeadlineExceeded)
      else Error i None)"

text \<open>
  Persisting an error keeps the exported fields only: the wrapped error is unexported and lost;
  reading it back restores what \<open>CauseKind\<close> names.
\<close>

definition persist_restore :: "go_error \<Rightarrow> go_error" where
  "persist_restore e = (case e of Error i _ \<Rightarrow> RestoreWrappedCause i None | _ \<Rightarrow> e)"

definition NewUnexpectedWorkflowError :: "string \<Rightarrow> string \<Rightarrow> go_error" where
  "NewUnexpectedWorkflowError wid message =
     Error (zero_error\<lparr>Message := ''Workflow ID '' @ wid @ '' was previously used by a different workflow. Check that your workflow is deterministic.'' @ (if message \<noteq> [] then '' '' @ message else []),
       Code := ErrorCodeUnexpectedWorkflow, e_WorkflowID := wid\<rparr>) None"

definition NewInitializationError :: "string \<Rightarrow> go_error" where
  "NewInitializationError message =
     Error (zero_error\<lparr>Message := ''Error initializing DBOS Transact: '' @ message,
       Code := ErrorCodeInitialization\<rparr>) None"

definition NewNonExistentWorkflowError :: "string \<Rightarrow> go_error" where
  "NewNonExistentWorkflowError wid =
     Error (zero_error\<lparr>Message := ''workflow '' @ wid @ '' does not exist'',
       Code := ErrorCodeNonExistentWorkflow, e_WorkflowID := wid\<rparr>) None"

definition NewConflictingRegistrationError :: "string \<Rightarrow> go_error" where
  "NewConflictingRegistrationError name =
     Error (zero_error\<lparr>Message := name @ '' is already registered'',
       Code := ErrorCodeConflictingRegistration\<rparr>) None"

definition NewUnexpectedStepError :: "string \<Rightarrow> int \<Rightarrow> string \<Rightarrow> string \<Rightarrow> go_error" where
  "NewUnexpectedStepError wid stepID expectedName recordedName =
     Error (zero_error\<lparr>Message := ''During execution of workflow '' @ wid @ '' step '' @ show_int stepID @ '', function '' @ recordedName @ '' was recorded when '' @ expectedName @ '' was expected. Check that your workflow is deterministic.'',
       Code := ErrorCodeUnexpectedStep, e_WorkflowID := wid, e_StepID := stepID,
       e_ExpectedName := expectedName, e_RecordedName := recordedName\<rparr>) None"

definition NewAwaitedWorkflowCancelledError :: "string \<Rightarrow> go_error" where
  "NewAwaitedWorkflowCancelledError wid =
     Error (zero_error\<lparr>Message := ''Awaited workflow '' @ wid @ '' was cancelled'',
       Code := ErrorCodeAwaitedWorkflowCancelled, e_WorkflowID := wid\<rparr>) None"

definition NewWorkflowCancelledError :: "string \<Rightarrow> go_error option \<Rightarrow> go_error" where
  "NewWorkflowCancelledError wid cause =
     withCause (zero_error\<lparr>Message := ''Workflow '' @ wid @ '' was cancelled'',
       Code := ErrorCodeWorkflowCancelled, e_WorkflowID := wid\<rparr>) cause"

definition NewWorkflowConflictIDError :: "string \<Rightarrow> go_error" where
  "NewWorkflowConflictIDError wid =
     Error (zero_error\<lparr>Message := ''Conflicting workflow ID '' @ wid,
       Code := ErrorCodeConflictingID, e_WorkflowID := wid\<rparr>) None"

definition NewWorkflowUnexpectedResultType :: "string \<Rightarrow> string \<Rightarrow> string \<Rightarrow> go_error" where
  "NewWorkflowUnexpectedResultType wid expectedType actualType =
     Error (zero_error\<lparr>Message := ''Workflow '' @ wid @ '' returned unexpected result type: expected '' @ expectedType @
         '', got '' @ actualType, Code := ErrorCodeWorkflowUnexpectedType, e_WorkflowID := wid\<rparr>) None"

definition NewWorkflowExecutionError :: "string \<Rightarrow> go_error \<Rightarrow> go_error" where
  "NewWorkflowExecutionError wid err =
     withCause (zero_error\<lparr>Message := ''Workflow '' @ wid @ '' execution error: '' @ error_text err,
       Code := ErrorCodeWorkflowExecution, e_WorkflowID := wid\<rparr>) (Some err)"

definition NewStepExecutionError :: "string \<Rightarrow> string \<Rightarrow> go_error \<Rightarrow> go_error" where
  "NewStepExecutionError wid stepName err =
     withCause (zero_error\<lparr>Message := ''Step '' @ stepName @ '' in workflow '' @ wid @ '' execution error: '' @ error_text err,
       Code := ErrorCodeStepExecution, e_WorkflowID := wid, e_StepName := stepName\<rparr>) (Some err)"

definition NewDeadLetterQueueError :: "string \<Rightarrow> int \<Rightarrow> go_error" where
  "NewDeadLetterQueueError wid maxRetries =
     Error (zero_error\<lparr>Message := ''Workflow '' @ wid @ '' has been moved to the dead-letter queue after exceeding the maximum of '' @ show_int maxRetries @ '' retries'',
       Code := ErrorCodeDeadLetterQueue, e_WorkflowID := wid, e_MaxRetries := maxRetries\<rparr>) None"

definition NewMaxStepRetriesExceededError :: "string \<Rightarrow> string \<Rightarrow> int \<Rightarrow> go_error \<Rightarrow> go_error" where
  "NewMaxStepRetriesExceededError wid stepName maxRetries err =
     withCause (zero_error\<lparr>Message := ''Step '' @ stepName @ '' has exceeded its maximum of '' @ show_int maxRetries @ '' retries: '' @ error_text err,
       Code := ErrorCodeMaxStepRetriesExceeded, e_WorkflowID := wid, e_StepName := stepName,
       e_MaxRetries := maxRetries\<rparr>) (Some err)"

definition NewQueueDeduplicatedError :: "string \<Rightarrow> string \<Rightarrow> string \<Rightarrow> go_error" where
  "NewQueueDeduplicatedError wid queueName deduplicationID =
     Error (zero_error\<lparr>Message := ''Workflow '' @ wid @ '' was deduplicated due to an existing workflow in queue '' @ queueName @ '' with deduplication ID '' @ deduplicationID,
       Code := ErrorCodeQueueDeduplicated, e_WorkflowID := wid, e_QueueName := queueName,
       e_DeduplicationID := deduplicationID\<rparr>) None"

definition NewPatchingNotEnabledError :: go_error where
  "NewPatchingNotEnabledError =
     Error (zero_error\<lparr>Message := ''Patching system is not enabled. Set EnablePatching to true in the DBOS context configuration to use Patch and DeprecatePatch'',
       Code := ErrorCodePatchingNotEnabled\<rparr>) None"

definition NewNoApplicationVersionsError :: go_error where
  "NewNoApplicationVersionsError =
     Error (zero_error\<lparr>Message := ''No application versions are registered'',
       Code := ErrorCodeNoApplicationVersions\<rparr>) None"

definition NewQueueNotFoundError :: "string \<Rightarrow> go_error" where
  "NewQueueNotFoundError queueName =
     Error (zero_error\<lparr>Message := ''queue '' @ queueName @ '' does not exist'',
       Code := ErrorCodeQueueNotFound, e_QueueName := queueName\<rparr>) None"

definition NewScheduleNotFoundError :: "string \<Rightarrow> go_error" where
  "NewScheduleNotFoundError scheduleName =
     Error (zero_error\<lparr>Message := ''schedule '' @ scheduleName @ '' does not exist'', Code := ErrorCodeScheduleNotFound\<rparr>) None"

definition NewInvalidOptionError :: "string \<Rightarrow> go_error" where
  "NewInvalidOptionError message =
     Error (zero_error\<lparr>Message := message, Code := ErrorCodeInvalidOption\<rparr>) None"

definition NewTimeoutError :: "string \<Rightarrow> string \<Rightarrow> string \<Rightarrow> go_error option \<Rightarrow> go_error" where
  "NewTimeoutError wid stepName message cause =
     (let msg = (if stepName \<noteq> [] then ''Step '' @ stepName @ '' timed out'' else ''Operation timed out'');
          msg = (if wid \<noteq> [] then msg @ '' in workflow '' @ wid else msg);
          msg = (if message \<noteq> [] then msg @ '': '' @ message else msg)
      in withCause (zero_error\<lparr>Message := msg, Code := ErrorCodeTimeout, e_WorkflowID := wid,
           e_StepName := stepName\<rparr>) cause)"

lemma errors_Is_Error [simp]:
  "errors_Is c (Error i w) \<longleftrightarrow>
     (c \<noteq> 0 \<and> Code i = c) \<or> (case w of None \<Rightarrow> False | Some e \<Rightarrow> errors_Is c e)"
  by (simp add: errors_Is_def Error_Is_def Portable_Is_def split: option.splits)

lemma is_cause_Error [simp]:
  "is_canceled (Error i w) \<longleftrightarrow> (case w of None \<Rightarrow> False | Some e \<Rightarrow> is_canceled e)"
  "is_deadline (Error i w) \<longleftrightarrow> (case w of None \<Rightarrow> False | Some e \<Rightarrow> is_deadline e)"
  by (simp_all add: is_canceled_def is_deadline_def split: option.splits)

lemma is_cause_sentinels [simp]:
  "is_canceled Canceled" "\<not> is_canceled DeadlineExceeded"
  "\<not> is_deadline Canceled" "is_deadline DeadlineExceeded"
  by (simp_all add: is_canceled_def is_deadline_def)

lemma errors_Is_withCause [simp]:
  "errors_Is c (withCause i cause) \<longleftrightarrow>
     (c \<noteq> 0 \<and> Code i = c) \<or> (case cause of None \<Rightarrow> False | Some e \<Rightarrow> errors_Is c e)"
  by (simp add: withCause_def split: option.splits)

text \<open>
  An error built with a cause keeps answering \<^verbatim>\<open>errors.Is(err, context.Canceled)\<close> after it is
  stored and read back, and \<^verbatim>\<open>errors.Is(err, context.DeadlineExceeded)\<close> too when its cause is not
  also a cancellation; no error starts matching a sentinel it did not match before.
\<close>

theorem cause_survives_persistence:
  assumes "CauseKind i = []"
  shows "is_canceled (persist_restore (withCause i cause)) = is_canceled (withCause i cause) \<and>
    is_deadline (persist_restore (withCause i cause)) =
      (is_deadline (withCause i cause) \<and> \<not> is_canceled (withCause i cause))"
  using assms
  by (auto simp: withCause_def persist_restore_def RestoreWrappedCause_def causeKindCanceled_def
      causeKindDeadline_def split: option.splits)

theorem cause_survives_persistence_witness:
  "CauseKind zero_error = [] \<and>
   is_canceled (persist_restore (withCause zero_error (Some (Errorf ''step: '' Canceled)))) \<and>
   \<not> is_deadline (persist_restore (withCause zero_error (Some (Errorf ''step: '' Canceled))))"
proof -
  have k: "CauseKind zero_error = []" by (simp add: zero_error_def)
  have c: "is_canceled (withCause zero_error (Some (Errorf ''step: '' Canceled)))"
    by (simp add: withCause_def is_canceled_def)
  show ?thesis
    using k c cause_survives_persistence [OF k, of "Some (Errorf ''step: '' Canceled)"] by simp
qed

end
