(* ===== verification/Tables.thy ===== *)
theory Tables
  imports Models Complex_Main
begin

text \<open>
  The system database: one record per table of \<^verbatim>\<open>src/dbos/internal/sysdb/migrations\<close>, the record
  of all tables, and the constraints the schema declares (primary keys, the partial unique index
  on \<^verbatim>\<open>(queue_name, deduplication_id)\<close>, foreign keys with cascading deletes). The locales at the
  end state what a guarded \<^verbatim>\<open>UPDATE\<close> of \<^verbatim>\<open>workflow_status\<close> has to satisfy and what follows from
  it for the whole table; every status-changing operation interprets them.
\<close>

section \<open>Floating-point durations\<close>

text \<open>\<^verbatim>\<open>time.Duration(f)\<close> truncates towards zero.\<close>

definition Duration :: "real \<Rightarrow> duration" where
  "Duration x = (if 0 \<le> x then \<lfloor>x\<rfloor> else \<lceil>x\<rceil>)"

section \<open>Rows\<close>

record wf_row =
  ws_workflow_uuid :: string
  ws_status :: WorkflowStatusType
  ws_name :: string
  ws_authenticated_user :: "string option"
  ws_assumed_role :: "string option"
  ws_authenticated_roles :: "string list"
  ws_output :: "string option"
  ws_error :: "string option"
  ws_executor_id :: "string option"
  ws_created_at :: int
  ws_updated_at :: int
  ws_application_version :: "string option"
  ws_application_id :: "string option"
  ws_class_name :: "string option"
  ws_config_name :: "string option"
  ws_recovery_attempts :: int
  ws_queue_name :: "string option"
  ws_workflow_timeout_ms :: "int option"
  ws_workflow_deadline_epoch_ms :: "int option"
  ws_inputs :: "string option"
  ws_started_at_epoch_ms :: "int option"
  ws_deduplication_id :: "string option"
  ws_priority :: int
  ws_queue_partition_key :: "string option"
  ws_forked_from :: "string option"
  ws_owner_xid :: "string option"
  ws_parent_workflow_id :: "string option"
  ws_serialization :: "string option"
  ws_delay_until_epoch_ms :: "int option"
  ws_was_forked_from :: bool
  ws_rate_limited :: bool
  ws_completed_at :: "int option"
  ws_attributes :: "(string \<times> string) list option"
  ws_schedule_name :: "string option"
  ws_debounce_deadline_epoch_ms :: "int option"
  ws_is_debounced :: bool
  ws_application_name :: "string option"

record op_row =
  oo_workflow_uuid :: string
  oo_function_id :: int
  oo_function_name :: string
  oo_output :: "string option"
  oo_error :: "string option"
  oo_child_workflow_id :: "string option"
  oo_started_at_epoch_ms :: "int option"
  oo_completed_at_epoch_ms :: "int option"
  oo_serialization :: "string option"
  oo_application_name :: "string option"

record notification_row =
  nt_destination_uuid :: string
  nt_topic :: string
  nt_message :: string
  nt_created_at_epoch_ms :: int
  nt_message_uuid :: string
  nt_serialization :: "string option"
  nt_consumed :: bool

record event_row =
  ev_workflow_uuid :: string
  ev_key :: string
  ev_value :: string
  ev_serialization :: "string option"

record event_history_row =
  eh_workflow_uuid :: string
  eh_function_id :: int
  eh_key :: string
  eh_value :: string
  eh_serialization :: "string option"

record stream_row =
  st_workflow_uuid :: string
  st_key :: string
  st_value :: string
  st_offset :: int
  st_function_id :: int
  st_serialization :: "string option"

record waiter_row =
  wt_waiter_workflow_uuid :: string
  wt_awaited_workflow_uuid :: string

record version_row =
  av_version_id :: string
  av_version_name :: string
  av_version_timestamp :: int
  av_created_at :: int
  av_application_name :: "string option"

record read_audience_row =
  ra_workflow_uuid :: string
  ra_principal_type :: string
  ra_principal :: string
  ra_org :: "string option"

datatype GateOutcome = GateDelivered | GateRejectedClosed | GateRejectedAudience | GateIgnored

record gate_row =
  ga_workflow_uuid :: string
  ga_gate :: string
  ga_org :: "string option"
  ga_open :: bool
  ga_expires_at_epoch_ms :: "int option"
  ga_opened_at_epoch_ms :: int
  ga_closed_at_epoch_ms :: "int option"
  ga_recv_step_id :: "int option"

record gate_audience_row =
  gu_workflow_uuid :: string
  gu_gate :: string
  gu_principal_type :: string
  gu_principal :: string
  gu_org :: "string option"

record gate_delivery_row =
  gd_delivery_uuid :: string
  gd_workflow_uuid :: string
  gd_gate :: string
  gd_by_subject :: string
  gd_by_org :: "string option"
  gd_claims :: "string option"
  gd_payload_digest :: "string option"
  gd_message_uuid :: "string option"
  gd_outcome :: GateOutcome
  gd_created_at_epoch_ms :: int

text \<open>The \<^verbatim>\<open>DOUBLE PRECISION\<close> columns hold seconds.\<close>

record queue_row =
  qu_queue_id :: string
  qu_name :: string
  qu_concurrency :: "int option"
  qu_worker_concurrency :: "int option"
  qu_rate_limit_max :: "int option"
  qu_rate_limit_period_sec :: "real option"
  qu_priority_enabled :: bool
  qu_partition_queue :: bool
  qu_polling_interval_sec :: real
  qu_created_at :: int
  qu_updated_at :: int
  qu_application_name :: "string option"

datatype ScheduleStatus = ScheduleStatusActive | ScheduleStatusPaused

record schedule_row =
  sc_schedule_id :: string
  sc_schedule_name :: string
  sc_workflow_name :: string
  sc_workflow_class_name :: "string option"
  sc_schedule :: string
  sc_status :: ScheduleStatus
  sc_context :: string
  sc_last_fired_at :: "string option"
  sc_automatic_backfill :: bool
  sc_cron_timezone :: "string option"
  sc_queue_name :: "string option"
  sc_application_name :: "string option"

record sysdb =
  workflow_status :: "wf_row list"
  operation_outputs :: "op_row list"
  notifications :: "notification_row list"
  workflow_events :: "event_row list"
  workflow_events_history :: "event_history_row list"
  streams :: "stream_row list"
  workflow_waiters :: "waiter_row list"
  application_versions :: "version_row list"
  workflow_read_audience :: "read_audience_row list"
  workflow_gates :: "gate_row list"
  workflow_gate_audience :: "gate_audience_row list"
  workflow_gate_deliveries :: "gate_delivery_row list"
  queues :: "queue_row list"
  workflow_schedules :: "schedule_row list"

definition empty_sysdb :: sysdb where
  "empty_sysdb = \<lparr>workflow_status = [], operation_outputs = [], notifications = [],
     workflow_events = [], workflow_events_history = [], streams = [], workflow_waiters = [],
     application_versions = [], workflow_read_audience = [], workflow_gates = [],
     workflow_gate_audience = [], workflow_gate_deliveries = [], queues = [], workflow_schedules = []\<rparr>"

text \<open>The column defaults of the schema.\<close>

definition default_wf_row :: "string \<Rightarrow> WorkflowStatusType \<Rightarrow> int \<Rightarrow> wf_row" where
  "default_wf_row wid st now = \<lparr>ws_workflow_uuid = wid, ws_status = st, ws_name = [],
     ws_authenticated_user = None, ws_assumed_role = None, ws_authenticated_roles = [],
     ws_output = None, ws_error = None, ws_executor_id = None, ws_created_at = now,
     ws_updated_at = now, ws_application_version = None, ws_application_id = None,
     ws_class_name = None, ws_config_name = None, ws_recovery_attempts = 0, ws_queue_name = None,
     ws_workflow_timeout_ms = None, ws_workflow_deadline_epoch_ms = None, ws_inputs = None,
     ws_started_at_epoch_ms = None, ws_deduplication_id = None, ws_priority = 0,
     ws_queue_partition_key = None, ws_forked_from = None, ws_owner_xid = None,
     ws_parent_workflow_id = None, ws_serialization = None, ws_delay_until_epoch_ms = None,
     ws_was_forked_from = False, ws_rate_limited = False, ws_completed_at = None,
     ws_attributes = None, ws_schedule_name = None, ws_debounce_deadline_epoch_ms = None,
     ws_is_debounced = False, ws_application_name = None\<rparr>"

text \<open>
  The parts of \<^verbatim>\<open>type SysDB struct\<close> that steer the statements: the application that owns the
  handle (empty for an application-less client), the dialect's support for data-modifying
  common table expressions, and the containment operator on \<^verbatim>\<open>jsonb\<close> values, which is the
  database's own and stays a parameter.
\<close>

record SysDB =
  appName :: string
  SupportsDataModifyingCTE :: bool
  SupportsAttributesContainment :: bool
  attributes_contain :: "(string \<times> string) list \<Rightarrow> (string \<times> string) list \<Rightarrow> bool"

definition owner :: "SysDB \<Rightarrow> string option" where
  "owner s = (if appName s = [] then None else Some (appName s))"

text \<open>
  The clause \<^verbatim>\<open>application_name = $n OR application_name IS NULL\<close>, present only when the handle
  belongs to an application.
\<close>

definition nameFilter :: "SysDB \<Rightarrow> string option \<Rightarrow> bool" where
  "nameFilter s col = (appName s = [] \<or> col = Some (appName s) \<or> col = None)"

definition observabilityNames :: "SysDB \<Rightarrow> string list option \<Rightarrow> string list option" where
  "observabilityNames s names =
     (if names \<noteq> None \<or> appName s = [] then names else Some [appName s])"

section \<open>Constraints\<close>

abbreviation wf_ids :: "wf_row list \<Rightarrow> string list" where
  "wf_ids rows \<equiv> map ws_workflow_uuid rows"

abbreviation op_key :: "op_row \<Rightarrow> string \<times> int" where
  "op_key r \<equiv> (oo_workflow_uuid r, oo_function_id r)"

abbreviation event_key :: "event_row \<Rightarrow> string \<times> string" where
  "event_key r \<equiv> (ev_workflow_uuid r, ev_key r)"

abbreviation history_key :: "event_history_row \<Rightarrow> string \<times> int \<times> string" where
  "history_key r \<equiv> (eh_workflow_uuid r, eh_function_id r, eh_key r)"

abbreviation stream_key :: "stream_row \<Rightarrow> string \<times> string \<times> int" where
  "stream_key r \<equiv> (st_workflow_uuid r, st_key r, st_offset r)"

abbreviation audience_key :: "read_audience_row \<Rightarrow> string \<times> string \<times> string" where
  "audience_key r \<equiv> (ra_workflow_uuid r, ra_principal_type r, ra_principal r)"

abbreviation gate_key :: "gate_row \<Rightarrow> string \<times> string" where
  "gate_key r \<equiv> (ga_workflow_uuid r, ga_gate r)"

abbreviation gate_audience_key :: "gate_audience_row \<Rightarrow> string \<times> string \<times> string \<times> string" where
  "gate_audience_key r \<equiv> (gu_workflow_uuid r, gu_gate r, gu_principal_type r, gu_principal r)"

abbreviation find_wf :: "string \<Rightarrow> sysdb \<Rightarrow> wf_row option" where
  "find_wf wid db \<equiv> lookup_by ws_workflow_uuid wid (workflow_status db)"

abbreviation find_op :: "string \<Rightarrow> int \<Rightarrow> sysdb \<Rightarrow> op_row option" where
  "find_op wid fid db \<equiv> lookup_by op_key (wid, fid) (operation_outputs db)"

definition slot_of :: "string option \<Rightarrow> string option \<Rightarrow> (string \<times> string) option" where
  "slot_of q d =
     (case q of None \<Rightarrow> None
      | Some q' \<Rightarrow> (case d of None \<Rightarrow> None | Some d' \<Rightarrow> Some (q', d')))"

definition dedup_slot :: "wf_row \<Rightarrow> (string \<times> string) option" where
  "dedup_slot r = slot_of (ws_queue_name r) (ws_deduplication_id r)"

definition dedup_unique :: "wf_row list \<Rightarrow> bool" where
  "dedup_unique rows = distinct (List.map_filter dedup_slot rows)"

definition pk_ok :: "sysdb \<Rightarrow> bool" where
  "pk_ok db \<longleftrightarrow>
     distinct (wf_ids (workflow_status db)) \<and> distinct (map op_key (operation_outputs db)) \<and>
     distinct (map nt_message_uuid (notifications db)) \<and>
     distinct (map event_key (workflow_events db)) \<and>
     distinct (map history_key (workflow_events_history db)) \<and>
     distinct (map stream_key (streams db)) \<and> distinct (workflow_waiters db) \<and>
     distinct (map audience_key (workflow_read_audience db)) \<and>
     distinct (map gate_key (workflow_gates db)) \<and>
     distinct (map gate_audience_key (workflow_gate_audience db)) \<and>
     distinct (map gd_delivery_uuid (workflow_gate_deliveries db)) \<and>
     distinct (map qu_name (queues db)) \<and> distinct (map sc_schedule_name (workflow_schedules db))"

definition fk_ok :: "sysdb \<Rightarrow> bool" where
  "fk_ok db \<longleftrightarrow>
     (let ids = set (wf_ids (workflow_status db)) in
        oo_workflow_uuid ` set (operation_outputs db) \<subseteq> ids \<and>
        nt_destination_uuid ` set (notifications db) \<subseteq> ids \<and>
        ev_workflow_uuid ` set (workflow_events db) \<subseteq> ids \<and>
        eh_workflow_uuid ` set (workflow_events_history db) \<subseteq> ids \<and>
        st_workflow_uuid ` set (streams db) \<subseteq> ids \<and>
        ra_workflow_uuid ` set (workflow_read_audience db) \<subseteq> ids \<and>
        ga_workflow_uuid ` set (workflow_gates db) \<subseteq> ids \<and>
        (\<lambda>r. (gu_workflow_uuid r, gu_gate r)) ` set (workflow_gate_audience db) \<subseteq> gate_key ` set (workflow_gates db) \<and>
        gd_workflow_uuid ` set (workflow_gate_deliveries db) \<subseteq> ids)"

text \<open>
  What the columns of one row promise each other: \<^verbatim>\<open>completed_at\<close> is set exactly on terminal
  rows, a terminal row holds no deduplication slot, a row that holds one is on a queue, a row
  waiting for dispatch is on a queue and a delayed row has a wake-up time.
\<close>

definition row_inv :: "wf_row \<Rightarrow> bool" where
  "row_inv r \<longleftrightarrow>
     (isTerminalStatus (ws_status r) \<longleftrightarrow> ws_completed_at r \<noteq> None) \<and>
     (isTerminalStatus (ws_status r) \<longrightarrow> ws_deduplication_id r = None) \<and>
     (ws_deduplication_id r \<noteq> None \<longrightarrow> derefStr (ws_queue_name r) \<noteq> []) \<and>
     (ws_status r \<in> {WorkflowStatusEnqueued, WorkflowStatusDelayed} \<longrightarrow>
        derefStr (ws_queue_name r) \<noteq> []) \<and>
     (ws_status r = WorkflowStatusDelayed \<longrightarrow> ws_delay_until_epoch_ms r \<noteq> None)"

definition db_inv :: "sysdb \<Rightarrow> bool" where
  "db_inv db \<longleftrightarrow>
     pk_ok db \<and> fk_ok db \<and> dedup_unique (workflow_status db) \<and>
     (\<forall>r \<in> set (workflow_status db). row_inv r)"

lemma default_wf_row_sel [simp]:
  "ws_workflow_uuid (default_wf_row wid st now) = wid"
  "ws_status (default_wf_row wid st now) = st"
  "ws_created_at (default_wf_row wid st now) = now"
  "ws_updated_at (default_wf_row wid st now) = now"
  "ws_completed_at (default_wf_row wid st now) = None"
  "ws_deduplication_id (default_wf_row wid st now) = None"
  "ws_queue_name (default_wf_row wid st now) = None"
  by (simp_all add: default_wf_row_def)

lemma slot_of_simps [simp]:
  "slot_of None d = None" "slot_of q None = None" "slot_of (Some q') (Some d') = Some (q', d')"
  by (simp_all add: slot_of_def split: option.splits)

lemma slot_of_eq_Some [simp]: "slot_of q d = Some (q', d') \<longleftrightarrow> q = Some q' \<and> d = Some d'"
  by (auto simp: slot_of_def split: option.splits)

lemma dedup_unique_Nil [simp]: "dedup_unique []"
  by (simp add: dedup_unique_def List.map_filter_def)

lemma map_filter_slot_iff [simp]:
  "x \<in> set (List.map_filter dedup_slot rows) \<longleftrightarrow> (\<exists>r \<in> set rows. dedup_slot r = Some x)"
  by (force simp: List.map_filter_def)

lemma dedup_unique_Cons [simp]:
  "dedup_unique (r # rows) \<longleftrightarrow> dedup_unique rows \<and>
     (\<forall>s r'. dedup_slot r = Some s \<longrightarrow> r' \<in> set rows \<longrightarrow> dedup_slot r' \<noteq> Some s)"
  by (cases "dedup_slot r") (auto simp: dedup_unique_def List.map_filter_simps)

section \<open>Statements on workflow_status\<close>

definition update_wf :: "(wf_row \<Rightarrow> bool) \<Rightarrow> (wf_row \<Rightarrow> wf_row) \<Rightarrow> sysdb \<Rightarrow> sysdb" where
  "update_wf guard upd db = db\<lparr>workflow_status := update_where guard upd (workflow_status db)\<rparr>"

definition rows_affected :: "(wf_row \<Rightarrow> bool) \<Rightarrow> sysdb \<Rightarrow> int" where
  "rows_affected guard db = count_where guard (workflow_status db)"

text \<open>
  \<^verbatim>\<open>DELETE FROM workflow_status\<close>: every table with a foreign key on \<^verbatim>\<open>workflow_uuid\<close> is declared
  \<^verbatim>\<open>ON DELETE CASCADE\<close>; \<^verbatim>\<open>workflow_waiters\<close> has no foreign key and keeps its rows.
\<close>

definition delete_wf :: "(wf_row \<Rightarrow> bool) \<Rightarrow> sysdb \<Rightarrow> sysdb" where
  "delete_wf p db =
     (let gone = wf_ids (filter p (workflow_status db)) in
        db\<lparr>workflow_status := delete_where p (workflow_status db),
           operation_outputs := delete_where (\<lambda>r. oo_workflow_uuid r \<in> set gone) (operation_outputs db),
           notifications := delete_where (\<lambda>r. nt_destination_uuid r \<in> set gone) (notifications db),
           workflow_events := delete_where (\<lambda>r. ev_workflow_uuid r \<in> set gone) (workflow_events db),
           workflow_events_history :=
             delete_where (\<lambda>r. eh_workflow_uuid r \<in> set gone) (workflow_events_history db),
           streams := delete_where (\<lambda>r. st_workflow_uuid r \<in> set gone) (streams db),
           workflow_read_audience :=
             delete_where (\<lambda>r. ra_workflow_uuid r \<in> set gone) (workflow_read_audience db),
           workflow_gates := delete_where (\<lambda>r. ga_workflow_uuid r \<in> set gone) (workflow_gates db),
           workflow_gate_audience :=
             delete_where (\<lambda>r. gu_workflow_uuid r \<in> set gone) (workflow_gate_audience db),
           workflow_gate_deliveries :=
             delete_where (\<lambda>r. gd_workflow_uuid r \<in> set gone) (workflow_gate_deliveries db)\<rparr>)"

definition fk_violation :: go_error where
  "fk_violation = ErrorText ''insert or update violates foreign key constraint''"

text \<open>A multi-row \<^verbatim>\<open>INSERT\<close> without conflict clause, or a loop of single inserts in one transaction: all rows
  or none.\<close>

definition insert_all :: "string \<Rightarrow> ('r \<Rightarrow> 'k) \<Rightarrow> 'r list \<Rightarrow> 'r list \<Rightarrow> 'r list res" where
  "insert_all what key new rows =
     (if distinct (map key new) \<and> list_all (\<lambda>r. \<not> exists_where (\<lambda>x. key x = key r) rows) new
      then Inr (rows @ new)
      else Inl (Errorf what (ErrorText ''unique constraint violation'')))"

lemma insert_all_fresh:
  assumes "distinct (map key new)" and "\<And>x r. x \<in> set rows \<Longrightarrow> r \<in> set new \<Longrightarrow> key x \<noteq> key r"
  shows "insert_all what key new rows = Inr (rows @ new)"
  using assms by (auto simp: insert_all_def list_all_iff)

lemma update_wf_sel [simp]:
  "workflow_status (update_wf g u db) = update_where g u (workflow_status db)"
  "operation_outputs (update_wf g u db) = operation_outputs db"
  "notifications (update_wf g u db) = notifications db"
  "workflow_events (update_wf g u db) = workflow_events db"
  "workflow_events_history (update_wf g u db) = workflow_events_history db"
  "streams (update_wf g u db) = streams db"
  "workflow_waiters (update_wf g u db) = workflow_waiters db"
  "application_versions (update_wf g u db) = application_versions db"
  "workflow_read_audience (update_wf g u db) = workflow_read_audience db"
  "workflow_gates (update_wf g u db) = workflow_gates db"
  "workflow_gate_audience (update_wf g u db) = workflow_gate_audience db"
  "workflow_gate_deliveries (update_wf g u db) = workflow_gate_deliveries db"
  "queues (update_wf g u db) = queues db"
  "workflow_schedules (update_wf g u db) = workflow_schedules db"
  by (simp_all add: update_wf_def)

text \<open>Equations that split the invariant into the tables it speaks about.\<close>

lemma db_inv_with_waiters [simp]:
  "distinct ws \<Longrightarrow> db_inv db \<Longrightarrow> db_inv (db\<lparr>workflow_waiters := ws\<rparr>)"
  by (simp add: db_inv_def pk_ok_def fk_ok_def)

lemma db_inv_waiters: "db_inv db \<Longrightarrow> distinct (workflow_waiters db)"
  by (simp add: db_inv_def pk_ok_def)

lemma db_inv_ids: "db_inv db \<Longrightarrow> distinct (wf_ids (workflow_status db))"
  by (simp add: db_inv_def pk_ok_def)

lemma db_inv_row: "db_inv db \<Longrightarrow> r \<in> set (workflow_status db) \<Longrightarrow> row_inv r"
  by (simp add: db_inv_def)

lemma db_inv_with_status:
  assumes "db_inv db" and "wf_ids rows = wf_ids (workflow_status db)"
    and "dedup_unique rows" and "\<And>r. r \<in> set rows \<Longrightarrow> row_inv r"
  shows "db_inv (db\<lparr>workflow_status := rows\<rparr>)"
proof -
  from assms(2) have "ws_workflow_uuid ` set rows = ws_workflow_uuid ` set (workflow_status db)"
    by (metis set_map)
  with assms show ?thesis by (simp add: db_inv_def pk_ok_def fk_ok_def)
qed

lemma find_wf_iff:
  "db_inv db \<Longrightarrow> find_wf wid db = Some r \<longleftrightarrow> r \<in> set (workflow_status db) \<and> ws_workflow_uuid r = wid"
  by (rule lookup_by_in_iff) (rule db_inv_ids)

lemma wf_row_unique:
  "db_inv db \<Longrightarrow> r \<in> set (workflow_status db) \<Longrightarrow> x \<in> set (workflow_status db) \<Longrightarrow>
     ws_workflow_uuid r = ws_workflow_uuid x \<Longrightarrow> r = x"
  using db_inv_ids [of db] by (auto simp: distinct_map dest: inj_onD)

lemma dedup_unique_filter: "dedup_unique rows \<Longrightarrow> dedup_unique (filter p rows)"
  by (induction rows) auto

lemma dedup_unique_append:
  "dedup_unique (xs @ [r]) \<longleftrightarrow> dedup_unique xs \<and>
     (\<forall>s r'. dedup_slot r = Some s \<longrightarrow> r' \<in> set xs \<longrightarrow> dedup_slot r' \<noteq> Some s)"
  by (induction xs) auto

lemma dedup_unique_update:
  assumes "dedup_unique rows"
    and "\<And>r. r \<in> set rows \<Longrightarrow> g r \<Longrightarrow> dedup_slot (u r) = None \<or> dedup_slot (u r) = dedup_slot r"
  shows "dedup_unique (update_where g u rows)"
  using assms
proof (induction rows)
  case (Cons r rows)
  have 1: "dedup_slot (if g r then u r else r) \<in> {None, dedup_slot r}"
    using Cons.prems(2) [of r] by auto
  have 2: "\<exists>x \<in> set rows. dedup_slot x = Some s"
    if "r' \<in> set (update_where g u rows)" "dedup_slot r' = Some s" for r' s
    using that Cons.prems(2)
    by (metis (no_types, lifting) update_where_in_D list.set_intros(2) option.distinct(1))
  have "dedup_slot r' \<noteq> Some s"
    if "dedup_slot (if g r then u r else r) = Some s" "r' \<in> set (update_where g u rows)" for s r'
    using that 1 2 [of r' s] Cons.prems(1) by (metis dedup_unique_Cons insertE option.distinct(1) singletonD)
  moreover have "dedup_unique (update_where g u rows)" using Cons by simp
  ultimately show ?case by simp
qed simp

text \<open>Cascading deletion keeps every constraint.\<close>

lemma delete_wf_inv:
  assumes "db_inv db" shows "db_inv (delete_wf p db)"
proof -
  have fk: "x \<in> ws_workflow_uuid ` {r \<in> set (workflow_status db). \<not> p r}"
    if "x \<in> ws_workflow_uuid ` set (workflow_status db)"
      "x \<notin> ws_workflow_uuid ` {r \<in> set (workflow_status db). p r}" for x
    using that by blast
  from assms show ?thesis
    by (auto simp: db_inv_def pk_ok_def fk_ok_def delete_wf_def Let_def delete_where_def
        distinct_map_filter dedup_unique_filter image_subset_iff intro!: fk)
qed

lemma delete_wf_find:
  "db_inv db \<Longrightarrow> find_wf wid (delete_wf p db) =
     (case find_wf wid db of None \<Rightarrow> None | Some r \<Rightarrow> if p r then None else Some r)"
  by (simp add: delete_wf_def Let_def lookup_by_delete_where db_inv_ids)

subsection \<open>The status graph\<close>

text \<open>The edges the operations of the system database may take.\<close>

fun legal_transition :: "WorkflowStatusType \<Rightarrow> WorkflowStatusType \<Rightarrow> bool" where
  "legal_transition WorkflowStatusPending st = True"
| "legal_transition WorkflowStatusEnqueued st =
     (st \<in> {WorkflowStatusEnqueued, WorkflowStatusPending, WorkflowStatusCancelled})"
| "legal_transition WorkflowStatusDelayed st =
     (st \<in> {WorkflowStatusDelayed, WorkflowStatusEnqueued, WorkflowStatusCancelled})"
| "legal_transition WorkflowStatusCancelled st =
     (st \<in> {WorkflowStatusCancelled, WorkflowStatusEnqueued})"
| "legal_transition WorkflowStatusMaxRecoveryAttemptsExceeded st =
     (st \<in> {WorkflowStatusMaxRecoveryAttemptsExceeded, WorkflowStatusEnqueued, WorkflowStatusCancelled})"
| "legal_transition WorkflowStatusSuccess st = (st = WorkflowStatusSuccess)"
| "legal_transition WorkflowStatusError st = (st = WorkflowStatusError)"

lemma legal_transition_refl [simp]: "legal_transition st st"
  by (cases st) simp_all

lemma legal_transition_outcome: "has_outcome st \<Longrightarrow> legal_transition st st' \<Longrightarrow> st' = st"
  by (cases st) simp_all

subsection \<open>Guarded updates\<close>

locale row_update =
  fixes guard :: "wf_row \<Rightarrow> bool" and upd :: "wf_row \<Rightarrow> wf_row"
  assumes keeps_uuid: "ws_workflow_uuid (upd r) = ws_workflow_uuid r"
begin

lemma ids: "wf_ids (update_where guard upd rows) = wf_ids rows"
  by (simp add: update_where_keeps keeps_uuid)

lemma find: "lookup_by ws_workflow_uuid wid (update_where guard upd rows) =
    map_option (\<lambda>r. if guard r then upd r else r) (lookup_by ws_workflow_uuid wid rows)"
  by (simp add: lookup_by_update_where keeps_uuid)

lemma find_SomeD:
  assumes "find_wf wid (update_wf guard upd db) = Some r'"
  obtains r where "find_wf wid db = Some r" and "r' = (if guard r then upd r else r)"
  using assms by (auto simp: find)

lemma find_untouched: "find_wf wid db = Some r \<Longrightarrow> \<not> guard r \<Longrightarrow> find_wf wid (update_wf guard upd db) = Some r"
  by (simp add: find)

lemma find_hit: "find_wf wid db = Some r \<Longrightarrow> guard r \<Longrightarrow> find_wf wid (update_wf guard upd db) = Some (upd r)"
  by (simp add: find)

end

locale inv_update = row_update +
  assumes keeps_inv: "guard r \<Longrightarrow> row_inv r \<Longrightarrow> row_inv (upd r)"
    and keeps_slot: "guard r \<Longrightarrow> row_inv r \<Longrightarrow> dedup_slot (upd r) = None \<or> dedup_slot (upd r) = dedup_slot r"
begin

lemma preserves_inv: "db_inv db \<Longrightarrow> db_inv (update_wf guard upd db)"
  unfolding update_wf_def
proof (rule db_inv_with_status)
  assume inv: "db_inv db"
  show "wf_ids (update_where guard upd (workflow_status db)) = wf_ids (workflow_status db)"
    by (rule ids)
  show "dedup_unique (update_where guard upd (workflow_status db))"
    using inv keeps_slot by (intro dedup_unique_update) (auto simp: db_inv_def)
  show "row_inv r" if "r \<in> set (update_where guard upd (workflow_status db))" for r
    using that inv by (auto elim!: update_where_in_D simp: db_inv_row keeps_inv)
qed

end

locale status_update = inv_update +
  assumes open_row: "guard r \<Longrightarrow> \<not> has_outcome (ws_status r)"
    and legal: "guard r \<Longrightarrow> legal_transition (ws_status r) (ws_status (upd r))"
begin

lemma outcome_frozen:
  "find_wf wid db = Some r \<Longrightarrow> has_outcome (ws_status r) \<Longrightarrow> find_wf wid (update_wf guard upd db) = Some r"
  using open_row by (auto simp: find)

lemma legal_step:
  "find_wf wid db = Some r \<Longrightarrow> find_wf wid (update_wf guard upd db) = Some r' \<Longrightarrow>
     legal_transition (ws_status r) (ws_status r')"
  by (auto simp: find legal)

end

section \<open>Row ownership\<close>

definition ToLower :: "string \<Rightarrow> string" where
  "ToLower = map (\<lambda>c. if CHR ''A'' \<le> c \<and> c \<le> CHR ''Z'' then char_of (of_char c + 32 :: nat) else c)"

definition quoted :: "string \<Rightarrow> string" where
  "quoted t = [CHR 0x27] @ t @ [CHR 0x27]"

definition NewNameOwnedByPeerError :: "string \<Rightarrow> string \<Rightarrow> string \<Rightarrow> string \<Rightarrow> go_error" where
  "NewNameOwnedByPeerError kind name current own =
     (let takeANewName =
        (if kind = ''Application version''
         then ''set a distinct application_version for '' @ quoted own
         else ''give '' @ quoted own @ '' a different '' @ ToLower kind @ '' name'') in
      Error (zero_error\<lparr>Message := kind @ '' '' @ quoted name @ '' is already registered by application '' @
         quoted current @ '' in this system database. '' @ kind @
         '' names must be unique across applications sharing a system database. Either '' @
         takeANewName @ '', or, if '' @ quoted current @ '' was renamed to '' @ quoted own @
         '', re-own its rows first with dbos rename-application'',
       Code := ErrorCodeConflictingRegistration\<rparr>) None)"

text \<open>
  \<^verbatim>\<open>resolveRowOwner\<close>: the first argument is the \<^verbatim>\<open>application_name\<close> read for the named row, \<open>None\<close>
  when there is no such row.
\<close>

definition resolveRowOwner ::
  "string option option \<Rightarrow> string \<Rightarrow> string option \<Rightarrow> string \<Rightarrow> string option res" where
  "resolveRowOwner row name own kind =
     (case row of
        None \<Rightarrow> Inr own
      | Some None \<Rightarrow> Inr own
      | Some (Some current) \<Rightarrow>
          (case own of
             None \<Rightarrow> Inr (Some current)
           | Some o' \<Rightarrow>
               if current = o' then Inr (Some current)
               else Inl (NewNameOwnedByPeerError kind name current o')))"

lemma resolveRowOwner_never_steals:
  "resolveRowOwner (Some (Some current)) name own kind = Inr res \<Longrightarrow> res = Some current"
  by (auto simp: resolveRowOwner_def split: option.splits if_splits)

lemma dedup_unique_eq:
  "dedup_unique rows \<Longrightarrow> r \<in> set rows \<Longrightarrow> r' \<in> set rows \<Longrightarrow> dedup_slot r = Some x \<Longrightarrow>
     dedup_slot r' = Some x \<Longrightarrow> r = r'"
  by (cases x, induction rows) auto

end
