(* ===== verification/Workflows.thy ===== *)
theory Workflows
  imports Tables
begin

text \<open>
  The workflow table of \<^verbatim>\<open>src/dbos/internal/sysdb/system_database.go\<close>: insertion, listing, the
  terminal outcome, attributes, cancellation, deletion, the search for descendants, resumption
  and the result poll, together with the waiter table of durable suspension. Each SQL statement
  is a pair of a guard (\<open>_where\<close>) and an assignment (\<open>_set\<close>) on rows.
\<close>

section \<open>Go values\<close>

record WorkflowStatus =
  W_ID :: string
  W_Status :: WorkflowStatusType
  W_Name :: string
  W_AuthenticatedUser :: string
  W_AssumedRole :: string
  W_AuthenticatedRoles :: "string list"
  W_Output :: "string option"
  W_Error :: "string option"
  W_ExecutorID :: string
  W_CreatedAt :: gotime
  W_UpdatedAt :: gotime
  W_ApplicationVersion :: string
  W_ApplicationID :: string
  W_Attempts :: int
  W_QueueName :: string
  W_Timeout :: duration
  W_Deadline :: gotime
  W_StartedAt :: gotime
  W_DeduplicationID :: string
  W_Input :: "string option"
  W_Priority :: int
  W_QueuePartitionKey :: string
  W_ForkedFrom :: string
  W_WasForkedFrom :: bool
  W_ParentWorkflowID :: string
  W_CompletedAt :: gotime
  W_ClassName :: string
  W_ConfigName :: "string option"
  W_Serialization :: string
  W_DelayUntil :: gotime
  W_Attributes :: "(string \<times> string) list"
  W_ScheduleName :: string
  W_DebounceDeadline :: gotime
  W_IsDebounced :: bool
  W_ApplicationName :: string

definition zero_WorkflowStatus :: WorkflowStatus where
  "zero_WorkflowStatus = \<lparr>W_ID = [], W_Status = WorkflowStatusPending, W_Name = [],
     W_AuthenticatedUser = [], W_AssumedRole = [], W_AuthenticatedRoles = [], W_Output = None,
     W_Error = None, W_ExecutorID = [], W_CreatedAt = None, W_UpdatedAt = None,
     W_ApplicationVersion = [], W_ApplicationID = [], W_Attempts = 0, W_QueueName = [],
     W_Timeout = 0, W_Deadline = None, W_StartedAt = None, W_DeduplicationID = [],
     W_Input = None, W_Priority = 0, W_QueuePartitionKey = [], W_ForkedFrom = [],
     W_WasForkedFrom = False, W_ParentWorkflowID = [], W_CompletedAt = None, W_ClassName = [],
     W_ConfigName = None, W_Serialization = [], W_DelayUntil = None, W_Attributes = [],
     W_ScheduleName = [], W_DebounceDeadline = None, W_IsDebounced = False,
     W_ApplicationName = []\<rparr>"

text \<open>The millisecond reading of the zero \<^verbatim>\<open>time.Time\<close>, January 1 of year 1.\<close>

definition created_at_ms :: "gotime \<Rightarrow> int" where
  "created_at_ms t = (case t of None \<Rightarrow> - 62135596800000 | Some x \<Rightarrow> UnixMilli (time_round_ms x))"

section \<open>InsertWorkflowStatus\<close>

record InsertWorkflowStatusDBInput =
  in_Status :: WorkflowStatus
  in_Tx :: bool
  in_OwnerXID :: "string option"

record InsertWorkflowResult =
  res_Status :: WorkflowStatusType
  res_Name :: string
  res_QueueName :: "string option"
  res_QueuePartitionKey :: "string option"
  res_Timeout :: duration
  res_WorkflowDeadline :: gotime
  res_OwnerXID :: string

definition insert_row :: "SysDB \<Rightarrow> instant \<Rightarrow> InsertWorkflowStatusDBInput \<Rightarrow> wf_row" where
  "insert_row s now inp =
     (let st = in_Status inp in
       \<lparr>ws_workflow_uuid = W_ID st, ws_status = W_Status st, ws_name = W_Name st,
        ws_authenticated_user = Some (W_AuthenticatedUser st),
        ws_assumed_role = Some (W_AssumedRole st),
        ws_authenticated_roles = W_AuthenticatedRoles st, ws_output = None, ws_error = None,
        ws_executor_id = Some (W_ExecutorID st), ws_created_at = created_at_ms (W_CreatedAt st),
        ws_updated_at = UnixMilli (case W_UpdatedAt st of None \<Rightarrow> now | Some t \<Rightarrow> t),
        ws_application_version = nonempty (W_ApplicationVersion st),
        ws_application_id = Some (W_ApplicationID st), ws_class_name = nonempty (W_ClassName st),
        ws_config_name = W_ConfigName st,
        ws_recovery_attempts =
          (if W_Status st \<in> {WorkflowStatusEnqueued, WorkflowStatusDelayed} then 0 else 1),
        ws_queue_name = nonempty (W_QueueName st),
        ws_workflow_timeout_ms =
          (if 0 < W_Timeout st then Some (duration_round_ms (W_Timeout st)) else None),
        ws_workflow_deadline_epoch_ms = map_option UnixMilli (W_Deadline st),
        ws_inputs = W_Input st, ws_started_at_epoch_ms = None,
        ws_deduplication_id = nonempty (W_DeduplicationID st), ws_priority = W_Priority st,
        ws_queue_partition_key = nonempty (W_QueuePartitionKey st), ws_forked_from = None,
        ws_owner_xid = in_OwnerXID inp, ws_parent_workflow_id = nonempty (W_ParentWorkflowID st),
        ws_serialization = Some (W_Serialization st),
        ws_delay_until_epoch_ms = map_option UnixMilli (W_DelayUntil st),
        ws_was_forked_from = False, ws_rate_limited = False, ws_completed_at = None,
        ws_attributes = (if W_Attributes st = [] then None else Some (W_Attributes st)),
        ws_schedule_name = nonempty (W_ScheduleName st),
        ws_debounce_deadline_epoch_ms = map_option UnixMilli (W_DebounceDeadline st),
        ws_is_debounced = W_IsDebounced st,
        ws_application_name =
          (if W_ApplicationName st \<noteq> [] then Some (W_ApplicationName st) else owner s)\<rparr>)"

text \<open>The \<^verbatim>\<open>ON CONFLICT (workflow_uuid) DO UPDATE\<close> arm, with \<open>ex\<close> the row proposed for insertion.\<close>

definition reinsert_set :: "wf_row \<Rightarrow> wf_row \<Rightarrow> wf_row" where
  "reinsert_set ex r = r\<lparr>ws_updated_at := ws_updated_at ex,
     ws_executor_id := (if ws_status ex \<in> {WorkflowStatusEnqueued, WorkflowStatusDelayed}
                        then ws_executor_id r else ws_executor_id ex)\<rparr>"

definition dedup_conflict :: "wf_row \<Rightarrow> wf_row list \<Rightarrow> bool" where
  "dedup_conflict row rows =
     (dedup_slot row \<noteq> None \<and> exists_where (\<lambda>r. dedup_slot r = dedup_slot row) rows)"

definition insert_result :: "WorkflowStatus \<Rightarrow> wf_row \<Rightarrow> InsertWorkflowResult res" where
  "insert_result st row =
     (if W_Name st \<noteq> [] \<and> ws_name row \<noteq> W_Name st then
        Inl (NewUnexpectedWorkflowError (W_ID st)
          (''Workflow already exists with a different name: '' @ ws_name row @
           '', but the provided name is: '' @ W_Name st))
      else if W_QueueName st \<noteq> [] \<and> ws_queue_name row \<noteq> None \<and> ws_queue_name row \<noteq> Some (W_QueueName st) then
        Inl (NewUnexpectedWorkflowError (W_ID st)
          (''Workflow already exists in a different queue: '' @ derefStr (ws_queue_name row) @
           '', but the provided queue is: '' @ W_QueueName st))
      else Inr \<lparr>res_Status = ws_status row, res_Name = ws_name row, res_QueueName = ws_queue_name row,
             res_QueuePartitionKey = ws_queue_partition_key row,
             res_Timeout = (case ws_workflow_timeout_ms row of None \<Rightarrow> 0
                            | Some ms \<Rightarrow> if 0 < ms then ms * Millisecond else 0),
             res_WorkflowDeadline = map_option time_of_ms (ws_workflow_deadline_epoch_ms row),
             res_OwnerXID = derefStr (ws_owner_xid row)\<rparr>)"

definition InsertWorkflowStatus ::
  "SysDB \<Rightarrow> instant \<Rightarrow> InsertWorkflowStatusDBInput \<Rightarrow> sysdb \<Rightarrow> (InsertWorkflowResult \<times> sysdb) res" where
  "InsertWorkflowStatus s now inp db =
     (let st = in_Status inp; row = insert_row s now inp in
      if \<not> in_Tx inp then Inl (ErrorText ''transaction is required for InsertWorkflowStatus'')
      else case find_wf (W_ID st) db of
        None \<Rightarrow>
          if dedup_conflict row (workflow_status db) then
            Inl (NewQueueDeduplicatedError (W_ID st) (W_QueueName st) (W_DeduplicationID st))
          else map_sum id (\<lambda>res. (res, db\<lparr>workflow_status := workflow_status db @ [row]\<rparr>))
                 (insert_result st row)
      | Some old \<Rightarrow>
          map_sum id (\<lambda>res. (res, update_wf (\<lambda>r. ws_workflow_uuid r = W_ID st) (reinsert_set row) db))
            (insert_result st (reinsert_set row old)))"

section \<open>ListWorkflows\<close>

record ListWorkflowsDBInput =
  l_WorkflowName :: "string list"
  l_QueueName :: "string list"
  l_QueuesOnly :: bool
  l_WorkflowIDPrefix :: "string list"
  l_WorkflowIDs :: "string list"
  l_AuthenticatedUser :: "string list"
  l_StartTime :: gotime
  l_EndTime :: gotime
  l_Status :: "WorkflowStatusType list"
  l_ApplicationVersion :: "string list"
  l_ExecutorIDs :: "string list"
  l_ForkedFrom :: "string list"
  l_ParentWorkflowID :: "string list"
  l_DeduplicationID :: "string list"
  l_CompletedAfter :: gotime
  l_CompletedBefore :: gotime
  l_DequeuedAfter :: gotime
  l_DequeuedBefore :: gotime
  l_WasForkedFrom :: "bool option"
  l_HasParent :: "bool option"
  l_Attributes :: "(string \<times> string) list"
  l_ScheduleName :: "string list"
  l_ApplicationName :: "string list option"
  l_IsDebounced :: "bool option"
  l_Limit :: "int option"
  l_Offset :: "int option"
  l_SortDesc :: bool
  l_LoadInput :: bool
  l_LoadOutput :: bool

definition zero_ListWorkflowsDBInput :: ListWorkflowsDBInput where
  "zero_ListWorkflowsDBInput = \<lparr>l_WorkflowName = [], l_QueueName = [], l_QueuesOnly = False,
     l_WorkflowIDPrefix = [], l_WorkflowIDs = [], l_AuthenticatedUser = [], l_StartTime = None,
     l_EndTime = None, l_Status = [], l_ApplicationVersion = [], l_ExecutorIDs = [],
     l_ForkedFrom = [], l_ParentWorkflowID = [], l_DeduplicationID = [], l_CompletedAfter = None,
     l_CompletedBefore = None, l_DequeuedAfter = None, l_DequeuedBefore = None,
     l_WasForkedFrom = None, l_HasParent = None, l_Attributes = [], l_ScheduleName = [],
     l_ApplicationName = None, l_IsDebounced = None, l_Limit = None, l_Offset = None,
     l_SortDesc = False, l_LoadInput = False, l_LoadOutput = False\<rparr>"

text \<open>
  The clauses of the query builder: a filter whose Go value is empty adds no clause. A nil slice
  of application names and an empty one differ, so that field is an option.
\<close>

definition addWhereAny :: "'a list \<Rightarrow> 'a option \<Rightarrow> bool" where
  "addWhereAny vs col = (vs = [] \<or> sql_in col vs)"

definition addWhereClaimedBy :: "string list option \<Rightarrow> string option \<Rightarrow> bool" where
  "addWhereClaimedBy names col =
     (case names of None \<Rightarrow> True | Some [] \<Rightarrow> True | Some ns \<Rightarrow> sql_in col ns \<or> col = None)"

definition addWhereLikeAny :: "string list \<Rightarrow> string \<Rightarrow> bool" where
  "addWhereLikeAny pats col = (pats = [] \<or> list_ex (\<lambda>p. sql_like (p @ ''%'') col) pats)"

definition addWhereGreaterEqual :: "gotime \<Rightarrow> int option \<Rightarrow> bool" where
  "addWhereGreaterEqual t col = (case t of None \<Rightarrow> True | Some x \<Rightarrow> sql_ge col (UnixMilli x))"

definition addWhereLessEqual :: "gotime \<Rightarrow> int option \<Rightarrow> bool" where
  "addWhereLessEqual t col = (case t of None \<Rightarrow> True | Some x \<Rightarrow> sql_le col (UnixMilli x))"

definition addWhereBool :: "bool option \<Rightarrow> bool \<Rightarrow> bool" where
  "addWhereBool v col = (case v of None \<Rightarrow> True | Some b \<Rightarrow> col = b)"

definition list_where :: "SysDB \<Rightarrow> ListWorkflowsDBInput \<Rightarrow> wf_row \<Rightarrow> bool" where
  "list_where s inp r =
     (addWhereAny (l_WorkflowName inp) (Some (ws_name r)) \<and>
      addWhereAny (l_QueueName inp) (ws_queue_name r) \<and>
      (l_QueuesOnly inp \<longrightarrow> ws_queue_name r \<noteq> None) \<and>
      addWhereLikeAny (l_WorkflowIDPrefix inp) (ws_workflow_uuid r) \<and>
      addWhereAny (l_WorkflowIDs inp) (Some (ws_workflow_uuid r)) \<and>
      addWhereAny (l_AuthenticatedUser inp) (ws_authenticated_user r) \<and>
      addWhereGreaterEqual (l_StartTime inp) (Some (ws_created_at r)) \<and>
      addWhereLessEqual (l_EndTime inp) (Some (ws_created_at r)) \<and>
      addWhereAny (l_Status inp) (Some (ws_status r)) \<and>
      addWhereAny (l_ApplicationVersion inp) (ws_application_version r) \<and>
      addWhereAny (l_ExecutorIDs inp) (ws_executor_id r) \<and>
      addWhereAny (l_ForkedFrom inp) (ws_forked_from r) \<and>
      addWhereAny (l_ParentWorkflowID inp) (ws_parent_workflow_id r) \<and>
      addWhereAny (l_DeduplicationID inp) (ws_deduplication_id r) \<and>
      addWhereAny (l_ScheduleName inp) (ws_schedule_name r) \<and>
      addWhereClaimedBy
        (if l_ApplicationName inp = None \<and> l_WorkflowIDs inp = [] then observabilityNames s None
         else l_ApplicationName inp) (ws_application_name r) \<and>
      addWhereGreaterEqual (l_CompletedAfter inp) (ws_completed_at r) \<and>
      addWhereLessEqual (l_CompletedBefore inp) (ws_completed_at r) \<and>
      addWhereGreaterEqual (l_DequeuedAfter inp) (ws_started_at_epoch_ms r) \<and>
      addWhereLessEqual (l_DequeuedBefore inp) (ws_started_at_epoch_ms r) \<and>
      addWhereBool (l_WasForkedFrom inp) (ws_was_forked_from r) \<and>
      addWhereBool (l_IsDebounced inp) (ws_is_debounced r) \<and>
      addWhereBool (l_HasParent inp) (ws_parent_workflow_id r \<noteq> None) \<and>
      (l_Attributes inp = [] \<or>
       (case ws_attributes r of None \<Rightarrow> False | Some a \<Rightarrow> attributes_contain s a (l_Attributes inp))))"

text \<open>The conversion of a scanned row into the Go struct.\<close>

definition scan_row :: "bool \<Rightarrow> bool \<Rightarrow> wf_row \<Rightarrow> WorkflowStatus" where
  "scan_row loadInput loadOutput r =
     \<lparr>W_ID = ws_workflow_uuid r, W_Status = ws_status r, W_Name = ws_name r,
      W_AuthenticatedUser = derefStr (ws_authenticated_user r),
      W_AssumedRole = derefStr (ws_assumed_role r),
      W_AuthenticatedRoles = ws_authenticated_roles r,
      W_Output = (if loadOutput then ws_output r else None),
      W_Error = (if loadOutput then nullif_empty (ws_error r) else None),
      W_ExecutorID = derefStr (ws_executor_id r),
      W_CreatedAt = Some (time_of_ms (ws_created_at r)),
      W_UpdatedAt = Some (time_of_ms (ws_updated_at r)),
      W_ApplicationVersion = derefStr (ws_application_version r),
      W_ApplicationID = derefStr (ws_application_id r), W_Attempts = ws_recovery_attempts r,
      W_QueueName = derefStr (ws_queue_name r),
      W_Timeout = (case ws_workflow_timeout_ms r of None \<Rightarrow> 0
                   | Some ms \<Rightarrow> if 0 < ms then ms * Millisecond else 0),
      W_Deadline = map_option time_of_ms (ws_workflow_deadline_epoch_ms r),
      W_StartedAt = map_option time_of_ms (ws_started_at_epoch_ms r),
      W_DeduplicationID = derefStr (ws_deduplication_id r),
      W_Input = (if loadInput then ws_inputs r else None), W_Priority = ws_priority r,
      W_QueuePartitionKey = derefStr (ws_queue_partition_key r),
      W_ForkedFrom = derefStr (ws_forked_from r), W_WasForkedFrom = ws_was_forked_from r,
      W_ParentWorkflowID = derefStr (ws_parent_workflow_id r),
      W_CompletedAt = map_option time_of_ms (ws_completed_at r),
      W_ClassName = derefStr (ws_class_name r), W_ConfigName = ws_config_name r,
      W_Serialization = derefStr (ws_serialization r),
      W_DelayUntil = map_option time_of_ms (ws_delay_until_epoch_ms r),
      W_Attributes = (case ws_attributes r of None \<Rightarrow> [] | Some a \<Rightarrow> a),
      W_ScheduleName = derefStr (ws_schedule_name r),
      W_DebounceDeadline = map_option time_of_ms (ws_debounce_deadline_epoch_ms r),
      W_IsDebounced = ws_is_debounced r, W_ApplicationName = derefStr (ws_application_name r)\<rparr>"

definition list_page :: "int option \<Rightarrow> int option \<Rightarrow> 'a list \<Rightarrow> 'a list" where
  "list_page limit offset rows =
     (let rest = (case offset of None \<Rightarrow> rows | Some n \<Rightarrow> offset_rows n rows) in
      case limit of None \<Rightarrow> rest | Some n \<Rightarrow> limit_rows n rest)"

text \<open>
  Postgres rejects a negative \<^verbatim>\<open>LIMIT\<close> or \<^verbatim>\<open>OFFSET\<close>; sqlite reads a negative limit as no limit and
  a negative offset as zero.
\<close>

definition ListWorkflows ::
  "SysDB \<Rightarrow> ListWorkflowsDBInput \<Rightarrow> sysdb \<Rightarrow> WorkflowStatus list res" where
  "ListWorkflows s inp db =
     (let neg = (\<lambda>b. case b of None \<Rightarrow> False | Some n \<Rightarrow> n < (0 :: int)) in
      if l_Attributes inp \<noteq> [] \<and> \<not> SupportsAttributesContainment s then
        Inl (ErrorText ''filtering workflows by attributes is not supported on sqlite; use a Postgres system database to filter by attributes'')
      else if SupportsDataModifyingCTE s \<and> (neg (l_Limit inp) \<or> neg (l_Offset inp)) then
        Inl (ErrorText ''failed to execute ListWorkflows query: bound must not be negative'')
      else
        let rows = filter (list_where s inp) (workflow_status db);
            ord = (if l_SortDesc inp then order_by_desc ws_created_at rows else order_by ws_created_at rows);
            limit = (if neg (l_Limit inp) then None else l_Limit inp)
        in Inr (map (scan_row (l_LoadInput inp) (l_LoadOutput inp)) (list_page limit (l_Offset inp) ord)))"

section \<open>Waiters of durable suspension\<close>

text \<open>
  The woken rows: \<^verbatim>\<open>DELAYED\<close> workflows registered as waiting for \<open>wid\<close>, found by the sub-select on
  \<^verbatim>\<open>workflow_waiters\<close>.
\<close>

definition waiting_for :: "string \<Rightarrow> sysdb \<Rightarrow> string list" where
  "waiting_for wid db =
     map wt_waiter_workflow_uuid (filter (\<lambda>w. wt_awaited_workflow_uuid w = wid) (workflow_waiters db))"

definition wake_where :: "string list \<Rightarrow> wf_row \<Rightarrow> bool" where
  "wake_where ids r = (ws_status r = WorkflowStatusDelayed \<and> ws_workflow_uuid r \<in> set ids)"

definition wake_set :: "instant \<Rightarrow> wf_row \<Rightarrow> wf_row" where
  "wake_set now r = r\<lparr>ws_delay_until_epoch_ms := Some (UnixMilli now), ws_updated_at := UnixMilli now\<rparr>"

definition notifyWorkflowWaiters :: "instant \<Rightarrow> string \<Rightarrow> sysdb \<Rightarrow> sysdb" where
  "notifyWorkflowWaiters now wid db = update_wf (wake_where (waiting_for wid db)) (wake_set now) db"

definition WakeWorkflowWaiters :: "instant \<Rightarrow> bool \<Rightarrow> string \<Rightarrow> sysdb \<Rightarrow> sysdb" where
  "WakeWorkflowWaiters now runner wid db =
     (if \<not> runner \<and> \<not> exists_where (\<lambda>w. wt_awaited_workflow_uuid w = wid) (workflow_waiters db) then db
      else
        let db1 = update_wf (wake_where (waiting_for wid db)) (wake_set now) db in
        db1\<lparr>workflow_waiters := delete_where (\<lambda>w. wt_awaited_workflow_uuid w = wid) (workflow_waiters db1)\<rparr>)"

definition WakeSuspendedWorkflow :: "instant \<Rightarrow> string \<Rightarrow> sysdb \<Rightarrow> sysdb" where
  "WakeSuspendedWorkflow now wid db = update_wf (wake_where [wid]) (wake_set now) db"

definition suspend_where :: "string \<Rightarrow> wf_row \<Rightarrow> bool" where
  "suspend_where wid r = (ws_workflow_uuid r = wid \<and> ws_status r = WorkflowStatusPending)"

definition suspend_set :: "instant \<Rightarrow> instant \<Rightarrow> wf_row \<Rightarrow> wf_row" where
  "suspend_set now delayUntil r = r\<lparr>ws_status := WorkflowStatusDelayed,
     ws_delay_until_epoch_ms := Some (UnixMilli delayUntil), ws_updated_at := UnixMilli now,
     ws_queue_name := coalesce (nullif_empty (ws_queue_name r)) (Some InternalQueueName),
     ws_started_at_epoch_ms := None, ws_recovery_attempts := 0\<rparr>"

text \<open>
  A row that enters the internal queue with a deduplication id takes a slot there; the unique
  index refuses the statement when the slot is held.
\<close>

definition suspendWorkflowToDelayed ::
  "instant \<Rightarrow> string \<Rightarrow> instant \<Rightarrow> sysdb \<Rightarrow> (bool \<times> sysdb) res" where
  "suspendWorkflowToDelayed now wid delayUntil db =
     (let db' = update_wf (suspend_where wid) (suspend_set now delayUntil) db in
      if dedup_unique (workflow_status db') then Inr (0 < rows_affected (suspend_where wid) db, db')
      else Inl (ErrorText (''failed to suspend workflow '' @ wid)))"

definition reset_attempts_set :: "instant \<Rightarrow> wf_row \<Rightarrow> wf_row" where
  "reset_attempts_set now r = r\<lparr>ws_recovery_attempts := 0, ws_updated_at := UnixMilli now\<rparr>"

definition ResetWorkflowRecoveryAttempts :: "instant \<Rightarrow> string \<Rightarrow> sysdb \<Rightarrow> sysdb" where
  "ResetWorkflowRecoveryAttempts now wid db = update_wf (suspend_where wid) (reset_attempts_set now) db"

definition SuspendWorkflowForSleep :: "instant \<Rightarrow> string \<Rightarrow> instant \<Rightarrow> sysdb \<Rightarrow> (bool \<times> sysdb) res" where
  "SuspendWorkflowForSleep now wid delayUntil db = suspendWorkflowToDelayed now wid delayUntil db"

definition SuspendWorkflowForResult ::
  "instant \<Rightarrow> string \<Rightarrow> string \<Rightarrow> instant \<Rightarrow> sysdb \<Rightarrow> (bool \<times> sysdb) res" where
  "SuspendWorkflowForResult now waiterID awaitedID delayUntil db =
     (case suspendWorkflowToDelayed now waiterID delayUntil db of
        Inl e \<Rightarrow> Inl e
      | Inr (suspended, db1) \<Rightarrow>
          if \<not> suspended then Inr (False, db)
          else
            let w = \<lparr>wt_waiter_workflow_uuid = waiterID, wt_awaited_workflow_uuid = awaitedID\<rparr> in
            Inr (True, db1\<lparr>workflow_waiters :=
              (if w \<in> set (workflow_waiters db1) then workflow_waiters db1
               else workflow_waiters db1 @ [w])\<rparr>))"

section \<open>Outcome and attributes\<close>

definition outcome_set ::
  "instant \<Rightarrow> WorkflowStatusType \<Rightarrow> string option \<Rightarrow> string \<Rightarrow> wf_row \<Rightarrow> wf_row" where
  "outcome_set now st out err r = r\<lparr>ws_status := st, ws_output := out, ws_error := Some err,
     ws_updated_at := UnixMilli now, ws_completed_at := Some (UnixMilli now),
     ws_deduplication_id := None\<rparr>"

definition UpdateWorkflowOutcome ::
  "instant \<Rightarrow> bool \<Rightarrow> string \<Rightarrow> WorkflowStatusType \<Rightarrow> string option \<Rightarrow> string \<Rightarrow> sysdb \<Rightarrow> bool \<times> sysdb" where
  "UpdateWorkflowOutcome now tx wid st out err db =
     (let rowsAffected = rows_affected (suspend_where wid) db;
          db1 = update_wf (suspend_where wid) (outcome_set now st out err) db;
          db2 = WakeWorkflowWaiters now tx wid db1
      in (0 < rowsAffected, db2))"

definition attributes_set :: "instant \<Rightarrow> (string \<times> string) list \<Rightarrow> wf_row \<Rightarrow> wf_row" where
  "attributes_set now attrs r = r\<lparr>ws_attributes := (if attrs = [] then None else Some attrs),
     ws_updated_at := UnixMilli now\<rparr>"

definition SetWorkflowAttributes ::
  "instant \<Rightarrow> string \<Rightarrow> (string \<times> string) list \<Rightarrow> sysdb \<Rightarrow> (unit \<times> sysdb) res" where
  "SetWorkflowAttributes now wid attrs db =
     (if rows_affected (\<lambda>r. ws_workflow_uuid r = wid) db = 0 then Inl (NewNonExistentWorkflowError wid)
      else Inr ((), update_wf (\<lambda>r. ws_workflow_uuid r = wid) (attributes_set now attrs) db))"

section \<open>Descendants\<close>

text \<open>
  The breadth-first loop has no visited set, so it is a partial function: \<open>None\<close> is a loop that
  never ends.
\<close>

definition list_children :: "SysDB \<Rightarrow> sysdb \<Rightarrow> string \<Rightarrow> WorkflowStatus list res" where
  "list_children s db pid =
     (case ListWorkflows s (zero_ListWorkflowsDBInput\<lparr>l_ParentWorkflowID := [pid]\<rparr>) db of
        Inl e \<Rightarrow> Inl (Errorf (''failed to get children of workflow '' @ pid @ '': '') e)
      | Inr ws \<Rightarrow> Inr ws)"

partial_function (option) children_loop ::
  "SysDB \<Rightarrow> sysdb \<Rightarrow> string list \<Rightarrow> WorkflowStatus list \<Rightarrow> WorkflowStatus list res option" where
  "children_loop s db queue children =
     (case queue of
        [] \<Rightarrow> Some (Inr children)
      | parentID # rest \<Rightarrow>
          (case list_children s db parentID of
             Inl e \<Rightarrow> Some (Inl e)
           | Inr gcs \<Rightarrow> children_loop s db (rest @ map W_ID gcs) (children @ gcs)))"

definition GetWorkflowChildren ::
  "SysDB \<Rightarrow> sysdb \<Rightarrow> string \<Rightarrow> WorkflowStatus list res option" where
  "GetWorkflowChildren s db wid =
     (case list_children s db wid of
        Inl e \<Rightarrow> Some (Inl e)
      | Inr children \<Rightarrow> children_loop s db (map W_ID children) children)"

fun collect_children :: "SysDB \<Rightarrow> sysdb \<Rightarrow> string list \<Rightarrow> string list res option" where
  "collect_children s db [] = Some (Inr [])"
| "collect_children s db (w # ws) =
     (case GetWorkflowChildren s db w of
        None \<Rightarrow> None
      | Some (Inl e) \<Rightarrow> Some (Inl e)
      | Some (Inr cs) \<Rightarrow>
          (case collect_children s db ws of
             None \<Rightarrow> None
           | Some (Inl e) \<Rightarrow> Some (Inl e)
           | Some (Inr rest) \<Rightarrow> Some (Inr (map W_ID cs @ rest))))"

definition with_children :: "SysDB \<Rightarrow> sysdb \<Rightarrow> bool \<Rightarrow> string list \<Rightarrow> string list res option" where
  "with_children s db children ids =
     (if \<not> children then Some (Inr ids)
      else map_option (map_sum id (\<lambda>cs. ids @ cs)) (collect_children s db ids))"

section \<open>Cancellation, deletion, resumption\<close>

definition cancel_where :: "string list \<Rightarrow> wf_row \<Rightarrow> bool" where
  "cancel_where ids r = (ws_workflow_uuid r \<in> set ids \<and>
     ws_status r \<notin> {WorkflowStatusSuccess, WorkflowStatusError, WorkflowStatusCancelled})"

definition cancel_set :: "instant \<Rightarrow> wf_row \<Rightarrow> wf_row" where
  "cancel_set now r = r\<lparr>ws_status := WorkflowStatusCancelled, ws_updated_at := UnixMilli now,
     ws_completed_at := Some (UnixMilli now), ws_started_at_epoch_ms := None,
     ws_queue_name := None, ws_deduplication_id := None\<rparr>"

definition select_ids :: "string list \<Rightarrow> sysdb \<Rightarrow> string list" where
  "select_ids ids db = wf_ids (filter (\<lambda>r. ws_workflow_uuid r \<in> set ids) (workflow_status db))"

text \<open>
  The split branch updates, then selects from the updated table; the single-statement branch
  selects from the snapshot both sub-queries share.
\<close>

definition CancelWorkflows ::
  "SysDB \<Rightarrow> instant \<Rightarrow> bool \<Rightarrow> string list \<Rightarrow> sysdb \<Rightarrow> (string list \<times> sysdb) res option" where
  "CancelWorkflows s now cancelChildren ids db =
     (if ids = [] then Some (Inr ([], db))
      else case with_children s db cancelChildren ids of
        None \<Rightarrow> None
      | Some (Inl e) \<Rightarrow> Some (Inl e)
      | Some (Inr workflowIDs) \<Rightarrow>
          if \<not> SupportsDataModifyingCTE s then
            let db' = update_wf (cancel_where workflowIDs) (cancel_set now) db in
            Some (Inr (select_ids workflowIDs db', db'))
          else
            let existing = select_ids workflowIDs db in
            Some (Inr (existing, update_wf (cancel_where workflowIDs) (cancel_set now) db)))"

definition DeleteWorkflows ::
  "SysDB \<Rightarrow> bool \<Rightarrow> string list \<Rightarrow> sysdb \<Rightarrow> (unit \<times> sysdb) res option" where
  "DeleteWorkflows s deleteChildren ids db =
     (case with_children s db deleteChildren ids of
        None \<Rightarrow> None
      | Some (Inl e) \<Rightarrow> Some (Inl e)
      | Some (Inr workflowIDs) \<Rightarrow>
          Some (Inr ((), delete_wf (\<lambda>r. ws_workflow_uuid r \<in> set workflowIDs) db)))"

definition CancelAllBefore :: "SysDB \<Rightarrow> instant \<Rightarrow> gotime \<Rightarrow> sysdb \<Rightarrow> (unit \<times> sysdb) res option" where
  "CancelAllBefore s now cutoffTime db =
     (case ListWorkflows s (zero_ListWorkflowsDBInput\<lparr>l_EndTime := cutoffTime,
             l_Status := [WorkflowStatusPending, WorkflowStatusEnqueued, WorkflowStatusDelayed]\<rparr>) db of
        Inl e \<Rightarrow> Some (Inl (Errorf ''failed to list workflows for cancellation: '' e))
      | Inr workflows \<Rightarrow>
          if workflows = [] then Some (Inr ((), db))
          else
            (case CancelWorkflows s now False (map W_ID workflows) db of
               None \<Rightarrow> None
             | Some (Inl e) \<Rightarrow> Some (Inl (Errorf ''failed to cancel workflows during cancelAllBefore: '' e))
             | Some (Inr (_, db')) \<Rightarrow> Some (Inr ((), db'))))"

definition resume_where :: "string list \<Rightarrow> wf_row \<Rightarrow> bool" where
  "resume_where ids r = (ws_workflow_uuid r \<in> set ids \<and>
     ws_status r \<notin> {WorkflowStatusSuccess, WorkflowStatusError})"

definition resume_set :: "instant \<Rightarrow> string \<Rightarrow> wf_row \<Rightarrow> wf_row" where
  "resume_set now queueName r = r\<lparr>ws_status := WorkflowStatusEnqueued,
     ws_queue_name := Some (if queueName = [] then InternalQueueName else queueName),
     ws_recovery_attempts := 0, ws_workflow_deadline_epoch_ms := None,
     ws_deduplication_id := None, ws_started_at_epoch_ms := None,
     ws_updated_at := UnixMilli now, ws_completed_at := None\<rparr>"

definition ResumeWorkflows ::
  "SysDB \<Rightarrow> instant \<Rightarrow> string \<Rightarrow> string list \<Rightarrow> sysdb \<Rightarrow> string list \<times> sysdb" where
  "ResumeWorkflows s now queueName ids db =
     (if ids = [] then ([], db)
      else if \<not> SupportsDataModifyingCTE s then
        let db' = update_wf (resume_where ids) (resume_set now queueName) db in (select_ids ids db', db')
      else
        let existing = select_ids ids db in
        (existing, update_wf (resume_where ids) (resume_set now queueName) db))"

section \<open>Awaiting a result\<close>

record AwaitWorkflowResultOutput =
  aw_Output :: "string option"
  aw_Serialization :: string
  aw_ErrStr :: "string option"

text \<open>
  \<^verbatim>\<open>contextInterruptionError\<close> for a context whose \<^verbatim>\<open>Err()\<close> is \<open>ctxErr\<close> and whose cause is \<open>cause\<close>.
\<close>

definition contextInterruptionError :: "go_error \<Rightarrow> go_error option \<Rightarrow> string \<Rightarrow> string \<Rightarrow> go_error" where
  "contextInterruptionError ctxErr cause wid message =
     NewTimeoutError wid []
       (case cause of
          None \<Rightarrow> message
        | Some c \<Rightarrow> if error_tree (\<lambda>x. x = ctxErr) c then message
                    else message @ '' ('' @ error_text c @ '')'')
       (Some ctxErr)"

text \<open>
  One turn of the poll loop finds the context interrupted, or reads the row in the database
  as it is at that moment. \<open>AwaitWorkflowResult\<close> runs over the turns; \<open>None\<close> says it is still
  polling after all of them. A cancelled or dead-lettered workflow yields both values.
\<close>

datatype poll_turn =
    ContextDone go_error "go_error option"
  | Snapshot sysdb

definition await_output :: "wf_row \<Rightarrow> AwaitWorkflowResultOutput" where
  "await_output r = \<lparr>aw_Output = ws_output r, aw_Serialization = derefStr (ws_serialization r),
     aw_ErrStr = None\<rparr>"

definition await_turn ::
  "string \<Rightarrow> bool \<Rightarrow> poll_turn \<Rightarrow> (AwaitWorkflowResultOutput option \<times> go_error option) option" where
  "await_turn wid failIfMissing turn =
     (case turn of
        ContextDone e cause \<Rightarrow>
          Some (None, Some (contextInterruptionError e cause wid ''timed out awaiting workflow result''))
      | Snapshot db \<Rightarrow>
          (case find_wf wid db of
             None \<Rightarrow> if failIfMissing then Some (None, Some (NewNonExistentWorkflowError wid)) else None
           | Some r \<Rightarrow>
               (case ws_status r of
                  WorkflowStatusSuccess \<Rightarrow> Some (Some ((await_output r)\<lparr>aw_ErrStr := nullif_empty (ws_error r)\<rparr>), None)
                | WorkflowStatusError \<Rightarrow> Some (Some ((await_output r)\<lparr>aw_ErrStr := nullif_empty (ws_error r)\<rparr>), None)
                | WorkflowStatusCancelled \<Rightarrow> Some (Some (await_output r), Some (NewAwaitedWorkflowCancelledError wid))
                | WorkflowStatusMaxRecoveryAttemptsExceeded \<Rightarrow>
                    Some (Some (await_output r), Some (NewDeadLetterQueueError wid (ws_recovery_attempts r - 2)))
                | _ \<Rightarrow> None)))"

fun AwaitWorkflowResult ::
  "string \<Rightarrow> bool \<Rightarrow> poll_turn list \<Rightarrow> (AwaitWorkflowResultOutput option \<times> go_error option) option" where
  "AwaitWorkflowResult wid failIfMissing [] = None"
| "AwaitWorkflowResult wid failIfMissing (turn # turns) =
     (case await_turn wid failIfMissing turn of
        Some res \<Rightarrow> Some res
      | None \<Rightarrow> AwaitWorkflowResult wid failIfMissing turns)"

lemmas workflow_row_defs [row_defs] =
  wake_where_def wake_set_def suspend_where_def suspend_set_def reset_attempts_set_def
  outcome_set_def attributes_set_def cancel_where_def cancel_set_def resume_where_def
  resume_set_def reinsert_set_def

section \<open>The statements keep the invariant and follow the status graph\<close>

lemmas row_unfold = row_inv_def dedup_slot_def has_outcome_def

lemma InternalQueueName_nonempty [simp]: "InternalQueueName \<noteq> []"
  by (simp add: InternalQueueName_def)

lemma suspend_queue_nonempty [simp]:
  "derefStr (coalesce (nullif_empty q) (Some InternalQueueName)) \<noteq> []"
  by (cases q) (auto simp: nullif_empty_def)

lemma coalesce_nullif_id [simp]:
  "derefStr q \<noteq> [] \<Longrightarrow> coalesce (nullif_empty q) d = q"
  by (cases q) (auto simp: nullif_empty_def)

interpretation wake: status_update "wake_where ids" "wake_set now" for ids now
  by unfold_locales (auto simp: row_defs row_unfold)

interpretation suspend: status_update "suspend_where wid" "suspend_set now until" for wid now until
  by unfold_locales (auto simp: row_defs row_unfold split: option.splits)

interpretation reset_attempts: status_update "suspend_where wid" "reset_attempts_set now" for wid now
  by unfold_locales (auto simp: row_defs row_unfold)

interpretation outcome: row_update "suspend_where wid" "outcome_set now st out err" for wid now st out err
  by unfold_locales (simp add: row_defs)

lemma outcome_status_update:
  "isTerminalStatus st \<Longrightarrow> status_update (suspend_where wid) (outcome_set now st out err)"
  by unfold_locales (auto simp: row_defs row_unfold)

interpretation attributes: inv_update "\<lambda>r. ws_workflow_uuid r = wid" "attributes_set now attrs" for wid now attrs
  by unfold_locales (auto simp: row_defs row_unfold)

interpretation cancel: status_update "cancel_where ids" "cancel_set now" for ids now
proof unfold_locales
  fix r assume "cancel_where ids r"
  then show "legal_transition (ws_status r) (ws_status (cancel_set now r))"
    by (cases "ws_status r") (simp_all add: row_defs)
qed (auto simp: row_defs row_unfold)

interpretation resume: status_update "resume_where ids" "resume_set now q" for ids now q
proof unfold_locales
  fix r assume "resume_where ids r"
  then show "legal_transition (ws_status r) (ws_status (resume_set now q r))"
    by (cases "ws_status r") (simp_all add: row_defs)
qed (auto simp: row_defs row_unfold)

interpretation reinsert: inv_update "\<lambda>r. ws_workflow_uuid r = wid" "reinsert_set ex" for wid ex
  by unfold_locales (auto simp: row_defs row_unfold)

lemma reinsert_keeps [simp]:
  "ws_status (reinsert_set ex r) = ws_status r" "ws_name (reinsert_set ex r) = ws_name r"
  "ws_queue_name (reinsert_set ex r) = ws_queue_name r"
  "ws_recovery_attempts (reinsert_set ex r) = ws_recovery_attempts r"
  by (simp_all add: reinsert_set_def)

section \<open>Insertion\<close>

text \<open>
  What the callers of \<^verbatim>\<open>InsertWorkflowStatus\<close> guarantee: a new row waits or runs, a deduplication id
  or a waiting status comes with a queue, a delayed row with its wake-up time.
\<close>

definition insertable :: "WorkflowStatus \<Rightarrow> bool" where
  "insertable st \<longleftrightarrow>
     \<not> isTerminalStatus (W_Status st) \<and>
     (W_DeduplicationID st \<noteq> [] \<longrightarrow> W_QueueName st \<noteq> []) \<and>
     (W_Status st \<in> {WorkflowStatusEnqueued, WorkflowStatusDelayed} \<longrightarrow> W_QueueName st \<noteq> []) \<and>
     (W_Status st = WorkflowStatusDelayed \<longrightarrow> W_DelayUntil st \<noteq> None)"

lemma insert_row_sel [simp]:
  "ws_workflow_uuid (insert_row s now inp) = W_ID (in_Status inp)"
  "ws_status (insert_row s now inp) = W_Status (in_Status inp)"
  "ws_name (insert_row s now inp) = W_Name (in_Status inp)"
  "ws_queue_name (insert_row s now inp) = nonempty (W_QueueName (in_Status inp))"
  "ws_deduplication_id (insert_row s now inp) = nonempty (W_DeduplicationID (in_Status inp))"
  "ws_delay_until_epoch_ms (insert_row s now inp) = map_option UnixMilli (W_DelayUntil (in_Status inp))"
  "ws_completed_at (insert_row s now inp) = None"
  "ws_output (insert_row s now inp) = None"
  "ws_error (insert_row s now inp) = None"
  by (simp_all add: insert_row_def Let_def)

lemma insert_row_inv: "insertable (in_Status inp) \<Longrightarrow> row_inv (insert_row s now inp)"
  by (auto simp: row_inv_def insertable_def)

lemma db_inv_insert:
  assumes "db_inv db" and "find_wf (ws_workflow_uuid row) db = None"
    and "\<not> dedup_conflict row (workflow_status db)" and "row_inv row"
  shows "db_inv (db\<lparr>workflow_status := workflow_status db @ [row]\<rparr>)"
proof -
  from assms(3) have "dedup_unique (workflow_status db @ [row])"
    using assms(1) by (auto simp: dedup_unique_append dedup_conflict_def db_inv_def)
  then show ?thesis using assms(1,2,4)
    by (auto simp: db_inv_def pk_ok_def fk_ok_def lookup_by_eq_None)
qed

lemma insert_result_fresh:
  "insert_result (in_Status inp) (insert_row s now inp) \<noteq> Inl e"
  by (auto simp: insert_result_def)

lemma InsertWorkflowStatus_cases:
  assumes "InsertWorkflowStatus s now inp db = Inr (res, db')"
  obtains (fresh) "find_wf (W_ID (in_Status inp)) db = None"
      and "\<not> dedup_conflict (insert_row s now inp) (workflow_status db)"
      and "db' = db\<lparr>workflow_status := workflow_status db @ [insert_row s now inp]\<rparr>"
      and "insert_result (in_Status inp) (insert_row s now inp) = Inr res"
  | (existing) old where "find_wf (W_ID (in_Status inp)) db = Some old"
      and "db' = update_wf (\<lambda>r. ws_workflow_uuid r = W_ID (in_Status inp))
                   (reinsert_set (insert_row s now inp)) db"
      and "insert_result (in_Status inp) (reinsert_set (insert_row s now inp) old) = Inr res"
  using assms
  by (auto simp: InsertWorkflowStatus_def Let_def map_sum_def split: if_splits option.splits sum.splits)

lemma InsertWorkflowStatus_inv:
  assumes "db_inv db" and "insertable (in_Status inp)"
    and "InsertWorkflowStatus s now inp db = Inr (res, db')"
  shows "db_inv db'"
  using assms(3)
proof (cases rule: InsertWorkflowStatus_cases)
  case fresh
  with assms(1,2) show ?thesis by (simp add: db_inv_insert insert_row_inv)
next
  case existing
  with assms(1) show ?thesis by (simp add: reinsert.preserves_inv)
qed

lemma InsertWorkflowStatus_find:
  assumes "InsertWorkflowStatus s now inp db = Inr (res, db')"
  shows "find_wf wid db' =
    (if wid = W_ID (in_Status inp)
     then Some (case find_wf wid db of None \<Rightarrow> insert_row s now inp
                | Some old \<Rightarrow> reinsert_set (insert_row s now inp) old)
     else find_wf wid db)"
  using assms
proof (cases rule: InsertWorkflowStatus_cases)
  case fresh
  then show ?thesis by (auto simp: lookup_by_append split: option.splits)
next
  case (existing old)
  then show ?thesis
    by (cases "find_wf wid db") (auto simp: reinsert.find dest: lookup_by_SomeD)
qed

text \<open>
  C11: an enqueue that names a held deduplication slot fails with the deduplication error, and
  what it carries names the workflow, the queue and the slot; on a free slot, or with no slot
  asked for, a new workflow is inserted. The two cases are exhaustive for a new workflow id.
\<close>

theorem insert_deduplicates:
  assumes "in_Tx inp" and "find_wf (W_ID st) db = None" and "st = in_Status inp"
  shows "(if \<exists>r \<in> set (workflow_status db). W_QueueName st \<noteq> [] \<and> W_DeduplicationID st \<noteq> [] \<and>
            ws_queue_name r = Some (W_QueueName st) \<and> ws_deduplication_id r = Some (W_DeduplicationID st)
          then InsertWorkflowStatus s now inp db =
                 Inl (NewQueueDeduplicatedError (W_ID st) (W_QueueName st) (W_DeduplicationID st))
          else \<exists>res. InsertWorkflowStatus s now inp db =
                 Inr (res, db\<lparr>workflow_status := workflow_status db @ [insert_row s now inp]\<rparr>) \<and>
                 res_Status res = W_Status st)"
proof -
  have conflict: "dedup_conflict (insert_row s now inp) (workflow_status db) \<longleftrightarrow>
      (\<exists>r \<in> set (workflow_status db). W_QueueName st \<noteq> [] \<and> W_DeduplicationID st \<noteq> [] \<and>
        ws_queue_name r = Some (W_QueueName st) \<and> ws_deduplication_id r = Some (W_DeduplicationID st))"
    using assms(3) by (cases "W_QueueName st = [] \<or> W_DeduplicationID st = []")
      (auto simp: dedup_conflict_def dedup_slot_def nonempty_def)
  obtain res where "insert_result st (insert_row s now inp) = Inr res" "res_Status res = W_Status st"
    using assms(3) by (auto simp: insert_result_def)
  then show ?thesis
    using assms unfolding conflict [symmetric] by (simp add: InsertWorkflowStatus_def Let_def)
qed

definition sample_sysdb_ctx :: SysDB where
  "sample_sysdb_ctx = \<lparr>appName = ''app'', SupportsDataModifyingCTE = True,
     SupportsAttributesContainment = True, attributes_contain = (\<lambda>a f. set f \<subseteq> set a)\<rparr>"

definition sample_enqueued :: wf_row where
  "sample_enqueued = (default_wf_row ''w1'' WorkflowStatusEnqueued 1)\<lparr>ws_queue_name := Some ''q'',
     ws_deduplication_id := Some ''d''\<rparr>"

definition sample_enqueue :: InsertWorkflowStatusDBInput where
  "sample_enqueue = \<lparr>in_Status = zero_WorkflowStatus\<lparr>W_ID := ''w2'', W_Status := WorkflowStatusEnqueued,
     W_QueueName := ''q'', W_DeduplicationID := ''d'', W_CreatedAt := Some 1500000\<rparr>, in_Tx = True,
     in_OwnerXID = None\<rparr>"

lemma sample_enqueue_sel [simp]:
  "in_Tx sample_enqueue" "W_ID (in_Status sample_enqueue) = ''w2''"
  "W_QueueName (in_Status sample_enqueue) = ''q''"
  "W_DeduplicationID (in_Status sample_enqueue) = ''d''"
  "W_Status (in_Status sample_enqueue) = WorkflowStatusEnqueued"
  by (simp_all add: sample_enqueue_def zero_WorkflowStatus_def)

lemma sample_enqueued_sel [simp]:
  "ws_workflow_uuid sample_enqueued = ''w1''" "ws_queue_name sample_enqueued = Some ''q''"
  "ws_deduplication_id sample_enqueued = Some ''d''" "ws_status sample_enqueued = WorkflowStatusEnqueued"
  by (simp_all add: sample_enqueued_def)

theorem insert_deduplicates_witness:
  "InsertWorkflowStatus sample_sysdb_ctx 0 sample_enqueue (empty_sysdb\<lparr>workflow_status := [sample_enqueued]\<rparr>) =
     Inl (NewQueueDeduplicatedError ''w2'' ''q'' ''d'')"
  using insert_deduplicates [of sample_enqueue "in_Status sample_enqueue"
      "empty_sysdb\<lparr>workflow_status := [sample_enqueued]\<rparr>" sample_sysdb_ctx 0]
  by simp

text \<open>
  Inserting a workflow id that is already present is refused when the stored name or queue
  differs from the one given, and otherwise returns what is stored and leaves every column of the
  row but \<^verbatim>\<open>updated_at\<close> and \<^verbatim>\<open>executor_id\<close>, and every other row, as it was. The executor changes only
  when the caller means to run the workflow rather than to enqueue it.
\<close>

lemma reinsert_idempotent:
  assumes "in_Tx inp" and "find_wf (W_ID st) db = Some old" and "st = in_Status inp"
  shows "(if (W_Name st \<noteq> [] \<and> ws_name old \<noteq> W_Name st) \<or>
             (W_QueueName st \<noteq> [] \<and> ws_queue_name old \<notin> {None, Some (W_QueueName st)})
          then \<exists>e. InsertWorkflowStatus s now inp db = Inl e \<and> errors_Is ErrorCodeUnexpectedWorkflow e
          else \<exists>res db' t ex. InsertWorkflowStatus s now inp db = Inr (res, db') \<and>
             res_Status res = ws_status old \<and> res_QueueName res = ws_queue_name old \<and>
             find_wf (W_ID st) db' = Some (old\<lparr>ws_updated_at := t, ws_executor_id := ex\<rparr>) \<and>
             (W_Status st \<in> {WorkflowStatusEnqueued, WorkflowStatusDelayed} \<longrightarrow> ex = ws_executor_id old) \<and>
             (\<forall>wid. wid \<noteq> W_ID st \<longrightarrow> find_wf wid db' = find_wf wid db) \<and>
             length (workflow_status db') = length (workflow_status db))"
proof (cases "insert_result st (reinsert_set (insert_row s now inp) old)")
  case (Inl e)
  then have "errors_Is ErrorCodeUnexpectedWorkflow e \<and>
     ((W_Name st \<noteq> [] \<and> ws_name old \<noteq> W_Name st) \<or>
      (W_QueueName st \<noteq> [] \<and> ws_queue_name old \<notin> {None, Some (W_QueueName st)}))"
    by (auto simp: insert_result_def NewUnexpectedWorkflowError_def errors_Is_def Error_Is_def split: if_splits)
  with Inl assms show ?thesis by (simp add: InsertWorkflowStatus_def Let_def)
next
  case (Inr res)
  let ?db' = "update_wf (\<lambda>r. ws_workflow_uuid r = W_ID st) (reinsert_set (insert_row s now inp)) db"
  have ins: "InsertWorkflowStatus s now inp db = Inr (res, ?db')"
    using Inr assms by (simp add: InsertWorkflowStatus_def Let_def)
  have "\<not> ((W_Name st \<noteq> [] \<and> ws_name old \<noteq> W_Name st) \<or>
      (W_QueueName st \<noteq> [] \<and> ws_queue_name old \<notin> {None, Some (W_QueueName st)}))"
    "res_Status res = ws_status old" "res_QueueName res = ws_queue_name old"
    using Inr by (auto simp: insert_result_def split: if_splits)
  moreover have "find_wf wid ?db' = (if wid = W_ID st then
      Some (reinsert_set (insert_row s now inp) old) else find_wf wid db)" for wid
    using InsertWorkflowStatus_find [OF ins, of wid] assms(2,3) by simp
  moreover have "length (workflow_status ?db') = length (workflow_status db)" by simp
  ultimately show ?thesis using ins assms(3)
    by (auto simp: reinsert_set_def simp del: update_wf_sel(1))
qed

lemma reinsert_idempotent_witness:
  "\<exists>res db'. InsertWorkflowStatus sample_sysdb_ctx 0
     (sample_enqueue\<lparr>in_Status := (in_Status sample_enqueue)\<lparr>W_ID := ''w1''\<rparr>\<rparr>)
     (empty_sysdb\<lparr>workflow_status := [sample_enqueued]\<rparr>) = Inr (res, db') \<and>
     res_Status res = WorkflowStatusEnqueued"
  using reinsert_idempotent [of "sample_enqueue\<lparr>in_Status := (in_Status sample_enqueue)\<lparr>W_ID := ''w1''\<rparr>\<rparr>"
      "(in_Status sample_enqueue)\<lparr>W_ID := ''w1''\<rparr>"
      "empty_sysdb\<lparr>workflow_status := [sample_enqueued]\<rparr>" sample_enqueued sample_sysdb_ctx 0]
  by (auto simp: sample_enqueue_def zero_WorkflowStatus_def)

section \<open>Listing\<close>

text \<open>What a stored workflow reads back as: times to the millisecond, the run columns empty.\<close>

definition stored_status :: "SysDB \<Rightarrow> instant \<Rightarrow> WorkflowStatus \<Rightarrow> WorkflowStatus" where
  "stored_status s now st = st\<lparr>W_Output := None, W_Error := None,
     W_CreatedAt := Some (time_of_ms (created_at_ms (W_CreatedAt st))),
     W_UpdatedAt := Some (time_of_ms (UnixMilli (case W_UpdatedAt st of None \<Rightarrow> now | Some t \<Rightarrow> t))),
     W_Attempts := (if W_Status st \<in> {WorkflowStatusEnqueued, WorkflowStatusDelayed} then 0 else 1),
     W_Timeout := (if 500000 \<le> W_Timeout st then ((W_Timeout st + 500000) div 1000000) * 1000000 else 0),
     W_Deadline := map_option (time_of_ms \<circ> UnixMilli) (W_Deadline st), W_StartedAt := None,
     W_ForkedFrom := [], W_WasForkedFrom := False, W_CompletedAt := None,
     W_DelayUntil := map_option (time_of_ms \<circ> UnixMilli) (W_DelayUntil st),
     W_DebounceDeadline := map_option (time_of_ms \<circ> UnixMilli) (W_DebounceDeadline st),
     W_ApplicationName := (if W_ApplicationName st \<noteq> [] then W_ApplicationName st else appName s)\<rparr>"

lemma timeout_round:
  "(case if 0 < t then Some (duration_round_ms t) else None of
      None \<Rightarrow> 0 | Some ms \<Rightarrow> if 0 < ms then ms * 1000000 else 0) =
   (if 500000 \<le> t then ((t + 500000) div 1000000) * 1000000 else (0 :: int))"
proof (cases "0 < t")
  case True
  have "0 < (t + 500000) div 1000000 \<longleftrightarrow> 500000 \<le> t" using True by linarith
  with True show ?thesis by (simp add: duration_round_ms_def)
qed simp

lemma scan_insert_row: "scan_row True True (insert_row s now inp) = stored_status s now (in_Status inp)"
proof -
  have "scan_row True True (insert_row s now inp) =
     (stored_status s now (in_Status inp))\<lparr>W_Timeout := (case ws_workflow_timeout_ms (insert_row s now inp) of
        None \<Rightarrow> 0 | Some ms \<Rightarrow> if 0 < ms then ms * 1000000 else 0)\<rparr>"
    by (simp add: scan_row_def insert_row_def stored_status_def Let_def owner_def nullif_empty_def
        option.map_comp del: o_apply)
  then show ?thesis
    by (simp add: insert_row_def Let_def timeout_round) (simp add: stored_status_def)
qed

lemma ListWorkflows_plain:
  assumes "l_Attributes inp = []" and "l_Limit inp = None" and "l_Offset inp = None" and "\<not> l_SortDesc inp"
  shows "ListWorkflows s inp db =
    Inr (map (scan_row (l_LoadInput inp) (l_LoadOutput inp))
      (order_by ws_created_at (filter (list_where s inp) (workflow_status db))))"
  using assms by (simp add: ListWorkflows_def list_page_def)

lemmas where_defs = addWhereAny_def addWhereLikeAny_def addWhereGreaterEqual_def
  addWhereLessEqual_def addWhereBool_def addWhereClaimedBy_def

lemma list_where_ids:
  "list_where s (zero_ListWorkflowsDBInput\<lparr>l_WorkflowIDs := [wid], l_LoadInput := li, l_LoadOutput := lo\<rparr>) =
     (\<lambda>r. ws_workflow_uuid r = wid)"
  by (rule ext) (simp add: list_where_def zero_ListWorkflowsDBInput_def where_defs)

lemma ListWorkflows_by_id:
  assumes "distinct (wf_ids (workflow_status db))"
  shows "ListWorkflows s (zero_ListWorkflowsDBInput\<lparr>l_WorkflowIDs := [wid], l_LoadInput := li, l_LoadOutput := lo\<rparr>) db =
    Inr (case find_wf wid db of None \<Rightarrow> [] | Some r \<Rightarrow> [scan_row li lo r])"
proof -
  let ?inp = "zero_ListWorkflowsDBInput\<lparr>l_WorkflowIDs := [wid], l_LoadInput := li, l_LoadOutput := lo\<rparr>"
  have "ListWorkflows s ?inp db = Inr (map (scan_row li lo)
      (order_by ws_created_at (filter (list_where s ?inp) (workflow_status db))))"
    by (subst ListWorkflows_plain) (simp_all add: zero_ListWorkflowsDBInput_def)
  then show ?thesis
    by (simp add: list_where_ids filter_key_lookup [OF assms] order_by_def split: option.splits)
qed

lemma ListWorkflows_one:
  assumes "distinct (wf_ids (workflow_status db))"
  shows "ListWorkflows s (zero_ListWorkflowsDBInput\<lparr>l_WorkflowIDs := [wid]\<rparr>) db =
    Inr (case find_wf wid db of None \<Rightarrow> [] | Some r \<Rightarrow> [scan_row False False r])"
  using ListWorkflows_by_id [OF assms, where s = s and wid = wid and li = False and lo = False] by (simp add: zero_ListWorkflowsDBInput_def)

text \<open>
  A workflow that was inserted under a fresh id reads back, when its row is listed by id with
  its input, as the status that was given, up to the precision of the columns: times are
  truncated to milliseconds, the creation time and the timeout are rounded to them, the owner is
  the application of the handle unless one was named.
\<close>

theorem insert_list_roundtrip:
  assumes "InsertWorkflowStatus s now inp db = Inr (res, db')"
    and "find_wf (W_ID (in_Status inp)) db = None" and "distinct (wf_ids (workflow_status db))"
  shows "ListWorkflows s (zero_ListWorkflowsDBInput\<lparr>l_WorkflowIDs := [W_ID (in_Status inp)],
           l_LoadInput := True, l_LoadOutput := True\<rparr>) db' = Inr [stored_status s now (in_Status inp)]"
proof -
  have "distinct (wf_ids (workflow_status db'))"
    using assms by (auto elim!: InsertWorkflowStatus_cases simp: lookup_by_eq_None reinsert.ids)
  then show ?thesis using InsertWorkflowStatus_find [OF assms(1), of "W_ID (in_Status inp)"] assms(2)
    by (simp add: ListWorkflows_by_id scan_insert_row)
qed

theorem insert_list_roundtrip_witness:
  "\<exists>res db'. InsertWorkflowStatus sample_sysdb_ctx 0 sample_enqueue empty_sysdb = Inr (res, db') \<and>
     ListWorkflows sample_sysdb_ctx (zero_ListWorkflowsDBInput\<lparr>l_WorkflowIDs := [''w2''],
       l_LoadInput := True, l_LoadOutput := True\<rparr>) db' =
     Inr [stored_status sample_sysdb_ctx 0 (in_Status sample_enqueue)]"
proof -
  obtain res db' where "InsertWorkflowStatus sample_sysdb_ctx 0 sample_enqueue empty_sysdb = Inr (res, db')"
    by (simp add: InsertWorkflowStatus_def Let_def empty_sysdb_def dedup_conflict_def insert_result_def)
  with insert_list_roundtrip [OF this] show ?thesis by (simp add: empty_sysdb_def)
qed

section \<open>Descendants: totality and correctness\<close>

text \<open>
  The child relation as the search sees it: rows another application owns are not listed.
\<close>

definition parent_rel :: "SysDB \<Rightarrow> sysdb \<Rightarrow> (string \<times> string) set" where
  "parent_rel s db = set (concat (map (\<lambda>r.
     case ws_parent_workflow_id r of
       None \<Rightarrow> []
     | Some p \<Rightarrow> if nameFilter s (ws_application_name r) then [(ws_workflow_uuid r, p)] else [])
     (workflow_status db)))"

lemma parent_rel_iff:
  "(x, p) \<in> parent_rel s db \<longleftrightarrow> (\<exists>r \<in> set (workflow_status db). ws_workflow_uuid r = x \<and>
     ws_parent_workflow_id r = Some p \<and> nameFilter s (ws_application_name r))"
  by (force simp: parent_rel_def split: option.splits if_splits)

definition child_rows :: "SysDB \<Rightarrow> sysdb \<Rightarrow> string \<Rightarrow> wf_row list" where
  "child_rows s db pid = order_by ws_created_at (filter (\<lambda>r. ws_parent_workflow_id r = Some pid \<and>
     nameFilter s (ws_application_name r)) (workflow_status db))"

lemma list_where_parent:
  "list_where s (zero_ListWorkflowsDBInput\<lparr>l_ParentWorkflowID := [pid]\<rparr>) =
     (\<lambda>r. ws_parent_workflow_id r = Some pid \<and> nameFilter s (ws_application_name r))"
  by (rule ext) (auto simp: list_where_def zero_ListWorkflowsDBInput_def where_defs
      observabilityNames_def nameFilter_def sql_in_def split: option.splits)

lemma list_children_eq: "list_children s db pid = Inr (map (scan_row False False) (child_rows s db pid))"
proof -
  have "ListWorkflows s (zero_ListWorkflowsDBInput\<lparr>l_ParentWorkflowID := [pid]\<rparr>) db =
      Inr (map (scan_row False False) (child_rows s db pid))"
    by (subst ListWorkflows_plain) (simp_all add: list_where_parent child_rows_def, simp_all add: zero_ListWorkflowsDBInput_def)
  then show ?thesis by (simp add: list_children_def)
qed

lemma W_ID_scan_row [simp]: "W_ID (scan_row li lo r) = ws_workflow_uuid r"
  by (simp add: scan_row_def)

lemma map_W_ID_scan_row [simp]: "map (W_ID \<circ> scan_row li lo) rows = wf_ids rows"
  by simp

lemma child_rows_ids: "x \<in> ws_workflow_uuid ` set (child_rows s db p) \<longleftrightarrow> (x, p) \<in> parent_rel s db"
  by (auto simp: child_rows_def parent_rel_iff)

lemma child_rows_distinct:
  "distinct (wf_ids (workflow_status db)) \<Longrightarrow> distinct (wf_ids (child_rows s db p))"
  by (simp add: child_rows_def distinct_map_filter)

lemma finite_parent_rel: "finite (parent_rel s db)"
  unfolding parent_rel_def by (rule List.finite_set)

lemma parent_unique:
  "distinct (wf_ids (workflow_status db)) \<Longrightarrow> (x, p) \<in> parent_rel s db \<Longrightarrow> (x, p') \<in> parent_rel s db \<Longrightarrow> p = p'"
  by (auto simp: parent_rel_iff distinct_map dest!: inj_onD)

text \<open>
  What holds at the loop head: the collected ids are distinct descendants of the root, the queue
  is a duplicate-free part of them, and the parent of a collected id has left the queue.
\<close>

definition bfs_inv :: "(string \<times> string) set \<Rightarrow> string \<Rightarrow> string list \<Rightarrow> string list \<Rightarrow> bool" where
  "bfs_inv R top_id Q acc \<longleftrightarrow> distinct acc \<and> distinct Q \<and> set Q \<subseteq> set acc \<and>
     (\<forall>y \<in> set acc. (y, top_id) \<in> R\<^sup>+) \<and>
     (\<forall>y \<in> set acc. \<exists>x. (y, x) \<in> R \<and> (x = top_id \<or> (x \<in> set acc \<and> x \<notin> set Q)))"

lemma bfs_inv_step:
  assumes inv: "bfs_inv R top_id (p # Q) acc" and "acyclic R" and kids: "set kids = {k. (k, p) \<in> R}"
    and "distinct kids" and uniq: "\<And>x y z. (x, y) \<in> R \<Longrightarrow> (x, z) \<in> R \<Longrightarrow> y = z"
  shows "bfs_inv R top_id (Q @ kids) (acc @ kids)"
proof -
  have p: "p \<in> set acc" "p \<notin> set Q" "(p, top_id) \<in> R\<^sup>+" using inv by (auto simp: bfs_inv_def)
  have new: "k \<notin> set acc" if "k \<in> set kids" for k
  proof
    assume "k \<in> set acc"
    then obtain x where "(k, x) \<in> R" and "x = top_id \<or> (x \<in> set acc \<and> x \<notin> set (p # Q))"
      using inv by (auto simp: bfs_inv_def)
    moreover have "x = p" using uniq [OF \<open>(k, x) \<in> R\<close>] that kids by auto
    ultimately show False using p \<open>acyclic R\<close> by (auto simp: acyclic_def)
  qed
  have desc: "(k, top_id) \<in> R\<^sup>+" if "k \<in> set kids" for k
    using that kids p(3) by (auto intro: trancl_trans [OF r_into_trancl])
  have old: "\<exists>x. (y, x) \<in> R \<and> (x = top_id \<or> (x \<in> set (acc @ kids) \<and> x \<notin> set (Q @ kids)))"
    if "y \<in> set acc" for y
    using inv that new unfolding bfs_inv_def by fastforce
  have fresh: "\<exists>x. (y, x) \<in> R \<and> (x = top_id \<or> (x \<in> set (acc @ kids) \<and> x \<notin> set (Q @ kids)))"
    if "y \<in> set kids" for y
    using that kids p new by auto
  show ?thesis
    using inv \<open>distinct kids\<close> new desc old fresh by (auto simp: bfs_inv_def)
qed

lemma trancl_children: "(d, p) \<in> R\<^sup>+ \<longleftrightarrow> (d, p) \<in> R \<or> (\<exists>k. (k, p) \<in> R \<and> (d, k) \<in> R\<^sup>+)"
  by (meson r_into_trancl trancl_trans tranclE)

lemma children_loop_correct:
  assumes "distinct (wf_ids (workflow_status db))" and acyc: "acyclic (parent_rel s db)"
    and "bfs_inv (parent_rel s db) top_id Q (map W_ID acc)"
  shows "\<exists>ws. children_loop s db Q acc = Some (Inr ws) \<and> distinct (map W_ID ws) \<and>
    W_ID ` set ws = W_ID ` set acc \<union> {d. \<exists>q \<in> set Q. (d, q) \<in> (parent_rel s db)\<^sup>+}"
proof -
  let ?R = "parent_rel s db"
  have "wf ?R" using finite_parent_rel acyc by (rule finite_acyclic_wf)
  from wf_mult [OF this] show ?thesis using assms(3)
  proof (induction "mset Q" arbitrary: Q acc rule: wf_induct_rule)
    case less
    show ?case
    proof (cases Q)
      case Nil
      with less.prems show ?thesis by (subst children_loop.simps) (simp add: bfs_inv_def)
    next
      case (Cons p Q')
      let ?kids = "wf_ids (child_rows s db p)"
      have kids: "set ?kids = {k. (k, p) \<in> ?R}" using child_rows_ids [of _ s db p] unfolding list.set_map by blast
      have "\<forall>k \<in> set (child_rows s db p). (ws_workflow_uuid k, p) \<in> ?R"
        using child_rows_ids [of _ s db p] by blast
      then have "(mset (Q' @ ?kids), mset Q) \<in> mult ?R"
        using one_step_implies_mult [of "{#p#}" "mset ?kids" ?R "mset Q'"] Cons
        by (simp add: add.commute)
      moreover have "bfs_inv ?R top_id (Q' @ ?kids) (map W_ID (acc @ map (scan_row False False) (child_rows s db p)))"
        using bfs_inv_step [OF _ acyc kids child_rows_distinct [OF assms(1)] parent_unique [OF assms(1)]]
          less.prems Cons by (simp add: o_def)
      ultimately obtain ws where ws: "children_loop s db (Q' @ ?kids) (acc @ map (scan_row False False) (child_rows s db p)) = Some (Inr ws)"
        "distinct (map W_ID ws)"
        "W_ID ` set ws = W_ID ` set acc \<union> set ?kids \<union> {d. \<exists>q \<in> set (Q' @ ?kids). (d, q) \<in> ?R\<^sup>+}"
        using less.hyps by (fastforce simp: image_Un image_image)
      have "children_loop s db Q acc = Some (Inr ws)"
        using ws(1) Cons by (subst children_loop.simps) (simp add: list_children_eq o_def)
      moreover have "{d. \<exists>q \<in> set Q. (d, q) \<in> ?R\<^sup>+} = set ?kids \<union> {d. \<exists>q \<in> set (Q' @ ?kids). (d, q) \<in> ?R\<^sup>+}"
        unfolding Cons set_append kids using trancl_children [of _ p ?R] by auto
      ultimately show ?thesis using ws(2,3) by auto
    qed
  qed
qed

lemma GetWorkflowChildren_total:
  assumes "distinct (wf_ids (workflow_status db))" and "acyclic (parent_rel s db)"
  shows "\<exists>ws. GetWorkflowChildren s db wid = Some (Inr ws) \<and> distinct (map W_ID ws) \<and>
    (\<forall>d. d \<in> W_ID ` set ws \<longleftrightarrow> (d, wid) \<in> (parent_rel s db)\<^sup>+)"
proof -
  let ?R = "parent_rel s db" and ?kids = "child_rows s db wid"
  let ?ws = "map (scan_row False False) ?kids"
  have kids: "set (wf_ids ?kids) = {k. (k, wid) \<in> ?R}"
    using child_rows_ids [of _ s db wid] unfolding list.set_map by blast
  then have "bfs_inv ?R wid (map W_ID ?ws) (map W_ID ?ws)"
    using child_rows_distinct [OF assms(1), of s wid] by (auto simp: bfs_inv_def o_def simp del: set_map)
  from children_loop_correct [OF assms this] obtain ws where
    ws: "children_loop s db (map W_ID ?ws) ?ws = Some (Inr ws)" "distinct (map W_ID ws)"
      "W_ID ` set ws = W_ID ` set ?ws \<union> {d. \<exists>q \<in> set (map W_ID ?ws). (d, q) \<in> ?R\<^sup>+}" by blast
  have "W_ID ` set ws = {k. (k, wid) \<in> ?R} \<union> {d. \<exists>q. (q, wid) \<in> ?R \<and> (d, q) \<in> ?R\<^sup>+}"
    unfolding ws(3) using kids by (simp add: image_image o_def)
  then have "\<forall>d. d \<in> W_ID ` set ws \<longleftrightarrow> (d, wid) \<in> ?R\<^sup>+"
    using trancl_children [of _ wid ?R] by blast
  then show ?thesis using ws(1,2) by (auto simp: GetWorkflowChildren_def list_children_eq o_def)
qed

text \<open>
  When no workflow is its own ancestor, the breadth-first search ends and returns each
  descendant this application may see exactly once, and nothing else. (The search keeps no
  visited set, so on a cyclic parent relation it would not end.)
\<close>

theorem GetWorkflowChildren_correct:
  assumes "distinct (wf_ids (workflow_status db))" and "acyclic (parent_rel s db)"
  shows "\<exists>ws. GetWorkflowChildren s db wid = Some (Inr ws) \<and> distinct (map W_ID ws) \<and>
    (\<forall>d. d \<in> W_ID ` set ws \<longleftrightarrow> (d, wid) \<in> (parent_rel s db)\<^sup>+)"
  using assms by (rule GetWorkflowChildren_total)

definition sample_family :: sysdb where
  "sample_family = empty_sysdb\<lparr>workflow_status :=
     [default_wf_row ''a'' WorkflowStatusPending 1,
      (default_wf_row ''b'' WorkflowStatusPending 2)\<lparr>ws_parent_workflow_id := Some ''a''\<rparr>,
      (default_wf_row ''c'' WorkflowStatusPending 3)\<lparr>ws_parent_workflow_id := Some ''b''\<rparr>]\<rparr>"

lemma sample_family_rel: "parent_rel sample_sysdb_ctx sample_family = {(''b'', ''a''), (''c'', ''b'')}"
  by (simp add: parent_rel_def sample_family_def nameFilter_def default_wf_row_def insert_commute)

lemma sample_family_acyclic: "acyclic (parent_rel sample_sysdb_ctx sample_family)"
  unfolding sample_family_rel
  by (intro wf_acyclic wf_measure [of "\<lambda>x. nat (127 - of_char (hd x))", THEN wf_subset])
    (auto simp: measure_def inv_image_def)

theorem GetWorkflowChildren_correct_witness:
  "\<exists>ws. GetWorkflowChildren sample_sysdb_ctx sample_family ''a'' = Some (Inr ws) \<and> ''c'' \<in> W_ID ` set ws"
proof -
  note sample_family_acyclic
  moreover have "distinct (wf_ids (workflow_status sample_family))" by (simp add: sample_family_def)
  moreover have "(''c'', ''a'') \<in> (parent_rel sample_sysdb_ctx sample_family)\<^sup>+"
    unfolding sample_family_rel by (auto intro: trancl_trans)
  ultimately show ?thesis using GetWorkflowChildren_correct [of sample_family sample_sysdb_ctx "''a''"] by blast
qed

section \<open>Cancellation and resumption\<close>

lemma select_ids_update:
  assumes "\<And>r. ws_workflow_uuid (u r) = ws_workflow_uuid r"
  shows "select_ids ids (update_wf g u db) = select_ids ids db"
proof -
  have "wf_ids (filter (\<lambda>r. ws_workflow_uuid r \<in> set ids) (update_where g u rows)) =
      wf_ids (filter (\<lambda>r. ws_workflow_uuid r \<in> set ids) rows)" for rows
    by (induction rows) (auto simp: assms)
  then show ?thesis by (simp add: select_ids_def)
qed

lemma CancelWorkflows_eq:
  "CancelWorkflows s now ch ids db =
     (if ids = [] then Some (Inr ([], db))
      else map_option (map_sum id (\<lambda>workflowIDs. (select_ids workflowIDs db,
             update_wf (cancel_where workflowIDs) (cancel_set now) db))) (with_children s db ch ids))"
  by (auto simp: CancelWorkflows_def Let_def select_ids_update cancel.keeps_uuid map_sum_def
      split: option.splits sum.splits)

lemma ResumeWorkflows_eq:
  "ResumeWorkflows s now q ids db =
     (if ids = [] then ([], db)
      else (select_ids ids db, update_wf (resume_where ids) (resume_set now q) db))"
  by (simp add: ResumeWorkflows_def Let_def select_ids_update resume.keeps_uuid)

lemma children_loop_transfer:
  "children_loop s1 db Q acc = Some y \<Longrightarrow>
     \<forall>s2. (\<forall>p. list_children s1 db p = list_children s2 db p) \<longrightarrow> children_loop s2 db Q acc = Some y"
proof (induction rule: children_loop.raw_induct [rotated, consumes 1, case_names step])
  case (step cl s1 db Q acc y)
  show ?case
  proof (intro allI impI)
    fix s2 assume eq: "\<forall>p. list_children s1 db p = list_children s2 db p"
    have ih: "children_loop s2 db Q' acc' = Some y" if "cl s1 db Q' acc' = Some y" for Q' acc'
      using step(1) [OF that] eq by blast
    show "children_loop s2 db Q acc = Some y"
      using step(2) ih eq
      by (subst children_loop.simps) (auto split: list.splits sum.splits)
  qed
qed

lemma children_loop_cong:
  assumes "\<And>p. list_children s db p = list_children s' db p"
  shows "children_loop s db Q acc = children_loop s' db Q acc"
proof (cases "children_loop s db Q acc")
  case None
  then show ?thesis using children_loop_transfer [of s' db Q acc] assms
    by (cases "children_loop s' db Q acc") auto
next
  case (Some y)
  then show ?thesis using children_loop_transfer [OF Some] assms by simp
qed

text \<open>
  The single-statement form of cancel and resume (Postgres) and the update-then-select form
  (sqlite) have the same result and leave the same tables.
\<close>

theorem cancel_resume_dialects_agree:
  "CancelWorkflows (s\<lparr>SupportsDataModifyingCTE := b\<rparr>) now ch ids db = CancelWorkflows s now ch ids db \<and>
   ResumeWorkflows (s\<lparr>SupportsDataModifyingCTE := b\<rparr>) now q ids db = ResumeWorkflows s now q ids db"
proof -
  have lc: "list_children (s\<lparr>SupportsDataModifyingCTE := b\<rparr>) db p = list_children s db p" for p
    by (simp add: list_children_eq child_rows_def nameFilter_def)
  have "GetWorkflowChildren (s\<lparr>SupportsDataModifyingCTE := b\<rparr>) db w = GetWorkflowChildren s db w" for w
    by (simp add: GetWorkflowChildren_def lc children_loop_cong [OF lc] split: sum.splits)
  then have "collect_children (s\<lparr>SupportsDataModifyingCTE := b\<rparr>) db ws = collect_children s db ws" for ws
    by (induction ws) (simp_all split: option.splits sum.splits)
  then show ?thesis by (simp add: CancelWorkflows_eq ResumeWorkflows_eq with_children_def)
qed

lemma collect_children_correct:
  assumes "distinct (wf_ids (workflow_status db))" and "acyclic (parent_rel s db)"
  shows "\<exists>cs. collect_children s db ws = Some (Inr cs) \<and>
    set cs = {d. \<exists>w \<in> set ws. (d, w) \<in> (parent_rel s db)\<^sup>+}"
proof (induction ws)
  case (Cons w ws)
  with GetWorkflowChildren_total [OF assms, of w] show ?case by force
qed simp

lemma with_children_correct:
  assumes "distinct (wf_ids (workflow_status db))" and "acyclic (parent_rel s db)"
  shows "\<exists>cs. with_children s db True ids = Some (Inr cs) \<and>
    set cs = {d. \<exists>w \<in> set ids. (d, w) \<in> (parent_rel s db)\<^sup>*}"
proof -
  obtain cs where cs: "collect_children s db ids = Some (Inr cs)"
    "set cs = {d. \<exists>w \<in> set ids. (d, w) \<in> (parent_rel s db)\<^sup>+}"
    using collect_children_correct [OF assms, of ids] by blast
  have "set (ids @ cs) = {d. \<exists>w \<in> set ids. (d, w) \<in> (parent_rel s db)\<^sup>*}"
    using cs(2) by (auto simp: rtrancl_eq_or_trancl)
  with cs(1) show ?thesis by (simp add: with_children_def)
qed

lemma CancelWorkflows_find:
  assumes "with_children s db ch ids = Some (Inr workflowIDs)" and "ids \<noteq> []"
  shows "CancelWorkflows s now ch ids db = Some (Inr (select_ids workflowIDs db,
      update_wf (cancel_where workflowIDs) (cancel_set now) db))"
    and "find_wf wid (update_wf (cancel_where workflowIDs) (cancel_set now) db) =
      map_option (\<lambda>r. if cancel_where workflowIDs r then cancel_set now r else r) (find_wf wid db)"
  using assms by (simp_all add: CancelWorkflows_eq cancel.find)



lemma CancelAllBefore_eq:
  "\<exists>ids. CancelAllBefore s now cutoff db =
      Some (Inr ((), update_wf (cancel_where ids) (cancel_set now) db)) \<and>
    set ids = {ws_workflow_uuid r | r. r \<in> set (workflow_status db) \<and> \<not> isTerminalStatus (ws_status r) \<and>
      nameFilter s (ws_application_name r) \<and>
      (case cutoff of None \<Rightarrow> True | Some t \<Rightarrow> ws_created_at r \<le> UnixMilli t)}"
proof -
  let ?inp = "zero_ListWorkflowsDBInput\<lparr>l_EndTime := cutoff,
     l_Status := [WorkflowStatusPending, WorkflowStatusEnqueued, WorkflowStatusDelayed]\<rparr>"
  let ?rows = "order_by ws_created_at (filter (list_where s ?inp) (workflow_status db))"
  have wh: "list_where s ?inp r \<longleftrightarrow> \<not> isTerminalStatus (ws_status r) \<and>
      nameFilter s (ws_application_name r) \<and>
      (case cutoff of None \<Rightarrow> True | Some t \<Rightarrow> ws_created_at r \<le> UnixMilli t)" for r
    by (auto simp: list_where_def zero_ListWorkflowsDBInput_def where_defs observabilityNames_def
        nameFilter_def sql_in_def isTerminalStatus_iff split: option.splits)
  have list: "ListWorkflows s ?inp db = Inr (map (scan_row False False) ?rows)"
    by (subst ListWorkflows_plain) (simp_all add: zero_ListWorkflowsDBInput_def)
  have none: "update_wf (cancel_where []) (cancel_set now) db = db"
    by (simp add: update_wf_def cancel_where_def update_where_none)
  have "CancelAllBefore s now cutoff db =
      Some (Inr ((), update_wf (cancel_where (wf_ids ?rows)) (cancel_set now) db))"
    using none by (simp add: CancelAllBefore_def list CancelWorkflows_eq with_children_def o_def)
  then show ?thesis by (intro exI [of _ "wf_ids ?rows"]) (auto simp: wh)
qed

section \<open>Outcomes and wake-ups\<close>

lemma waiting_for_iff:
  "w \<in> set (waiting_for wid db) \<longleftrightarrow>
     \<lparr>wt_waiter_workflow_uuid = w, wt_awaited_workflow_uuid = wid\<rparr> \<in> set (workflow_waiters db)"
proof
  assume "w \<in> set (waiting_for wid db)"
  then obtain x where "x \<in> set (workflow_waiters db)" "wt_waiter_workflow_uuid x = w" "wt_awaited_workflow_uuid x = wid"
    by (auto simp: waiting_for_def)
  then show "\<lparr>wt_waiter_workflow_uuid = w, wt_awaited_workflow_uuid = wid\<rparr> \<in> set (workflow_waiters db)"
    by (cases x rule: waiter_row.cases) simp
qed (force simp: waiting_for_def)

lemma WakeWorkflowWaiters_eq:
  "WakeWorkflowWaiters now runner wid db =
     (update_wf (wake_where (waiting_for wid db)) (wake_set now) db)\<lparr>workflow_waiters :=
        delete_where (\<lambda>w. wt_awaited_workflow_uuid w = wid) (workflow_waiters db)\<rparr>"
proof (cases "exists_where (\<lambda>w. wt_awaited_workflow_uuid w = wid) (workflow_waiters db)")
  case False
  then have "waiting_for wid db = []"
    "delete_where (\<lambda>w. wt_awaited_workflow_uuid w = wid) (workflow_waiters db) = workflow_waiters db"
    by (auto simp: waiting_for_def delete_where_def filter_empty_conv filter_id_conv)
  then show ?thesis
    by (simp add: WakeWorkflowWaiters_def Let_def update_wf_def wake_where_def update_where_none)
qed (simp add: WakeWorkflowWaiters_def Let_def)

lemma WakeWorkflowWaiters_inv: "db_inv db \<Longrightarrow> db_inv (WakeWorkflowWaiters now runner wid db)"
  using db_inv_waiters [of db]
  by (simp add: WakeWorkflowWaiters_eq wake.preserves_inv delete_where_def)

lemma waiting_for_update_wf [simp]: "waiting_for wid (update_wf g u db) = waiting_for wid db"
  by (simp add: waiting_for_def)

lemma UpdateWorkflowOutcome_find:
  assumes "isTerminalStatus st"
  shows "find_wf w (snd (UpdateWorkflowOutcome now tx wid st out err db)) =
    map_option (\<lambda>r. if suspend_where wid r then outcome_set now st out err r
                    else if wake_where (waiting_for wid db) r then wake_set now r else r) (find_wf w db)"
  using assms
  by (cases "find_wf w db")
    (auto simp: UpdateWorkflowOutcome_def Let_def WakeWorkflowWaiters_eq wake.find outcome.find
      wake_where_def suspend_where_def outcome_set_def)

lemma UpdateWorkflowOutcome_inv:
  assumes "db_inv db" and "isTerminalStatus st"
  shows "db_inv (snd (UpdateWorkflowOutcome now tx wid st out err db))"
proof -
  have "db_inv (update_wf (suspend_where wid) (outcome_set now st out err) db)"
    using outcome_status_update [OF assms(2)] assms(1)
    by (simp add: status_update_def inv_update.preserves_inv)
  then show ?thesis by (simp add: UpdateWorkflowOutcome_def Let_def WakeWorkflowWaiters_inv)
qed

lemma rows_affected_pos: "0 < rows_affected p db \<longleftrightarrow> (\<exists>r \<in> set (workflow_status db). p r)"
  by (auto simp: rows_affected_def count_where_def filter_empty_conv)

text \<open>
  C23: recording an outcome never loses a wake-up: it lands exactly on a \<^verbatim>\<open>PENDING\<close> workflow, and
  whether it lands or not every workflow suspended on this one becomes due at once, no waiter
  stays registered, and no other workflow changes.
\<close>

theorem outcome_wakes_waiters:
  assumes "isTerminalStatus st" and "UpdateWorkflowOutcome now tx wid st out err db = (landed, db')"
  shows "(landed \<longleftrightarrow> (\<exists>r \<in> set (workflow_status db). ws_workflow_uuid r = wid \<and> ws_status r = WorkflowStatusPending)) \<and>
    (\<forall>w \<in> set (workflow_waiters db'). wt_awaited_workflow_uuid w \<noteq> wid) \<and>
    (\<forall>w r. find_wf w db = Some r \<longrightarrow>
       find_wf w db' = Some
        (if w = wid \<and> ws_status r = WorkflowStatusPending then
           r\<lparr>ws_status := st, ws_output := out, ws_error := Some err, ws_updated_at := UnixMilli now,
              ws_completed_at := Some (UnixMilli now), ws_deduplication_id := None\<rparr>
         else if ws_status r = WorkflowStatusDelayed \<and>
           \<lparr>wt_waiter_workflow_uuid = w, wt_awaited_workflow_uuid = wid\<rparr> \<in> set (workflow_waiters db) then
           r\<lparr>ws_delay_until_epoch_ms := Some (UnixMilli now), ws_updated_at := UnixMilli now\<rparr>
         else r))"
proof (intro conjI allI impI)
  have db': "db' = snd (UpdateWorkflowOutcome now tx wid st out err db)" using assms(2) by simp
  show "landed \<longleftrightarrow> (\<exists>r \<in> set (workflow_status db). ws_workflow_uuid r = wid \<and> ws_status r = WorkflowStatusPending)"
    using assms(2) by (auto simp: UpdateWorkflowOutcome_def Let_def rows_affected_pos suspend_where_def)
  show "\<forall>w \<in> set (workflow_waiters db'). wt_awaited_workflow_uuid w \<noteq> wid"
    by (simp add: db' UpdateWorkflowOutcome_def Let_def WakeWorkflowWaiters_eq)
  fix w r assume r: "find_wf w db = Some r"
  have "w \<in> set (waiting_for wid db) \<longleftrightarrow>
      \<lparr>wt_waiter_workflow_uuid = w, wt_awaited_workflow_uuid = wid\<rparr> \<in> set (workflow_waiters db)"
    by (rule waiting_for_iff)
  then show "find_wf w db' = Some
        (if w = wid \<and> ws_status r = WorkflowStatusPending then
           r\<lparr>ws_status := st, ws_output := out, ws_error := Some err, ws_updated_at := UnixMilli now,
              ws_completed_at := Some (UnixMilli now), ws_deduplication_id := None\<rparr>
         else if ws_status r = WorkflowStatusDelayed \<and>
           \<lparr>wt_waiter_workflow_uuid = w, wt_awaited_workflow_uuid = wid\<rparr> \<in> set (workflow_waiters db) then
           r\<lparr>ws_delay_until_epoch_ms := Some (UnixMilli now), ws_updated_at := UnixMilli now\<rparr>
         else r)"
    using r lookup_by_SomeD [OF r]
    by (simp add: db' UpdateWorkflowOutcome_find [OF assms(1)] row_defs)
qed

definition sample_suspended :: sysdb where
  "sample_suspended = empty_sysdb\<lparr>workflow_status :=
     [(default_wf_row ''a'' WorkflowStatusDelayed 1)\<lparr>ws_queue_name := Some ''q'', ws_delay_until_epoch_ms := Some 9999\<rparr>,
      default_wf_row ''b'' WorkflowStatusPending 2],
     workflow_waiters := [\<lparr>wt_waiter_workflow_uuid = ''a'', wt_awaited_workflow_uuid = ''b''\<rparr>]\<rparr>"

theorem outcome_wakes_waiters_witness:
  "\<exists>db' r. UpdateWorkflowOutcome 7000000 True ''b'' WorkflowStatusSuccess None [] sample_suspended = (True, db') \<and>
     find_wf ''a'' db' = Some r \<and> ws_delay_until_epoch_ms r = Some 7"
proof -
  let ?res = "UpdateWorkflowOutcome 7000000 True ''b'' WorkflowStatusSuccess None [] sample_suspended"
  have "?res = (fst ?res, snd ?res)" by simp
  from outcome_wakes_waiters [OF _ this] have
    "fst ?res" "\<exists>r. find_wf ''a'' (snd ?res) = Some r \<and> ws_delay_until_epoch_ms r = Some 7"
    by (simp_all add: sample_suspended_def UnixMilli_def)
  then show ?thesis by (intro exI [of _ "snd ?res"]) (auto simp: prod_eq_iff)
qed

lemma suspendWorkflowToDelayed_ok:
  assumes "db_inv db"
  shows "suspendWorkflowToDelayed now wid until db =
    Inr (0 < rows_affected (suspend_where wid) db, update_wf (suspend_where wid) (suspend_set now until) db)"
  using suspend.preserves_inv [OF assms, of wid now until]
  by (simp add: suspendWorkflowToDelayed_def Let_def db_inv_def)

lemma SuspendWorkflowForResult_inv:
  assumes "db_inv db" and "SuspendWorkflowForResult now waiter awaited until db = Inr (b, db')"
  shows "db_inv db'"
  using assms suspend.preserves_inv [OF assms(1), of waiter now until] db_inv_waiters [OF assms(1)]
  by (auto simp: SuspendWorkflowForResult_def suspendWorkflowToDelayed_ok Let_def split: if_splits)

lemma SuspendWorkflowForResult_find:
  assumes "db_inv db" and "SuspendWorkflowForResult now waiter awaited until db = Inr (b, db')"
  shows "find_wf w db' = map_option (\<lambda>r. if suspend_where waiter r then suspend_set now until r else r) (find_wf w db)"
proof (cases b)
  case True
  then show ?thesis using assms
    by (auto simp: SuspendWorkflowForResult_def suspendWorkflowToDelayed_ok Let_def suspend.find split: if_splits)
next
  case False
  then have "db' = db" "\<forall>r \<in> set (workflow_status db). \<not> suspend_where waiter r"
    using assms by (auto simp: SuspendWorkflowForResult_def suspendWorkflowToDelayed_ok Let_def
        rows_affected_pos split: if_splits)
  then show ?thesis by (cases "find_wf w db") (auto dest!: lookup_by_SomeD)
qed

section \<open>Awaiting\<close>

lemma await_turn_pending:
  "await_turn wid failIfMissing (Snapshot db) = None \<longleftrightarrow>
     (case find_wf wid db of None \<Rightarrow> \<not> failIfMissing | Some r \<Rightarrow> \<not> isTerminalStatus (ws_status r))"
  by (auto simp: await_turn_def split: option.splits WorkflowStatusType.splits)

text \<open>
  The result poll keeps waiting exactly while the workflow is missing (unless a missing row
  is an error) or not terminal, and at the first terminal row it returns that row's output: with
  the recorded error text for \<^verbatim>\<open>SUCCESS\<close> and \<^verbatim>\<open>ERROR\<close>, with a cancellation error for \<^verbatim>\<open>CANCELLED\<close>,
  and with a dead-letter error carrying the attempts minus two for a dead-lettered workflow.
\<close>

theorem await_returns_first_terminal:
  assumes "\<forall>d \<in> set before. case find_wf wid d of None \<Rightarrow> \<not> failIfMissing
                               | Some r \<Rightarrow> \<not> isTerminalStatus (ws_status r)"
    and "find_wf wid db = Some r" and "isTerminalStatus (ws_status r)"
  shows "AwaitWorkflowResult wid failIfMissing (map Snapshot before @ Snapshot db # after) =
    Some (Some \<lparr>aw_Output = ws_output r, aw_Serialization = derefStr (ws_serialization r),
                aw_ErrStr = (if has_outcome (ws_status r) then nullif_empty (ws_error r) else None)\<rparr>,
          if has_outcome (ws_status r) then None
          else if ws_status r = WorkflowStatusCancelled then Some (NewAwaitedWorkflowCancelledError wid)
          else Some (NewDeadLetterQueueError wid (ws_recovery_attempts r - 2)))"
  using assms(1)
proof (induction before)
  case Nil
  then show ?case using assms(2,3)
    by (cases "ws_status r") (simp_all add: await_turn_def await_output_def)
next
  case (Cons d before)
  then show ?case by (simp add: await_turn_pending [symmetric])
qed

theorem await_returns_first_terminal_witness:
  "AwaitWorkflowResult ''b'' True (map Snapshot [sample_suspended] @
      Snapshot (empty_sysdb\<lparr>workflow_status := [default_wf_row ''b'' WorkflowStatusCancelled 3]\<rparr>) # []) =
    Some (Some \<lparr>aw_Output = None, aw_Serialization = [], aw_ErrStr = None\<rparr>,
          Some (NewAwaitedWorkflowCancelledError ''b''))"
  by (subst await_returns_first_terminal [where r = "default_wf_row ''b'' WorkflowStatusCancelled 3"])
    (simp_all add: sample_suspended_def, simp_all add: default_wf_row_def)

end
