(* ===== verification/Steps.thy ===== *)
theory Steps
  imports Workflows
begin

text \<open>
  Step checkpoints (\<^verbatim>\<open>operation_outputs\<close>) of \<^verbatim>\<open>src/dbos/internal/sysdb/system_database.go\<close>: recording and
  checking a step result, recording and checking a child workflow, listing the steps of a workflow,
  patch markers and the holder of a deduplication slot.
\<close>

section \<open>Operations\<close>

definition gotime_ms :: "gotime \<Rightarrow> int" where
  "gotime_ms t = (case t of None \<Rightarrow> - 62135596800000 | Some x \<Rightarrow> UnixMilli x)"

record RecordOperationResultDBInput =
  ro_WorkflowID :: string
  ro_ChildWorkflowID :: string
  ro_StepID :: int
  ro_StepName :: string
  ro_Output :: "string option"
  ro_ErrStr :: "string option"
  ro_StartedAt :: gotime
  ro_CompletedAt :: gotime
  ro_Serialization :: string
  ro_ExecutorID :: string

definition result_row :: "SysDB \<Rightarrow> RecordOperationResultDBInput \<Rightarrow> op_row" where
  "result_row s inp = \<lparr>oo_workflow_uuid = ro_WorkflowID inp, oo_function_id = ro_StepID inp,
     oo_function_name = ro_StepName inp, oo_output = ro_Output inp, oo_error = ro_ErrStr inp,
     oo_child_workflow_id = nonempty (ro_ChildWorkflowID inp),
     oo_started_at_epoch_ms = Some (gotime_ms (ro_StartedAt inp)),
     oo_completed_at_epoch_ms = Some (gotime_ms (ro_CompletedAt inp)),
     oo_serialization = Some (ro_Serialization inp), oo_application_name = owner s\<rparr>"

definition refresh_where :: "string \<Rightarrow> string \<Rightarrow> wf_row \<Rightarrow> bool" where
  "refresh_where wid executorID r = (ws_workflow_uuid r = wid \<and> ws_executor_id r \<noteq> Some executorID)"

definition refreshExecutorID :: "string \<Rightarrow> string \<Rightarrow> sysdb \<Rightarrow> sysdb" where
  "refreshExecutorID wid executorID db =
     (if executorID = [] then db
      else update_wf (refresh_where wid executorID) (\<lambda>r. r\<lparr>ws_executor_id := Some executorID\<rparr>) db)"

text \<open>
  What a write that met an existing checkpoint answers; \<open>None\<close> is a row that was deleted between
  the insert and the read.
\<close>

definition same_write :: "RecordOperationResultDBInput \<Rightarrow> op_row \<Rightarrow> bool" where
  "same_write inp r = (ro_StepName inp = oo_function_name r \<and>
     nullableStrEq (oo_output r) (ro_Output inp) \<and> nullableStrEq (oo_error r) (ro_ErrStr inp) \<and>
     nullableStrEq (oo_serialization r) (Some (ro_Serialization inp)) \<and>
     derefStr (oo_child_workflow_id r) = ro_ChildWorkflowID inp \<and>
     oo_started_at_epoch_ms r = Some (gotime_ms (ro_StartedAt inp)) \<and>
     oo_completed_at_epoch_ms r = Some (gotime_ms (ro_CompletedAt inp)))"

definition record_conflict :: "RecordOperationResultDBInput \<Rightarrow> op_row option \<Rightarrow> unit res" where
  "record_conflict inp stored =
     (case stored of
        None \<Rightarrow> Inl (NewWorkflowConflictIDError (ro_WorkflowID inp))
      | Some r \<Rightarrow>
          if same_write inp r then Inr ()
          else if ro_StepName inp \<noteq> oo_function_name r then
            Inl (NewUnexpectedStepError (ro_WorkflowID inp) (ro_StepID inp) (ro_StepName inp) (oo_function_name r))
          else Inl (NewWorkflowConflictIDError (ro_WorkflowID inp)))"

definition RecordOperationResult ::
  "SysDB \<Rightarrow> RecordOperationResultDBInput \<Rightarrow> sysdb \<Rightarrow> (unit \<times> sysdb) res" where
  "RecordOperationResult s inp db =
     (case find_op (ro_WorkflowID inp) (ro_StepID inp) db of
        None \<Rightarrow>
          if find_wf (ro_WorkflowID inp) db = None then Inl fk_violation
          else Inr ((), refreshExecutorID (ro_WorkflowID inp) (ro_ExecutorID inp)
                 (db\<lparr>operation_outputs := operation_outputs db @ [result_row s inp]\<rparr>))
      | Some r \<Rightarrow> map_sum id (\<lambda>_. ((), db)) (record_conflict inp (Some r)))"

record RecordChildWorkflowDBInput =
  rc_ParentWorkflowID :: string
  rc_ChildWorkflowID :: string
  rc_StepID :: int
  rc_StepName :: string
  rc_StartedAt :: gotime

definition child_op_row :: "SysDB \<Rightarrow> RecordChildWorkflowDBInput \<Rightarrow> op_row" where
  "child_op_row s inp = \<lparr>oo_workflow_uuid = rc_ParentWorkflowID inp, oo_function_id = rc_StepID inp,
     oo_function_name = rc_StepName inp, oo_output = None, oo_error = None,
     oo_child_workflow_id = Some (rc_ChildWorkflowID inp),
     oo_started_at_epoch_ms = Some (gotime_ms (rc_StartedAt inp)), oo_completed_at_epoch_ms = None,
     oo_serialization = None, oo_application_name = owner s\<rparr>"

definition RecordChildWorkflow ::
  "SysDB \<Rightarrow> RecordChildWorkflowDBInput \<Rightarrow> sysdb \<Rightarrow> (unit \<times> sysdb) res" where
  "RecordChildWorkflow s inp db =
     (case find_op (rc_ParentWorkflowID inp) (rc_StepID inp) db of
        None \<Rightarrow>
          if find_wf (rc_ParentWorkflowID inp) db = None
          then Inl (Errorf ''failed to record child workflow: '' fk_violation)
          else Inr ((), db\<lparr>operation_outputs := operation_outputs db @ [child_op_row s inp]\<rparr>)
      | Some r \<Rightarrow>
          if oo_child_workflow_id r = Some (rc_ChildWorkflowID inp) then Inr ((), db)
          else Inl (NewUnexpectedStepError (rc_ParentWorkflowID inp) (rc_StepID inp) (rc_ChildWorkflowID inp)
                 (case oo_child_workflow_id r of None \<Rightarrow> ''<nil>'' | Some c \<Rightarrow> c)))"

definition CheckChildWorkflow :: "string \<Rightarrow> int \<Rightarrow> string \<Rightarrow> sysdb \<Rightarrow> string option res" where
  "CheckChildWorkflow wid fid functionName db =
     (case find_op wid fid db of
        None \<Rightarrow> Inr None
      | Some r \<Rightarrow>
          if functionName \<noteq> oo_function_name r
          then Inl (NewUnexpectedStepError wid fid functionName (oo_function_name r))
          else Inr (oo_child_workflow_id r))"

definition GetDeduplicatedWorkflow :: "string \<Rightarrow> string \<Rightarrow> sysdb \<Rightarrow> string option" where
  "GetDeduplicatedWorkflow queueName deduplicationID db =
     map_option ws_workflow_uuid
       (find (\<lambda>r. ws_queue_name r = Some queueName \<and> ws_deduplication_id r = Some deduplicationID)
          (workflow_status db))"

record RecordedResult =
  rr_Output :: "string option"
  rr_ErrStr :: "string option"
  rr_Serialization :: string

definition CheckOperationExecution ::
  "string \<Rightarrow> int \<Rightarrow> string \<Rightarrow> sysdb \<Rightarrow> RecordedResult option res" where
  "CheckOperationExecution wid stepID stepName db =
     (case find_wf wid db of
        None \<Rightarrow> Inl (NewNonExistentWorkflowError wid)
      | Some w \<Rightarrow>
          if ws_status w = WorkflowStatusCancelled then Inl (NewWorkflowCancelledError wid None)
          else
            (case find_op wid stepID db of
               None \<Rightarrow> Inr None
             | Some r \<Rightarrow>
                 if stepName \<noteq> oo_function_name r
                 then Inl (NewUnexpectedStepError wid stepID stepName (oo_function_name r))
                 else Inr (Some \<lparr>rr_Output = oo_output r, rr_ErrStr = nullif_empty (oo_error r),
                                  rr_Serialization = derefStr (oo_serialization r)\<rparr>)))"

record StepRow =
  sr_StepID :: int
  sr_StepName :: string
  sr_Output :: "string option"
  sr_Error :: "string option"
  sr_ChildWorkflowID :: string
  sr_StartedAt :: gotime
  sr_CompletedAt :: gotime
  sr_Serialization :: string

definition step_of_row :: "bool \<Rightarrow> op_row \<Rightarrow> StepRow" where
  "step_of_row loadOutput r = \<lparr>sr_StepID = oo_function_id r, sr_StepName = oo_function_name r,
     sr_Output = (if loadOutput then oo_output r else None), sr_Error = nullif_empty (oo_error r),
     sr_ChildWorkflowID = derefStr (oo_child_workflow_id r),
     sr_StartedAt = map_option time_of_ms (oo_started_at_epoch_ms r),
     sr_CompletedAt = map_option time_of_ms (oo_completed_at_epoch_ms r),
     sr_Serialization = derefStr (oo_serialization r)\<rparr>"

text \<open>A negative bound is an error on Postgres; see \<open>ListWorkflows\<close>.\<close>

definition GetWorkflowSteps ::
  "SysDB \<Rightarrow> string \<Rightarrow> bool \<Rightarrow> int option \<Rightarrow> int option \<Rightarrow> sysdb \<Rightarrow> StepRow list res" where
  "GetWorkflowSteps s wid loadOutput limit offset db =
     (let neg = (\<lambda>b. case b of None \<Rightarrow> False | Some n \<Rightarrow> n < (0 :: int)) in
      if SupportsDataModifyingCTE s \<and> (neg limit \<or> neg offset) then
        Inl (ErrorText ''failed to query workflow steps: bound must not be negative'')
      else Inr (map (step_of_row loadOutput)
        (list_page (if neg limit then None else limit) offset
          (order_by oo_function_id (filter (\<lambda>r. oo_workflow_uuid r = wid) (operation_outputs db))))))"

section \<open>Patches\<close>

definition DoesPatchExists :: "string \<Rightarrow> int \<Rightarrow> sysdb \<Rightarrow> string option" where
  "DoesPatchExists wid stepID db = map_option oo_function_name (find_op wid stepID db)"

definition patch_row :: "string \<Rightarrow> int \<Rightarrow> string \<Rightarrow> op_row" where
  "patch_row wid stepID patchName = \<lparr>oo_workflow_uuid = wid, oo_function_id = stepID,
     oo_function_name = patchName, oo_output = None, oo_error = None, oo_child_workflow_id = None,
     oo_started_at_epoch_ms = None, oo_completed_at_epoch_ms = None, oo_serialization = None,
     oo_application_name = None\<rparr>"

definition Patch :: "string \<Rightarrow> int \<Rightarrow> string \<Rightarrow> sysdb \<Rightarrow> (bool \<times> sysdb) res" where
  "Patch wid stepID patchName db =
     (case DoesPatchExists wid stepID db of
        None \<Rightarrow>
          if find_wf wid db = None then Inl (Errorf ''failed to insert patch marker: '' fk_violation)
          else Inr (True, db\<lparr>operation_outputs := operation_outputs db @ [patch_row wid stepID patchName]\<rparr>)
      | Some functionName \<Rightarrow> Inr (functionName = patchName, db))"

section \<open>Write-once tables\<close>

text \<open>
  The contract of an \<^verbatim>\<open>INSERT ... ON CONFLICT DO NOTHING\<close> followed by a comparison with the stored row:
  \<open>get\<close> reads a key, \<open>put\<close> writes the row of its input when the key is free and otherwise
  accepts or refuses the write by comparing (\<open>same\<close>), never changing what is stored.
\<close>

locale write_once =
  fixes get :: "'db \<Rightarrow> 'k \<Rightarrow> 'r option"
    and put :: "'i \<Rightarrow> 'db \<Rightarrow> (unit \<times> 'db) res"
    and key :: "'i \<Rightarrow> 'k"
    and row :: "'i \<Rightarrow> 'r"
    and same :: "'i \<Rightarrow> 'r \<Rightarrow> bool"
  assumes put_free: "get db (key i) = None \<Longrightarrow> put i db = Inr ((), db') \<Longrightarrow>
      get db' (key i) = Some (row i) \<and> (\<forall>k. k \<noteq> key i \<longrightarrow> get db' k = get db k)"
    and put_taken: "get db (key i) = Some r \<Longrightarrow>
      (if same i r then put i db = Inr ((), db) else \<exists>e. put i db = Inl e)"
    and same_own: "same i (row i)"
begin

lemma first_write_wins:
  assumes "put i db = Inr ((), db')" and "get db k = Some r"
  shows "get db' k = Some r"
proof (cases "get db (key i)")
  case None
  with put_free [OF None assms(1)] assms(2) show ?thesis by (cases "k = key i") auto
next
  case (Some r')
  with put_taken [OF Some] assms show ?thesis by (auto split: if_splits)
qed

lemma retry_is_noop:
  assumes "put i db = Inr ((), db')"
  shows "put i db' = Inr ((), db')"
proof (cases "get db (key i)")
  case None
  then show ?thesis using put_free [OF None assms] put_taken [of db' i "row i"] same_own by auto
next
  case (Some r)
  then show ?thesis using put_taken [OF Some] assms by (auto split: if_splits)
qed

lemma put_sequence:
  "get db k = Some r \<Longrightarrow>
     get (fold (\<lambda>i db. case put i db of Inl e \<Rightarrow> db | Inr (_, db') \<Rightarrow> db') is db) k = Some r"
proof (induction "is" arbitrary: db)
  case (Cons i "is")
  have "get (case put i db of Inl e \<Rightarrow> db | Inr (_, db') \<Rightarrow> db') k = Some r"
    using Cons.prems first_write_wins by (cases "put i db") auto
  then show ?case using Cons.IH by simp
qed simp

end

lemma find_op_append:
  "lookup_by op_key k (rows @ [r]) =
     (case lookup_by op_key k rows of None \<Rightarrow> if op_key r = k then Some r else None | Some x \<Rightarrow> Some x)"
  by (simp add: lookup_by_append split: option.splits)

lemma refreshExecutorID_sel [simp]:
  "operation_outputs (refreshExecutorID wid ex db) = operation_outputs db"
  "wf_ids (workflow_status (refreshExecutorID wid ex db)) = wf_ids (workflow_status db)"
  by (simp_all add: refreshExecutorID_def update_where_keeps)

lemma result_row_key [simp]: "oo_workflow_uuid (result_row s inp) = ro_WorkflowID inp"
  "oo_function_id (result_row s inp) = ro_StepID inp" "oo_function_name (result_row s inp) = ro_StepName inp"
  by (simp_all add: result_row_def)

interpretation results: write_once
  "\<lambda>db (wid, fid). find_op wid fid db" "RecordOperationResult s"
  "\<lambda>inp. (ro_WorkflowID inp, ro_StepID inp)" "result_row s" same_write for s
proof unfold_locales
  fix db db' :: sysdb and i r
  show "(case (ro_WorkflowID i, ro_StepID i) of (wid, fid) \<Rightarrow> find_op wid fid db') = Some (result_row s i) \<and>
      (\<forall>k. k \<noteq> (ro_WorkflowID i, ro_StepID i) \<longrightarrow>
        (case k of (wid, fid) \<Rightarrow> find_op wid fid db') = (case k of (wid, fid) \<Rightarrow> find_op wid fid db))"
    if "(case (ro_WorkflowID i, ro_StepID i) of (wid, fid) \<Rightarrow> find_op wid fid db) = None"
      "RecordOperationResult s i db = Inr ((), db')"
    using that by (auto simp: RecordOperationResult_def find_op_append split: if_splits option.splits)
  show "if same_write i r then RecordOperationResult s i db = Inr ((), db)
      else \<exists>e. RecordOperationResult s i db = Inl e"
    if "(case (ro_WorkflowID i, ro_StepID i) of (wid, fid) \<Rightarrow> find_op wid fid db) = Some r"
    using that by (auto simp: RecordOperationResult_def record_conflict_def)
  show "same_write i (result_row s i)" by (simp add: same_write_def result_row_def)
qed

interpretation children: write_once
  "\<lambda>db (wid, fid). find_op wid fid db" "RecordChildWorkflow s"
  "\<lambda>inp. (rc_ParentWorkflowID inp, rc_StepID inp)" "child_op_row s"
  "\<lambda>inp r. oo_child_workflow_id r = Some (rc_ChildWorkflowID inp)" for s
proof unfold_locales
  fix db db' :: sysdb and i r
  show "(case (rc_ParentWorkflowID i, rc_StepID i) of (wid, fid) \<Rightarrow> find_op wid fid db') = Some (child_op_row s i) \<and>
      (\<forall>k. k \<noteq> (rc_ParentWorkflowID i, rc_StepID i) \<longrightarrow>
        (case k of (wid, fid) \<Rightarrow> find_op wid fid db') = (case k of (wid, fid) \<Rightarrow> find_op wid fid db))"
    if "(case (rc_ParentWorkflowID i, rc_StepID i) of (wid, fid) \<Rightarrow> find_op wid fid db) = None"
      "RecordChildWorkflow s i db = Inr ((), db')"
    using that by (auto simp: RecordChildWorkflow_def find_op_append child_op_row_def split: if_splits option.splits)
  show "if oo_child_workflow_id r = Some (rc_ChildWorkflowID i) then RecordChildWorkflow s i db = Inr ((), db)
      else \<exists>e. RecordChildWorkflow s i db = Inl e"
    if "(case (rc_ParentWorkflowID i, rc_StepID i) of (wid, fid) \<Rightarrow> find_op wid fid db) = Some r"
    using that by (auto simp: RecordChildWorkflow_def)
  show "oo_child_workflow_id (child_op_row s i) = Some (rc_ChildWorkflowID i)" by (simp add: child_op_row_def)
qed

section \<open>Invariant\<close>

interpretation refresh: inv_update "refresh_where wid ex" "\<lambda>r. r\<lparr>ws_executor_id := Some ex\<rparr>" for wid ex
  by unfold_locales (auto simp: row_unfold)

lemma refreshExecutorID_inv: "db_inv db \<Longrightarrow> db_inv (refreshExecutorID wid ex db)"
  by (simp add: refreshExecutorID_def refresh.preserves_inv)

lemma refreshExecutorID_status:
  "map_option ws_status (find_wf w (refreshExecutorID wid ex db)) = map_option ws_status (find_wf w db)"
  by (cases "find_wf w db") (auto simp: refreshExecutorID_def refresh.find)

lemma db_inv_add_op:
  assumes "db_inv db" and "find_op (oo_workflow_uuid r) (oo_function_id r) db = None"
    and "find_wf (oo_workflow_uuid r) db \<noteq> None"
  shows "db_inv (db\<lparr>operation_outputs := operation_outputs db @ [r]\<rparr>)"
proof -
  have "op_key r \<notin> op_key ` set (operation_outputs db)"
    using assms(2) by (metis lookup_by_eq_None)
  then show ?thesis using assms(1,3)
    by (auto simp: db_inv_def pk_ok_def fk_ok_def Let_def lookup_by_eq_None)
qed

lemma RecordOperationResult_inv:
  "db_inv db \<Longrightarrow> RecordOperationResult s inp db = Inr ((), db') \<Longrightarrow> db_inv db'"
  by (auto simp: RecordOperationResult_def map_sum_def refreshExecutorID_inv db_inv_add_op
      split: option.splits if_splits sum.splits)

lemma RecordChildWorkflow_inv:
  "db_inv db \<Longrightarrow> RecordChildWorkflow s inp db = Inr ((), db') \<Longrightarrow> db_inv db'"
  by (auto simp: RecordChildWorkflow_def child_op_row_def db_inv_add_op split: option.splits if_splits)

lemma Patch_inv: "db_inv db \<Longrightarrow> Patch wid fid name db = Inr (b, db') \<Longrightarrow> db_inv db'"
  by (auto simp: Patch_def DoesPatchExists_def patch_row_def db_inv_add_op split: option.splits if_splits)

section \<open>Checkpoints\<close>


definition sample_result :: RecordOperationResultDBInput where
  "sample_result = \<lparr>ro_WorkflowID = ''a'', ro_ChildWorkflowID = [], ro_StepID = 1, ro_StepName = ''step'',
     ro_Output = Some ''out'', ro_ErrStr = None, ro_StartedAt = Some 0, ro_CompletedAt = Some 1000000,
     ro_Serialization = ''json'', ro_ExecutorID = ''e''\<rparr>"

lemma sample_result_ok: "\<exists>db'. RecordOperationResult sample_sysdb_ctx sample_result sample_family = Inr ((), db')"
  by (simp add: RecordOperationResult_def sample_result_def sample_family_def empty_sysdb_def)


text \<open>
  What is recorded for a step is what a later execution finds: after a first recording, the
  check of that step under its name returns exactly the recorded output, error and serialization,
  unless the workflow is cancelled or gone; under any other name it reports the determinism
  violation.
\<close>

theorem check_returns_recorded:
  assumes "RecordOperationResult s inp db = Inr ((), db')"
    and "find_op (ro_WorkflowID inp) (ro_StepID inp) db = None"
    and "find_wf (ro_WorkflowID inp) db' = Some w"
  shows "CheckOperationExecution (ro_WorkflowID inp) (ro_StepID inp) name db' =
    (if ws_status w = WorkflowStatusCancelled then Inl (NewWorkflowCancelledError (ro_WorkflowID inp) None)
     else if name \<noteq> ro_StepName inp
     then Inl (NewUnexpectedStepError (ro_WorkflowID inp) (ro_StepID inp) name (ro_StepName inp))
     else Inr (Some \<lparr>rr_Output = ro_Output inp, rr_ErrStr = nullif_empty (ro_ErrStr inp),
                      rr_Serialization = ro_Serialization inp\<rparr>))"
  using results.put_free [of db inp s db'] assms
  by (auto simp: CheckOperationExecution_def result_row_def)

theorem check_returns_recorded_witness:
  "\<exists>db'. RecordOperationResult sample_sysdb_ctx sample_result sample_family = Inr ((), db') \<and>
     CheckOperationExecution ''a'' 1 ''step'' db' =
       Inr (Some \<lparr>rr_Output = Some ''out'', rr_ErrStr = None, rr_Serialization = ''json''\<rparr>)"
proof -
  obtain db' where run: "RecordOperationResult sample_sysdb_ctx sample_result sample_family = Inr ((), db')"
    using sample_result_ok by blast
  have "find_op ''a'' 1 sample_family = None" by (simp add: sample_family_def empty_sysdb_def)
  moreover obtain w where "find_wf ''a'' db' = Some w" "ws_status w = WorkflowStatusPending"
    using run by (auto simp: RecordOperationResult_def sample_result_def sample_family_def empty_sysdb_def
        refreshExecutorID_def refresh_where_def default_wf_row_def)
  ultimately show ?thesis using check_returns_recorded [OF run, of w "''step''"] run
    by (simp add: sample_result_def nullif_empty_def)
qed

text \<open>
  A child workflow is bound to its parent's step once: recording it again is a no-op,
  recording another child there is refused, and the check under the recorded name returns it.
\<close>

theorem child_recorded_once:
  assumes "RecordChildWorkflow s inp db = Inr ((), db')"
  shows "RecordChildWorkflow s inp db' = Inr ((), db') \<and>
    (\<forall>inp'. rc_ParentWorkflowID inp' = rc_ParentWorkflowID inp \<and> rc_StepID inp' = rc_StepID inp \<and>
       rc_ChildWorkflowID inp' \<noteq> rc_ChildWorkflowID inp \<longrightarrow>
       (\<exists>e. RecordChildWorkflow s inp' db' = Inl e \<and> errors_Is ErrorCodeUnexpectedStep e)) \<and>
    (find_op (rc_ParentWorkflowID inp) (rc_StepID inp) db = None \<longrightarrow>
       CheckChildWorkflow (rc_ParentWorkflowID inp) (rc_StepID inp) (rc_StepName inp) db' =
         Inr (Some (rc_ChildWorkflowID inp)))"
proof -
  obtain r where r: "find_op (rc_ParentWorkflowID inp) (rc_StepID inp) db' = Some r"
    "oo_child_workflow_id r = Some (rc_ChildWorkflowID inp)"
    "find_op (rc_ParentWorkflowID inp) (rc_StepID inp) db = None \<longrightarrow> oo_function_name r = rc_StepName inp"
    using assms by (auto simp: RecordChildWorkflow_def find_op_append child_op_row_def split: option.splits if_splits)
  then show ?thesis using children.retry_is_noop [OF assms]
    by (auto simp: RecordChildWorkflow_def CheckChildWorkflow_def errors_Is_def Error_Is_def NewUnexpectedStepError_def)
qed

theorem child_recorded_once_witness:
  "\<exists>db'. RecordChildWorkflow sample_sysdb_ctx \<lparr>rc_ParentWorkflowID = ''a'', rc_ChildWorkflowID = ''b'',
       rc_StepID = 2, rc_StepName = ''f'', rc_StartedAt = None\<rparr> sample_family = Inr ((), db') \<and>
     CheckChildWorkflow ''a'' 2 ''f'' db' = Inr (Some ''b'')"
proof -
  let ?inp = "\<lparr>rc_ParentWorkflowID = ''a'', rc_ChildWorkflowID = ''b'', rc_StepID = 2, rc_StepName = ''f'', rc_StartedAt = None\<rparr>"
  obtain db' where "RecordChildWorkflow sample_sysdb_ctx ?inp sample_family = Inr ((), db')"
    by (simp add: RecordChildWorkflow_def sample_family_def empty_sysdb_def)
  with child_recorded_once [OF this] show ?thesis by (simp add: sample_family_def empty_sysdb_def)
qed

end
