(* ===== verification/Comms.thy ===== *)
theory Comms
  imports Steps
begin

text \<open>
  Communication between workflows (\<^verbatim>\<open>src/dbos/internal/sysdb/system_database.go\<close>): messages, events
  and streams, the probes of durable suspension on them, and the poller that wakes the in-memory
  waiters on databases without \<^verbatim>\<open>LISTEN/NOTIFY\<close>.
\<close>

section \<open>Messages\<close>

definition NullTopic :: string where
  "NullTopic = ''__null__topic__''"

text \<open>
  \<open>si_Message\<close> is \<open>None\<close> when the dynamic value is not a \<^verbatim>\<open>*string\<close> and \<open>Some None\<close> for a nil pointer,
  which the \<^verbatim>\<open>NOT NULL\<close> column refuses.
\<close>

record WorkflowSendInput =
  si_DestinationID :: string
  si_Message :: "string option option"
  si_Topic :: string
  si_Serialization :: string
  si_IdempotencyKey :: string
  si_MessageUUID :: "string option"

definition message_uuid :: "string \<Rightarrow> WorkflowSendInput \<Rightarrow> string" where
  "message_uuid uuid inp =
     (case si_MessageUUID inp of
        Some u \<Rightarrow> u
      | None \<Rightarrow> if si_IdempotencyKey inp \<noteq> [] then si_IdempotencyKey inp @ ''::'' @ si_DestinationID inp else uuid)"

definition send_topic :: "WorkflowSendInput \<Rightarrow> string" where
  "send_topic inp = (if si_Topic inp \<noteq> [] then si_Topic inp else NullTopic)"

definition self_waiter :: "string \<Rightarrow> waiter_row" where
  "self_waiter wid = \<lparr>wt_waiter_workflow_uuid = wid, wt_awaited_workflow_uuid = wid\<rparr>"

definition wake_receiver :: "instant \<Rightarrow> string \<Rightarrow> sysdb \<Rightarrow> sysdb" where
  "wake_receiver now wid db =
     update_wf (\<lambda>r. wake_where [wid] r \<and>
       exists_where (\<lambda>w. wt_waiter_workflow_uuid w = wid \<and> wt_awaited_workflow_uuid w = wid) (workflow_waiters db))
       (wake_set now) db"

text \<open>\<open>uuid\<close> is the generated message id, \<open>now\<close> and \<open>wakeNow\<close> the clock at the two statements.\<close>

definition Send ::
  "instant \<Rightarrow> instant \<Rightarrow> string \<Rightarrow> WorkflowSendInput \<Rightarrow> sysdb \<Rightarrow> (unit \<times> sysdb) res" where
  "Send now wakeNow uuid inp db =
     (case si_Message inp of
        None \<Rightarrow> Inl (ErrorText ''message must be a pointer to a string'')
      | Some None \<Rightarrow> Inl (ErrorText ''failed to insert notification: null value in column message'')
      | Some (Some m) \<Rightarrow>
          let mid = message_uuid uuid inp;
              n = \<lparr>nt_destination_uuid = si_DestinationID inp, nt_topic = send_topic inp, nt_message = m,
                   nt_created_at_epoch_ms = UnixMilli now, nt_message_uuid = mid,
                   nt_serialization = Some (si_Serialization inp), nt_consumed = False\<rparr>
          in if exists_where (\<lambda>r. nt_message_uuid r = mid) (notifications db)
             then Inr ((), wake_receiver wakeNow (si_DestinationID inp) db)
             else if find_wf (si_DestinationID inp) db = None
             then Inl (NewNonExistentWorkflowError (si_DestinationID inp))
             else Inr ((), wake_receiver wakeNow (si_DestinationID inp)
                        (db\<lparr>notifications := notifications db @ [n]\<rparr>)))"

definition pending_messages :: "string \<Rightarrow> string \<Rightarrow> sysdb \<Rightarrow> notification_row list" where
  "pending_messages dest topic db =
     order_by nt_created_at_epoch_ms
       (filter (\<lambda>r. nt_destination_uuid r = dest \<and> nt_topic r = topic \<and> \<not> nt_consumed r) (notifications db))"

definition ConsumeMessageWithUUID ::
  "string \<Rightarrow> string \<Rightarrow> sysdb \<Rightarrow> (string option \<times> string option \<times> string option) \<times> sysdb" where
  "ConsumeMessageWithUUID dest topic db =
     (case limit_rows 1 (pending_messages dest topic db) of
        [] \<Rightarrow> ((None, None, None), db)
      | oldest # _ \<Rightarrow>
          ((Some (nt_message oldest), nt_serialization oldest, Some (nt_message_uuid oldest)),
           db\<lparr>notifications := update_where (\<lambda>r. nt_message_uuid r = nt_message_uuid oldest)
                (\<lambda>r. r\<lparr>nt_consumed := True\<rparr>) (notifications db)\<rparr>))"

definition ConsumeMessage ::
  "string \<Rightarrow> string \<Rightarrow> sysdb \<Rightarrow> (string option \<times> string option) \<times> sysdb" where
  "ConsumeMessage dest topic db =
     (case ConsumeMessageWithUUID dest topic db of ((m, ser, _), db') \<Rightarrow> ((m, ser), db'))"

definition HasUnconsumedNotification :: "string \<Rightarrow> string \<Rightarrow> sysdb \<Rightarrow> bool" where
  "HasUnconsumedNotification dest topic db =
     exists_where (\<lambda>r. nt_destination_uuid r = dest \<and>
       nt_topic r = (if topic = [] then NullTopic else topic) \<and> \<not> nt_consumed r) (notifications db)"

record NotificationRecord =
  nr_Topic :: "string option"
  nr_Message :: string
  nr_Serialization :: string
  nr_CreatedAtEpochMs :: int
  nr_Consumed :: bool

definition GetAllNotifications :: "string \<Rightarrow> sysdb \<Rightarrow> NotificationRecord list" where
  "GetAllNotifications wid db =
     map (\<lambda>r. \<lparr>nr_Topic = (if nt_topic r = NullTopic then None else Some (nt_topic r)),
               nr_Message = nt_message r, nr_Serialization = derefStr (nt_serialization r),
               nr_CreatedAtEpochMs = nt_created_at_epoch_ms r, nr_Consumed = nt_consumed r\<rparr>)
       (order_by nt_created_at_epoch_ms (filter (\<lambda>r. nt_destination_uuid r = wid) (notifications db)))"

section \<open>Events\<close>

record WorkflowSetEventInput =
  se_Key :: string
  se_Message :: "string option option"
  se_Serialization :: string
  se_WorkflowID :: string
  se_StepID :: int

definition SetEvent :: "instant \<Rightarrow> WorkflowSetEventInput \<Rightarrow> sysdb \<Rightarrow> (unit \<times> sysdb) res" where
  "SetEvent now inp db =
     (case se_Message inp of
        None \<Rightarrow> Inl (ErrorText ''message must be a pointer to a string'')
      | Some None \<Rightarrow> Inl (ErrorText ''failed to insert event: null value in column value'')
      | Some (Some v) \<Rightarrow>
          if find_wf (se_WorkflowID inp) db = None then Inl (Errorf ''failed to insert event: '' fk_violation)
          else
            let ser = Some (se_Serialization inp);
                db1 = db\<lparr>workflow_events := upsert event_key
                  \<lparr>ev_workflow_uuid = se_WorkflowID inp, ev_key = se_Key inp, ev_value = v, ev_serialization = ser\<rparr>
                  (\<lambda>r. r\<lparr>ev_value := v, ev_serialization := ser\<rparr>) (workflow_events db)\<rparr>;
                db2 = db1\<lparr>workflow_events_history := upsert history_key
                  \<lparr>eh_workflow_uuid = se_WorkflowID inp, eh_function_id = se_StepID inp, eh_key = se_Key inp,
                   eh_value = v, eh_serialization = ser\<rparr>
                  (\<lambda>r. r\<lparr>eh_value := v, eh_serialization := ser\<rparr>) (workflow_events_history db1)\<rparr>
            in Inr ((), notifyWorkflowWaiters now (se_WorkflowID inp) db2))"

definition GetEventValue :: "string \<Rightarrow> string \<Rightarrow> sysdb \<Rightarrow> string option \<times> string option" where
  "GetEventValue wid key db =
     (case lookup_by event_key (wid, key) (workflow_events db) of
        None \<Rightarrow> (None, None)
      | Some r \<Rightarrow> (Some (ev_value r), ev_serialization r))"

definition HasWorkflowEvent :: "string \<Rightarrow> string \<Rightarrow> sysdb \<Rightarrow> bool" where
  "HasWorkflowEvent wid key db =
     exists_where (\<lambda>r. ev_workflow_uuid r = wid \<and> ev_key r = key) (workflow_events db)"

definition GetAllEvents :: "string \<Rightarrow> sysdb \<Rightarrow> (string \<times> string \<times> string) list" where
  "GetAllEvents wid db =
     map (\<lambda>r. (ev_key r, ev_value r, derefStr (ev_serialization r)))
       (filter (\<lambda>r. ev_workflow_uuid r = wid) (workflow_events db))"

section \<open>Streams\<close>

definition StreamClosedSentinel :: string where
  "StreamClosedSentinel = ''__DBOS_STREAM_CLOSED__''"

record WriteStreamDBInput =
  wi_Key :: string
  wi_Value :: "string option"
  wi_Serialization :: string
  wi_WorkflowID :: string
  wi_StepID :: int

definition stream_rows :: "string \<Rightarrow> string \<Rightarrow> sysdb \<Rightarrow> stream_row list" where
  "stream_rows wid key db = filter (\<lambda>r. st_workflow_uuid r = wid \<and> st_key r = key) (streams db)"

definition next_offset :: "stream_row list \<Rightarrow> int" where
  "next_offset rows = (case rows of [] \<Rightarrow> - 1 | r # rs \<Rightarrow> fold max (map st_offset rs) (st_offset r)) + 1"

definition WriteStream :: "WriteStreamDBInput \<Rightarrow> sysdb \<Rightarrow> (unit \<times> sysdb) res" where
  "WriteStream inp db =
     (let rows = stream_rows (wi_WorkflowID inp) (wi_Key inp) db in
      if exists_where (\<lambda>r. st_value r = StreamClosedSentinel) rows
      then Inl (ErrorText (''stream '' @ quoted (wi_Key inp) @ '' is already closed''))
      else case wi_Value inp of
        None \<Rightarrow> Inl (ErrorText ''failed to insert stream entry: null value in column value'')
      | Some v \<Rightarrow>
          if find_wf (wi_WorkflowID inp) db = None
          then Inl (Errorf ''failed to insert stream entry: '' fk_violation)
          else Inr ((), db\<lparr>streams := streams db @
            [\<lparr>st_workflow_uuid = wi_WorkflowID inp, st_key = wi_Key inp, st_value = v,
              st_offset = next_offset rows, st_function_id = wi_StepID inp,
              st_serialization = Some (wi_Serialization inp)\<rparr>]\<rparr>))"

record StreamEntry =
  en_Key :: string
  en_Value :: string
  en_Offset :: int
  en_Serialization :: string

definition stream_entry :: "string \<Rightarrow> stream_row \<Rightarrow> StreamEntry" where
  "stream_entry key r = \<lparr>en_Key = key, en_Value = st_value r, en_Offset = st_offset r,
     en_Serialization = derefStr (st_serialization r)\<rparr>"

text \<open>The scan of \<^verbatim>\<open>ReadStream\<close>: it stops at the sentinel. Its entries carry no key.\<close>

fun read_entries :: "stream_row list \<Rightarrow> StreamEntry list \<times> bool" where
  "read_entries [] = ([], False)"
| "read_entries (r # rs) =
     (if st_value r = StreamClosedSentinel then ([], True)
      else case read_entries rs of (es, isClosed) \<Rightarrow> (stream_entry [] r # es, isClosed))"

definition ReadStream :: "string \<Rightarrow> string \<Rightarrow> int \<Rightarrow> sysdb \<Rightarrow> StreamEntry list \<times> bool" where
  "ReadStream wid key fromOffset db =
     read_entries (order_by st_offset (filter (\<lambda>r. fromOffset \<le> st_offset r) (stream_rows wid key db)))"

definition GetAllStreamEntries :: "string \<Rightarrow> sysdb \<Rightarrow> StreamEntry list" where
  "GetAllStreamEntries wid db =
     map (\<lambda>r. stream_entry (st_key r) r)
       (filter (\<lambda>r. st_value r \<noteq> StreamClosedSentinel)
         (order_by (\<lambda>r. (st_key r, st_offset r)) (filter (\<lambda>r. st_workflow_uuid r = wid) (streams db))))"

section \<open>Messages form a queue\<close>

text \<open>The contract of a channel that is read destructively, oldest message first.\<close>

fun receive_many :: "('db \<Rightarrow> 'm option \<times> 'db) \<Rightarrow> nat \<Rightarrow> 'db \<Rightarrow> 'm list \<times> 'db" where
  "receive_many recv 0 db = ([], db)"
| "receive_many recv (Suc n) db =
     (case recv db of
        (None, db') \<Rightarrow> ([], db')
      | (Some m, db') \<Rightarrow> (case receive_many recv n db' of (ms, db'') \<Rightarrow> (m # ms, db'')))"

locale fifo_channel =
  fixes ok :: "'db \<Rightarrow> bool" and content :: "'db \<Rightarrow> 'm list" and recv :: "'db \<Rightarrow> 'm option \<times> 'db"
  assumes recv_empty: "ok db \<Longrightarrow> content db = [] \<Longrightarrow> recv db = (None, db)"
    and recv_first: "ok db \<Longrightarrow> content db = m # ms \<Longrightarrow> \<exists>db'. recv db = (Some m, db') \<and> content db' = ms \<and> ok db'"
begin

lemma receive_prefix:
  "ok db \<Longrightarrow> \<exists>db'. receive_many recv n db = (take n (content db), db') \<and> content db' = drop n (content db) \<and> ok db'"
proof (induction n arbitrary: db)
  case (Suc n)
  show ?case
  proof (cases "content db")
    case Nil
    then show ?thesis using Suc.prems recv_empty by simp
  next
    case (Cons m ms)
    then obtain db1 where "recv db = (Some m, db1)" "content db1 = ms" "ok db1"
      using recv_first [OF Suc.prems] by blast
    then show ?thesis using Suc.IH [of db1] Cons by auto
  qed
qed simp

lemma receive_all:
  assumes "ok db" and "length (content db) \<le> n"
  shows "\<exists>db'. receive_many recv n db = (content db, db') \<and> content db' = []"
  using receive_prefix [OF assms(1), of n] assms(2) by auto

end

definition recv_one ::
  "string \<Rightarrow> string \<Rightarrow> sysdb \<Rightarrow> (string \<times> string option \<times> string) option \<times> sysdb" where
  "recv_one dest topic db =
     (case ConsumeMessageWithUUID dest topic db of
        ((Some m, ser, Some u), db') \<Rightarrow> (Some (m, ser, u), db')
      | (_, db') \<Rightarrow> (None, db'))"

definition message_view :: "notification_row \<Rightarrow> string \<times> string option \<times> string" where
  "message_view r = (nt_message r, nt_serialization r, nt_message_uuid r)"

lemma limit_rows_1: "limit_rows 1 xs = (case xs of [] \<Rightarrow> [] | x # _ \<Rightarrow> [x])"
  by (simp add: limit_rows_def split: list.splits)

lemma pending_distinct:
  "distinct (map nt_message_uuid (notifications db)) \<Longrightarrow> distinct (map nt_message_uuid (pending_messages dest topic db))"
  by (simp add: pending_messages_def distinct_map_filter)

lemma filter_consumed:
  "filter (\<lambda>r. P r \<and> \<not> nt_consumed r)
     (update_where (\<lambda>r. nt_message_uuid r = u) (\<lambda>r. r\<lparr>nt_consumed := True\<rparr>) rows) =
   filter (\<lambda>r. nt_message_uuid r \<noteq> u) (filter (\<lambda>r. P r \<and> \<not> nt_consumed r) rows)"
  by (induction rows) auto

lemma pending_after_consume:
  assumes "distinct (map nt_message_uuid (notifications db))"
    and "pending_messages dest topic db = m # ms"
  shows "pending_messages dest topic (db\<lparr>notifications :=
      update_where (\<lambda>r. nt_message_uuid r = nt_message_uuid m) (\<lambda>r. r\<lparr>nt_consumed := True\<rparr>) (notifications db)\<rparr>) = ms"
proof -
  have "\<forall>r \<in> set ms. nt_message_uuid r \<noteq> nt_message_uuid m"
    using pending_distinct [OF assms(1), of dest topic] assms(2) by (auto simp: rev_image_eqI)
  then have "filter (\<lambda>r. nt_message_uuid r \<noteq> nt_message_uuid m) (m # ms) = ms" by simp
  moreover have "pending_messages dest topic (db\<lparr>notifications :=
      update_where (\<lambda>r. nt_message_uuid r = nt_message_uuid m) (\<lambda>r. r\<lparr>nt_consumed := True\<rparr>) (notifications db)\<rparr>) =
      filter (\<lambda>r. nt_message_uuid r \<noteq> nt_message_uuid m) (pending_messages dest topic db)"
    using filter_consumed [of "\<lambda>r. nt_destination_uuid r = dest \<and> nt_topic r = topic" "nt_message_uuid m" "notifications db"]
      order_by_filter [of nt_created_at_epoch_ms "\<lambda>r. nt_message_uuid r \<noteq> nt_message_uuid m"
        "filter (\<lambda>r. nt_destination_uuid r = dest \<and> nt_topic r = topic \<and> \<not> nt_consumed r) (notifications db)"]
    by (simp add: pending_messages_def)
  ultimately show ?thesis using assms(2) by simp
qed

interpretation inbox: fifo_channel
  "\<lambda>db. distinct (map nt_message_uuid (notifications db))"
  "\<lambda>db. map message_view (pending_messages dest topic db)" "recv_one dest topic" for dest topic
proof unfold_locales
  fix db :: sysdb assume "map message_view (pending_messages dest topic db) = []"
  then show "recv_one dest topic db = (None, db)"
    by (simp add: recv_one_def ConsumeMessageWithUUID_def limit_rows_1)
next
  fix db :: sysdb and v vs
  assume ok: "distinct (map nt_message_uuid (notifications db))"
    and "map message_view (pending_messages dest topic db) = v # vs"
  then obtain m ms where m: "pending_messages dest topic db = m # ms" "v = message_view m" "vs = map message_view ms"
    by auto
  show "\<exists>db'. recv_one dest topic db = (Some v, db') \<and> map message_view (pending_messages dest topic db') = vs \<and>
      distinct (map nt_message_uuid (notifications db'))"
    using m ok pending_after_consume [OF ok m(1)]
    by (auto simp: recv_one_def ConsumeMessageWithUUID_def limit_rows_1 message_view_def update_where_keeps)
qed

lemma order_by_eq_Nil [simp]: "order_by k rows = [] \<longleftrightarrow> rows = []"
  by (metis length_0_conv length_order_by(1))

lemma HasUnconsumedNotification_iff:
  "topic \<noteq> [] \<Longrightarrow> HasUnconsumedNotification dest topic db \<longleftrightarrow> pending_messages dest topic db \<noteq> []"
  by (auto simp: HasUnconsumedNotification_def pending_messages_def filter_empty_conv)

text \<open>
  C15: receiving repeatedly delivers the pending messages of a workflow and topic exactly once each,
  oldest first, and leaves none of them pending.
\<close>

theorem messages_delivered_once_in_order:
  assumes "distinct (map nt_message_uuid (notifications db))"
    and "length (pending_messages dest topic db) \<le> n"
  shows "\<exists>db'. receive_many (recv_one dest topic) n db = (map message_view (pending_messages dest topic db), db') \<and>
    pending_messages dest topic db' = [] \<and>
    (topic \<noteq> [] \<longrightarrow> \<not> HasUnconsumedNotification dest topic db') \<and>
    sorted (map nt_created_at_epoch_ms (pending_messages dest topic db)) \<and>
    mset (pending_messages dest topic db) =
      filter_mset (\<lambda>r. nt_destination_uuid r = dest \<and> nt_topic r = topic \<and> \<not> nt_consumed r) (mset (notifications db))"
proof -
  obtain db' where db': "receive_many (recv_one dest topic) n db = (map message_view (pending_messages dest topic db), db')"
    "pending_messages dest topic db' = []"
    using inbox.receive_all [OF assms(1), of dest topic n] assms(2) by auto
  show ?thesis
    using db' HasUnconsumedNotification_iff [of topic dest db']
    by (simp add: pending_messages_def sorted_order_by)
qed

definition sample_message :: "string \<Rightarrow> int \<Rightarrow> notification_row" where
  "sample_message u t = \<lparr>nt_destination_uuid = ''a'', nt_topic = ''t'', nt_message = u, nt_created_at_epoch_ms = t,
     nt_message_uuid = u, nt_serialization = None, nt_consumed = False\<rparr>"

theorem messages_delivered_once_in_order_witness:
  "\<exists>db'. receive_many (recv_one ''a'' ''t'') 2
      (sample_family\<lparr>notifications := [sample_message ''m2'' 9, sample_message ''m1'' 3]\<rparr>) =
      ([(''m1'', None, ''m1''), (''m2'', None, ''m2'')], db')"
proof -
  let ?db = "sample_family\<lparr>notifications := [sample_message ''m2'' 9, sample_message ''m1'' 3]\<rparr>"
  have p: "pending_messages ''a'' ''t'' ?db = [sample_message ''m1'' 3, sample_message ''m2'' 9]"
    by (simp add: pending_messages_def order_by_def sample_message_def)
  have "distinct (map nt_message_uuid (notifications ?db))" by (simp add: sample_message_def)
  from messages_delivered_once_in_order [OF this, of "''a''" "''t''" 2] show ?thesis
    unfolding p by (auto simp: message_view_def sample_message_def)
qed

lemma wake_receiver_sel [simp]:
  "notifications (wake_receiver now wid db) = notifications db"
  "workflow_waiters (wake_receiver now wid db) = workflow_waiters db"
  "operation_outputs (wake_receiver now wid db) = operation_outputs db"
  by (simp_all add: wake_receiver_def)

interpretation wake_rcv: status_update "\<lambda>r. wake_where [wid] r \<and> b" "wake_set now" for wid b now
  by unfold_locales (auto simp: row_defs row_unfold)

lemma wake_receiver_inv: "db_inv db \<Longrightarrow> db_inv (wake_receiver now wid db)"
  by (simp add: wake_receiver_def wake_rcv.preserves_inv)

lemma Send_inv:
  assumes "db_inv db" and "Send now wakeNow uuid inp db = Inr ((), db')"
  shows "db_inv db'"
proof -
  have add: "db_inv (db\<lparr>notifications := notifications db @ [n]\<rparr>)"
    if "find_wf (nt_destination_uuid n) db \<noteq> None" "\<not> exists_where (\<lambda>r. nt_message_uuid r = nt_message_uuid n) (notifications db)" for n
    using assms(1) that by (auto simp: db_inv_def pk_ok_def fk_ok_def Let_def lookup_by_eq_None)
  show ?thesis using assms add
    by (auto simp: Send_def Let_def wake_receiver_inv [OF assms(1)] split: option.splits if_splits intro!: wake_receiver_inv)
qed

text \<open>
  A message that was sent is pending at its destination behind everything sent before it, and
  its receiver, if it is suspended waiting for a message, becomes due at once. Sending it again
  under the same idempotency key adds nothing. A message to a workflow that does not exist fails
  with the non-existent workflow error.
\<close>

theorem send_enqueues_once:
  assumes "si_Message inp = Some (Some m)" and "mid = message_uuid uuid inp"
    and "dest = si_DestinationID inp" and "topic = send_topic inp"
    and "\<forall>r \<in> set (pending_messages dest topic db). nt_created_at_epoch_ms r \<le> UnixMilli now"
  shows "(if mid \<in> nt_message_uuid ` set (notifications db) then
      \<exists>db'. Send now wakeNow uuid inp db = Inr ((), db') \<and> notifications db' = notifications db
    else if find_wf dest db = None then Send now wakeNow uuid inp db = Inl (NewNonExistentWorkflowError dest)
    else \<exists>db' n. Send now wakeNow uuid inp db = Inr ((), db') \<and>
      pending_messages dest topic db' = pending_messages dest topic db @ [n] \<and>
      message_view n = (m, Some (si_Serialization inp), mid) \<and>
      (\<forall>r. find_wf dest db = Some r \<and> ws_status r = WorkflowStatusDelayed \<and>
         self_waiter dest \<in> set (workflow_waiters db) \<longrightarrow>
         find_wf dest db' = Some (wake_set wakeNow r)) \<and>
      (\<exists>db2. Send now2 wakeNow2 uuid inp db' = Inr ((), db2) \<and> notifications db2 = notifications db'))"
proof -
  define n where "n = \<lparr>nt_destination_uuid = dest, nt_topic = topic, nt_message = m,
      nt_created_at_epoch_ms = UnixMilli now, nt_message_uuid = mid,
      nt_serialization = Some (si_Serialization inp), nt_consumed = False\<rparr>"
  have send: "Send t wt uuid inp d =
      (if mid \<in> nt_message_uuid ` set (notifications d) then Inr ((), wake_receiver wt dest d)
       else if find_wf dest d = None then Inl (NewNonExistentWorkflowError dest)
       else Inr ((), wake_receiver wt dest (d\<lparr>notifications := notifications d @
          [n\<lparr>nt_created_at_epoch_ms := UnixMilli t\<rparr>]\<rparr>)))" for t wt d
  proof -
    have "exists_where (\<lambda>r. nt_message_uuid r = mid) (notifications d) \<longleftrightarrow> mid \<in> nt_message_uuid ` set (notifications d)"
      by auto
    then show ?thesis using assms(1-4) by (simp add: Send_def Let_def n_def del: exists_where_iff)
  qed
  have pend: "pending_messages dest topic (wake_receiver wakeNow dest (db\<lparr>notifications := notifications db @ [n]\<rparr>)) =
      pending_messages dest topic db @ [n]"
    using assms(5) by (auto simp: pending_messages_def n_def intro!: order_by_append_max)
  have "exists_where (\<lambda>w. wt_waiter_workflow_uuid w = dest \<and> wt_awaited_workflow_uuid w = dest) (workflow_waiters db)"
    if "self_waiter dest \<in> set (workflow_waiters db)"
    using that by (force simp: self_waiter_def)
  then have "find_wf dest (wake_receiver wakeNow dest (db\<lparr>notifications := notifications db @ [n]\<rparr>)) = Some (wake_set wakeNow r)"
    if "find_wf dest db = Some r" "ws_status r = WorkflowStatusDelayed" "self_waiter dest \<in> set (workflow_waiters db)" for r
    using that lookup_by_SomeD [OF that(1)]
    by (simp add: wake_receiver_def lookup_by_update_where wake.keeps_uuid wake_where_def)
  moreover have "n\<lparr>nt_created_at_epoch_ms := UnixMilli now\<rparr> = n" by (simp add: n_def)
  ultimately show ?thesis using pend send [of now wakeNow db]
      send [of now2 wakeNow2 "wake_receiver wakeNow dest (db\<lparr>notifications := notifications db @ [n]\<rparr>)"]
    by (auto simp: message_view_def n_def)
qed

definition sample_send :: WorkflowSendInput where
  "sample_send = \<lparr>si_DestinationID = ''a'', si_Message = Some (Some ''hi''), si_Topic = [], si_Serialization = [],
     si_IdempotencyKey = ''k'', si_MessageUUID = None\<rparr>"

theorem send_enqueues_once_witness:
  "\<exists>db' n. Send 5000000 5000000 ''u'' sample_send sample_family = Inr ((), db') \<and>
     pending_messages ''a'' NullTopic db' = [n] \<and> message_view n = (''hi'', Some [], ''k::a'')"
proof -
  have p: "pending_messages ''a'' NullTopic sample_family = []"
    and f: "find_wf ''a'' sample_family \<noteq> None" and n: "notifications sample_family = []"
    by (simp_all add: pending_messages_def sample_family_def empty_sysdb_def order_by_def)
  have m: "si_Message sample_send = Some (Some ''hi'')" "''k::a'' = message_uuid ''u'' sample_send"
    "''a'' = si_DestinationID sample_send" "NullTopic = send_topic sample_send" "si_Serialization sample_send = []"
    by (simp_all add: sample_send_def message_uuid_def send_topic_def)
  have "''k::a'' \<notin> nt_message_uuid ` set (notifications sample_family)" using n by simp
  from send_enqueues_once [OF m(1-4), of sample_family 5000000 5000000] this f p
  show ?thesis unfolding m(5) by (simp only: if_False list.set ball_empty append_Nil) blast
qed

section \<open>Events keep the last value\<close>

lemma SetEvent_cases:
  assumes "SetEvent now inp db = Inr ((), db')"
  obtains v db1 where "se_Message inp = Some (Some v)" and "find_wf (se_WorkflowID inp) db \<noteq> None"
    and "db' = notifyWorkflowWaiters now (se_WorkflowID inp) db1"
    and "workflow_status db1 = workflow_status db" and "workflow_waiters db1 = workflow_waiters db"
    and "workflow_events db1 = upsert event_key
       \<lparr>ev_workflow_uuid = se_WorkflowID inp, ev_key = se_Key inp, ev_value = v, ev_serialization = Some (se_Serialization inp)\<rparr>
       (\<lambda>r. r\<lparr>ev_value := v, ev_serialization := Some (se_Serialization inp)\<rparr>) (workflow_events db)"
    and "workflow_events_history db1 = upsert history_key
       \<lparr>eh_workflow_uuid = se_WorkflowID inp, eh_function_id = se_StepID inp, eh_key = se_Key inp,
        eh_value = v, eh_serialization = Some (se_Serialization inp)\<rparr>
       (\<lambda>r. r\<lparr>eh_value := v, eh_serialization := Some (se_Serialization inp)\<rparr>) (workflow_events_history db)"
    and "db1 = db\<lparr>workflow_events := workflow_events db1, workflow_events_history := workflow_events_history db1\<rparr>"
  using assms by (auto simp: SetEvent_def Let_def split: option.splits if_splits)

text \<open>
  After an event is set, reading it returns the value just set and every other event of any
  workflow reads as before; the value is also kept in the history under the step that set it. Every
  workflow suspended on events of this one becomes due at once.
\<close>

theorem event_last_write_wins:
  assumes "SetEvent now inp db = Inr ((), db')" and "se_Message inp = Some (Some v)"
  shows "GetEventValue wid key db' =
      (if wid = se_WorkflowID inp \<and> key = se_Key inp then (Some v, Some (se_Serialization inp))
       else GetEventValue wid key db) \<and>
    (\<exists>h. lookup_by history_key (se_WorkflowID inp, se_StepID inp, se_Key inp) (workflow_events_history db') = Some h \<and>
       eh_value h = v) \<and>
    (\<forall>w r. find_wf w db = Some r \<and> ws_status r = WorkflowStatusDelayed \<and>
       \<lparr>wt_waiter_workflow_uuid = w, wt_awaited_workflow_uuid = se_WorkflowID inp\<rparr> \<in> set (workflow_waiters db) \<longrightarrow>
       find_wf w db' = Some (wake_set now r))"
proof -
  obtain db1 where db1: "db' = notifyWorkflowWaiters now (se_WorkflowID inp) db1"
    "workflow_status db1 = workflow_status db" "workflow_waiters db1 = workflow_waiters db"
    "workflow_events db1 = upsert event_key
       \<lparr>ev_workflow_uuid = se_WorkflowID inp, ev_key = se_Key inp, ev_value = v, ev_serialization = Some (se_Serialization inp)\<rparr>
       (\<lambda>r. r\<lparr>ev_value := v, ev_serialization := Some (se_Serialization inp)\<rparr>) (workflow_events db)"
    "workflow_events_history db1 = upsert history_key
       \<lparr>eh_workflow_uuid = se_WorkflowID inp, eh_function_id = se_StepID inp, eh_key = se_Key inp,
        eh_value = v, eh_serialization = Some (se_Serialization inp)\<rparr>
       (\<lambda>r. r\<lparr>eh_value := v, eh_serialization := Some (se_Serialization inp)\<rparr>) (workflow_events_history db)"
    using assms(1) by (rule SetEvent_cases) (use assms(2) in simp)
  have "GetEventValue wid key db' =
      (if wid = se_WorkflowID inp \<and> key = se_Key inp then (Some v, Some (se_Serialization inp)) else GetEventValue wid key db)"
    by (auto simp: GetEventValue_def db1 notifyWorkflowWaiters_def lookup_by_upsert split: option.splits)
  moreover have "\<exists>h. lookup_by history_key (se_WorkflowID inp, se_StepID inp, se_Key inp) (workflow_events_history db') = Some h \<and>
       eh_value h = v"
    by (auto simp: db1 notifyWorkflowWaiters_def lookup_by_upsert split: option.splits)
  moreover have "find_wf w db' = Some (wake_set now r)"
    if "find_wf w db = Some r" "ws_status r = WorkflowStatusDelayed"
      "\<lparr>wt_waiter_workflow_uuid = w, wt_awaited_workflow_uuid = se_WorkflowID inp\<rparr> \<in> set (workflow_waiters db)" for w r
    using that lookup_by_SomeD [OF that(1)] waiting_for_iff [of w "se_WorkflowID inp" db]
    by (simp add: db1 notifyWorkflowWaiters_def wake.find wake_where_def waiting_for_def)
  ultimately show ?thesis by blast
qed

theorem event_last_write_wins_witness:
  "\<exists>db'. SetEvent 0 \<lparr>se_Key = ''k'', se_Message = Some (Some ''v''), se_Serialization = [], se_WorkflowID = ''a'',
       se_StepID = 1\<rparr> sample_family = Inr ((), db') \<and> GetEventValue ''a'' ''k'' db' = (Some ''v'', Some [])"
proof -
  let ?inp = "\<lparr>se_Key = ''k'', se_Message = Some (Some ''v''), se_Serialization = [], se_WorkflowID = ''a'', se_StepID = 1\<rparr>"
  obtain db' where "SetEvent 0 ?inp sample_family = Inr ((), db')"
    by (simp add: SetEvent_def sample_family_def Let_def)
  with event_last_write_wins [OF this, of "''v''" "''a''" "''k''"] show ?thesis by simp
qed

lemma SetEvent_inv:
  assumes "db_inv db" and "SetEvent now inp db = Inr ((), db')"
  shows "db_inv db'"
  using assms(2)
proof (rule SetEvent_cases)
  fix v db1
  let ?e = "\<lparr>ev_workflow_uuid = se_WorkflowID inp, ev_key = se_Key inp, ev_value = v, ev_serialization = Some (se_Serialization inp)\<rparr>"
  let ?fe = "\<lambda>r. r\<lparr>ev_value := v, ev_serialization := Some (se_Serialization inp)\<rparr>"
  let ?h = "\<lparr>eh_workflow_uuid = se_WorkflowID inp, eh_function_id = se_StepID inp, eh_key = se_Key inp,
        eh_value = v, eh_serialization = Some (se_Serialization inp)\<rparr>"
  let ?fh = "\<lambda>r. r\<lparr>eh_value := v, eh_serialization := Some (se_Serialization inp)\<rparr>"
  assume wf: "find_wf (se_WorkflowID inp) db \<noteq> None"
    and db': "db' = notifyWorkflowWaiters now (se_WorkflowID inp) db1"
    and ev: "workflow_events db1 = upsert event_key ?e ?fe (workflow_events db)"
    and eh: "workflow_events_history db1 = upsert history_key ?h ?fh (workflow_events_history db)"
    and db1: "db1 = db\<lparr>workflow_events := workflow_events db1, workflow_events_history := workflow_events_history db1\<rparr>"
  have "event_key ` set (workflow_events db1) = insert (event_key ?e) (event_key ` set (workflow_events db))"
    unfolding ev by (rule set_upsert_key) simp
  then have "ev_workflow_uuid ` set (workflow_events db1) = insert (se_WorkflowID inp) (ev_workflow_uuid ` set (workflow_events db))"
    by (simp add: image_image set_eq_iff image_iff) (metis fst_conv)
  moreover have "history_key ` set (workflow_events_history db1) = insert (history_key ?h) (history_key ` set (workflow_events_history db))"
    unfolding eh by (rule set_upsert_key) simp
  then have "fst ` history_key ` set (workflow_events_history db1) =
      insert (se_WorkflowID inp) (fst ` history_key ` set (workflow_events_history db))" by simp
  then have "eh_workflow_uuid ` set (workflow_events_history db1) =
      insert (se_WorkflowID inp) (eh_workflow_uuid ` set (workflow_events_history db))" by (simp add: image_image)
  moreover have "distinct (map event_key (workflow_events db1))" "distinct (map history_key (workflow_events_history db1))"
    using assms(1) unfolding ev eh by (auto simp: db_inv_def pk_ok_def intro!: distinct_upsert)
  moreover have "se_WorkflowID inp \<in> ws_workflow_uuid ` set (workflow_status db)"
    using wf by (simp add: lookup_by_eq_None)
  ultimately have "db_inv db1"
    using assms(1) by (subst db1) (simp add: db_inv_def pk_ok_def fk_ok_def Let_def)
  then show ?thesis by (simp add: db' notifyWorkflowWaiters_def wake.preserves_inv)
qed

section \<open>Streams are append-only\<close>

text \<open>The offsets of a stream are an initial segment of the natural numbers.\<close>

definition stream_contiguous :: "stream_row list \<Rightarrow> bool" where
  "stream_contiguous rows \<longleftrightarrow> distinct (map st_offset rows) \<and> st_offset ` set rows = {0..<int (length rows)}"

lemma fold_max_ge: "(m :: int) \<le> fold max xs m \<and> (\<forall>x \<in> set xs. x \<le> fold max xs m)"
proof (induction xs arbitrary: m)
  case (Cons a xs)
  show ?case using Cons [of "max a m"] by auto
qed simp

lemma fold_max_in: "fold max xs (m :: int) \<in> insert m (set xs)"
  by (induction xs arbitrary: m) (auto simp: max_def)

lemma next_offset_contiguous:
  assumes "stream_contiguous rows"
  shows "next_offset rows = int (length rows)"
proof (cases rows)
  case (Cons r rs)
  let ?m = "fold max (map st_offset rs) (st_offset r)"
  have "?m \<in> st_offset ` set rows" using fold_max_in [of "map st_offset rs" "st_offset r"] Cons by auto
  then have "?m < int (length rows)" using assms by (auto simp: stream_contiguous_def)
  moreover have "int (length rows) - 1 \<in> st_offset ` set rows"
    using assms Cons by (auto simp: stream_contiguous_def)
  then have "int (length rows) - 1 \<le> ?m"
    using fold_max_ge [of "st_offset r" "map st_offset rs"] Cons by auto
  ultimately show ?thesis using Cons by (simp add: next_offset_def)
qed (simp add: next_offset_def)

lemma stream_contiguous_lt:
  assumes "stream_contiguous rows" and "r \<in> set rows"
  shows "st_offset r < int (length rows)"
proof -
  have "st_offset r \<in> {0..<int (length rows)}"
    using assms unfolding stream_contiguous_def by (metis imageI)
  then show ?thesis by simp
qed

lemma stream_contiguous_snoc:
  "stream_contiguous rows \<Longrightarrow> st_offset r = int (length rows) \<Longrightarrow> stream_contiguous (rows @ [r])"
  by (auto simp: stream_contiguous_def)

lemma read_entries_eq:
  "read_entries rows = (map (stream_entry []) (takeWhile (\<lambda>r. st_value r \<noteq> StreamClosedSentinel) rows),
     \<exists>r \<in> set rows. st_value r = StreamClosedSentinel)"
  by (induction rows) auto

lemma ReadStream_open:
  assumes "\<forall>r \<in> set (stream_rows wid key db). st_value r \<noteq> StreamClosedSentinel"
  shows "ReadStream wid key k db =
    (map (stream_entry []) (order_by st_offset (filter (\<lambda>r. k \<le> st_offset r) (stream_rows wid key db))), False)"
proof -
  have tw: "takeWhile (\<lambda>r. st_value r \<noteq> StreamClosedSentinel)
      (order_by st_offset (filter (\<lambda>r. k \<le> st_offset r) (stream_rows wid key db))) =
      order_by st_offset (filter (\<lambda>r. k \<le> st_offset r) (stream_rows wid key db))"
    using assms by (simp add: takeWhile_eq_all_conv)
  show ?thesis unfolding ReadStream_def read_entries_eq tw using assms by simp
qed

lemma ReadStream_snoc:
  assumes "stream_rows wid key db' = stream_rows wid key db @ [new]"
    and "\<forall>r \<in> set (stream_rows wid key db). st_value r \<noteq> StreamClosedSentinel"
    and "\<And>r. r \<in> set (stream_rows wid key db) \<Longrightarrow> st_offset r \<le> st_offset new" and "k \<le> st_offset new"
  shows "ReadStream wid key k db' =
      (if st_value new = StreamClosedSentinel then (fst (ReadStream wid key k db), True)
       else (fst (ReadStream wid key k db) @ [stream_entry [] new], False))"
proof -
  let ?rows = "order_by st_offset (filter (\<lambda>r. k \<le> st_offset r) (stream_rows wid key db))"
  have "order_by st_offset (filter (\<lambda>r. k \<le> st_offset r) (stream_rows wid key db')) = ?rows @ [new]"
    using assms(1,3,4) by (auto intro!: order_by_append_max)
  moreover have "takeWhile (\<lambda>r. st_value r \<noteq> StreamClosedSentinel) (?rows @ [new]) =
      ?rows @ (if st_value new = StreamClosedSentinel then [] else [new])"
    using assms(2) by (subst takeWhile_append2) auto
  ultimately show ?thesis using assms(2)
    by (auto simp: ReadStream_def [of wid key k db'] read_entries_eq ReadStream_open [OF assms(2)])
qed

text \<open>
  Streams are append-only with consecutive offsets. A write to an open stream puts the value
  behind all earlier ones at the next offset, touches no other stream, and a reader that starts at
  any offset sees exactly the values from there on; writing the sentinel closes the stream for
  readers without showing up as a value; a closed stream refuses every write.
\<close>

theorem stream_append_only:
  assumes "stream_contiguous (stream_rows wid key db)" and "wid = wi_WorkflowID inp" and "key = wi_Key inp"
  shows "(case WriteStream inp db of
      Inl _ \<Rightarrow> snd (ReadStream wid key 0 db) \<or> wi_Value inp = None \<or> find_wf wid db = None
    | Inr (_, db') \<Rightarrow>
        \<not> snd (ReadStream wid key 0 db) \<and> stream_contiguous (stream_rows wid key db') \<and>
        (\<forall>wid' key'. (wid', key') \<noteq> (wid, key) \<longrightarrow> stream_rows wid' key' db' = stream_rows wid' key' db) \<and>
        (\<forall>k. 0 \<le> k \<and> k \<le> int (length (stream_rows wid key db)) \<longrightarrow>
          ReadStream wid key k db' =
            (if wi_Value inp = Some StreamClosedSentinel then (fst (ReadStream wid key k db), True)
             else (fst (ReadStream wid key k db) @
               [\<lparr>en_Key = [], en_Value = the (wi_Value inp), en_Offset = int (length (stream_rows wid key db)),
                 en_Serialization = wi_Serialization inp\<rparr>], False))))"
proof (cases "\<exists>db'. WriteStream inp db = Inr ((), db')")
  case False
  then show ?thesis using assms(2,3)
    by (auto simp: WriteStream_def Let_def ReadStream_def read_entries_eq stream_contiguous_def
        split: option.splits if_splits sum.splits)
      (use assms(1) in \<open>force simp: stream_contiguous_def\<close>)
next
  case True
  then obtain db' where w: "WriteStream inp db = Inr ((), db')" by blast
  let ?rows = "stream_rows wid key db"
  let ?new = "\<lparr>st_workflow_uuid = wid, st_key = key, st_value = the (wi_Value inp), st_offset = int (length ?rows),
     st_function_id = wi_StepID inp, st_serialization = Some (wi_Serialization inp)\<rparr>"
  have db': "db' = db\<lparr>streams := streams db @ [?new]\<rparr>" "wi_Value inp \<noteq> None"
    and opn: "\<forall>r \<in> set ?rows. st_value r \<noteq> StreamClosedSentinel"
    using w assms(2,3) next_offset_contiguous [OF assms(1)]
    by (auto simp: WriteStream_def Let_def split: option.splits if_splits)
  have rows: "stream_rows wid key db' = ?rows @ [?new]"
    and other: "(wid', key') \<noteq> (wid, key) \<Longrightarrow> stream_rows wid' key' db' = stream_rows wid' key' db" for wid' key'
    by (auto simp: stream_rows_def db')
  have "ReadStream wid key k db' =
      (if wi_Value inp = Some StreamClosedSentinel then (fst (ReadStream wid key k db), True)
       else (fst (ReadStream wid key k db) @ [stream_entry [] ?new], False))"
    if "k \<le> int (length ?rows)" for k
  proof -
    have "st_offset r \<le> st_offset ?new" if "r \<in> set ?rows" for r
      using stream_contiguous_lt [OF assms(1) that] by simp
    then show ?thesis using ReadStream_snoc [OF rows opn, of k] that db'(2) by auto
  qed
  then show ?thesis unfolding w using other opn rows stream_contiguous_snoc [OF assms(1), of ?new]
    by (auto simp: ReadStream_open [OF opn] stream_entry_def)
qed

theorem stream_append_only_witness:
  "\<exists>db'. WriteStream \<lparr>wi_Key = ''s'', wi_Value = Some ''v'', wi_Serialization = [], wi_WorkflowID = ''a'', wi_StepID = 1\<rparr>
       sample_family = Inr ((), db') \<and>
     ReadStream ''a'' ''s'' 0 db' = ([\<lparr>en_Key = [], en_Value = ''v'', en_Offset = 0, en_Serialization = []\<rparr>], False)"
proof -
  let ?inp = "\<lparr>wi_Key = ''s'', wi_Value = Some ''v'', wi_Serialization = [], wi_WorkflowID = ''a'', wi_StepID = 1\<rparr>"
  have rows: "stream_rows ''a'' ''s'' sample_family = []"
    by (simp add: stream_rows_def sample_family_def empty_sysdb_def)
  obtain db' where w: "WriteStream ?inp sample_family = Inr ((), db')"
    using rows by (simp add: WriteStream_def sample_family_def Let_def)
  have "stream_contiguous (stream_rows ''a'' ''s'' sample_family)" by (simp add: rows stream_contiguous_def)
  from stream_append_only [OF this, of ?inp] w show ?thesis
    by (auto simp: rows ReadStream_def [of _ _ _ sample_family] StreamClosedSentinel_def order_by_def)
qed

lemma WriteStream_inv:
  assumes "db_inv db" and "\<forall>wid key. stream_contiguous (stream_rows wid key db)"
    and "WriteStream inp db = Inr ((), db')"
  shows "db_inv db' \<and> (\<forall>wid key. stream_contiguous (stream_rows wid key db'))"
proof -
  let ?wid = "wi_WorkflowID inp" and ?key = "wi_Key inp"
  let ?new = "\<lparr>st_workflow_uuid = ?wid, st_key = ?key, st_value = the (wi_Value inp),
     st_offset = int (length (stream_rows ?wid ?key db)),
     st_function_id = wi_StepID inp, st_serialization = Some (wi_Serialization inp)\<rparr>"
  have contig: "stream_contiguous (stream_rows ?wid ?key db)" using assms(2) by blast
  have db': "db' = db\<lparr>streams := streams db @ [?new]\<rparr>" "find_wf ?wid db \<noteq> None"
    using assms(3) next_offset_contiguous [OF contig] by (auto simp: WriteStream_def Let_def split: option.splits if_splits)
  have "st_offset r \<noteq> st_offset ?new" if "r \<in> set (streams db)" "st_workflow_uuid r = ?wid" "st_key r = ?key" for r
    using stream_contiguous_lt [OF contig, of r] that by (simp add: stream_rows_def)
  then have "stream_key ?new \<notin> stream_key ` set (streams db)" by (auto; metis)
  then have "db_inv db'" unfolding db'(1) using assms(1) db'(2)
    by (simp add: db_inv_def pk_ok_def fk_ok_def Let_def lookup_by_eq_None)
  moreover have "stream_contiguous (stream_rows wid key db')" for wid key
    using assms(2) stream_contiguous_snoc [OF contig, of ?new] by (auto simp: stream_rows_def db'(1))
  ultimately show ?thesis by blast
qed

lemma db_inv_with_notifications:
  assumes "db_inv db" and "map nt_message_uuid ns = map nt_message_uuid (notifications db)"
    and "map nt_destination_uuid ns = map nt_destination_uuid (notifications db)"
  shows "db_inv (db\<lparr>notifications := ns\<rparr>)"
proof -
  have "nt_destination_uuid ` set ns = nt_destination_uuid ` set (notifications db)"
    using assms(3) by (metis set_map)
  then show ?thesis using assms(1,2) by (simp add: db_inv_def pk_ok_def fk_ok_def)
qed

lemma ConsumeMessageWithUUID_inv:
  "db_inv db \<Longrightarrow> ConsumeMessageWithUUID dest topic db = (res, db') \<Longrightarrow> db_inv db'"
  by (auto simp: ConsumeMessageWithUUID_def update_where_keeps split: list.splits intro!: db_inv_with_notifications)

section \<open>Polling for waiters\<close>

text \<open>\<^verbatim>\<open>strings.Cut(s, "::")\<close>: the part before the first separator, when there is one.\<close>

fun cut_separator :: "string \<Rightarrow> string option" where
  "cut_separator [] = None"
| "cut_separator (c # s) =
     (if c = CHR '':'' \<and> s \<noteq> [] \<and> hd s = CHR '':'' then Some []
      else map_option ((#) c) (cut_separator s))"

text \<open>\<^verbatim>\<open>splitPayloads\<close>: the well-formed payloads and the distinct ids in order of first appearance.\<close>

fun splitPayloads_from :: "string list \<Rightarrow> string list \<Rightarrow> string list \<times> string list" where
  "splitPayloads_from seen [] = ([], [])"
| "splitPayloads_from seen (p # ps) =
     (case cut_separator p of
        None \<Rightarrow> splitPayloads_from seen ps
      | Some i \<Rightarrow>
          (case splitPayloads_from (i # seen) ps of
             (wanted, ids) \<Rightarrow> (p # wanted, if i \<in> set seen then ids else i # ids)))"

definition splitPayloads :: "string list \<Rightarrow> string list \<times> string list" where
  "splitPayloads payloads = splitPayloads_from [] payloads"

definition payload :: "string \<Rightarrow> string \<Rightarrow> string" where
  "payload wid key = wid @ ''::'' @ key"

text \<open>The payloads one tick notifies, given the registered ones.\<close>

definition pollNotifications :: "string list \<Rightarrow> sysdb \<Rightarrow> string list" where
  "pollNotifications registered db =
     (case splitPayloads registered of
        (wanted, destinations) \<Rightarrow>
          if destinations = [] then []
          else filter (\<lambda>p. p \<in> set wanted)
            (map (\<lambda>(d, t). payload d t)
              (remdups (map (\<lambda>r. (nt_destination_uuid r, nt_topic r))
                (filter (\<lambda>r. \<not> nt_consumed r \<and> nt_destination_uuid r \<in> set destinations) (notifications db))))))"

definition pollEvents :: "string list \<Rightarrow> sysdb \<Rightarrow> string list" where
  "pollEvents registered db =
     (case splitPayloads registered of
        (wanted, workflowIDs) \<Rightarrow>
          if workflowIDs = [] then []
          else filter (\<lambda>p. p \<in> set wanted)
            (map (\<lambda>r. payload (ev_workflow_uuid r) (ev_key r))
              (filter (\<lambda>r. ev_workflow_uuid r \<in> set workflowIDs) (workflow_events db))))"

lemma splitPayloads_from_sets:
  "set (fst (splitPayloads_from seen ps)) = {p \<in> set ps. cut_separator p \<noteq> None} \<and>
   set (snd (splitPayloads_from seen ps)) \<union> set seen = {i. \<exists>p \<in> set ps. cut_separator p = Some i} \<union> set seen"
proof (induction ps arbitrary: seen)
  case (Cons p ps)
  show ?case
  proof (cases "cut_separator p")
    case None
    then show ?thesis using Cons [of seen] by auto
  next
    case (Some i)
    obtain w js where r: "splitPayloads_from (i # seen) ps = (w, js)" by fastforce
    show ?thesis using Cons [of "i # seen"] Some r by auto
  qed
qed simp

lemma splitPayloads_sets:
  "set (fst (splitPayloads ps)) = {p \<in> set ps. cut_separator p \<noteq> None}"
  "set (snd (splitPayloads ps)) = {i. \<exists>p \<in> set ps. cut_separator p = Some i}"
  using splitPayloads_from_sets [of "[]" ps] by (simp_all add: splitPayloads_def)

lemma set_pollNotifications:
  "set (pollNotifications registered db) =
     {payload (nt_destination_uuid r) (nt_topic r) | r. r \<in> set (notifications db) \<and> \<not> nt_consumed r \<and>
        (\<exists>p \<in> set registered. cut_separator p = Some (nt_destination_uuid r)) \<and>
        payload (nt_destination_uuid r) (nt_topic r) \<in> set registered \<and>
        cut_separator (payload (nt_destination_uuid r) (nt_topic r)) \<noteq> None}"
proof -
  obtain wanted ids where sp: "splitPayloads registered = (wanted, ids)" by fastforce
  have "set wanted = {p \<in> set registered. cut_separator p \<noteq> None}"
    "set ids = {i. \<exists>p \<in> set registered. cut_separator p = Some i}"
    using splitPayloads_sets [of registered] sp by simp_all
  moreover have "set (pollNotifications registered db) =
      {payload (nt_destination_uuid r) (nt_topic r) | r. r \<in> set (notifications db) \<and> \<not> nt_consumed r \<and>
         nt_destination_uuid r \<in> set ids \<and> payload (nt_destination_uuid r) (nt_topic r) \<in> set wanted}"
    by (cases "ids = []") (auto simp: pollNotifications_def sp)
  ultimately show ?thesis by simp
qed

lemma cut_payload: "cut_separator (wid @ '':'') = None \<Longrightarrow> cut_separator (payload wid key) = Some wid"
proof (induction wid)
  case (Cons c wid)
  then show ?case by (cases wid) (auto simp: payload_def split: if_splits)
qed (simp add: payload_def)

lemma cut_separator_free: "cut_separator p = Some i \<Longrightarrow> cut_separator (i @ '':'') = None"
proof (induction p arbitrary: i)
  case (Cons c p)
  then show ?case by (cases p) (auto split: if_splits)
qed simp

text \<open>
  On databases without notifications, one tick of the poller wakes a registered receiver
  exactly when an unconsumed message waits for it, provided that no workflow id of a registered
  receiver contains the separator \<^verbatim>\<open>::\<close> (or ends in a colon).
\<close>

theorem poll_wakes_waiting_receivers:
  assumes "\<forall>p \<in> set registered. \<exists>d t. p = payload d t \<and> cut_separator (d @ '':'') = None"
    and "payload dest topic \<in> set registered" and "cut_separator (dest @ '':'') = None"
  shows "payload dest topic \<in> set (pollNotifications registered db) \<longleftrightarrow>
    (\<exists>r \<in> set (notifications db). \<not> nt_consumed r \<and> nt_destination_uuid r = dest \<and> nt_topic r = topic)"
proof -
  have eq: "d = dest \<and> t = topic" if "payload d t = payload dest topic" "cut_separator (d @ '':'') = None" for d t
    using cut_payload [OF that(2), of t] cut_payload [OF assms(3), of topic] that(1) by (simp add: payload_def)
  have "cut_separator (payload dest topic) = Some dest" by (rule cut_payload [OF assms(3)])
  then show ?thesis unfolding set_pollNotifications using assms(2) eq cut_separator_free by auto
qed

theorem poll_wakes_waiting_receivers_witness:
  "payload ''a'' ''t'' \<in> set (pollNotifications [payload ''a'' ''t'']
     (empty_sysdb\<lparr>notifications := [sample_message ''m1'' 3]\<rparr>))"
  using poll_wakes_waiting_receivers [of "[payload ''a'' ''t'']" "''a''" "''t''"
      "empty_sysdb\<lparr>notifications := [sample_message ''m1'' 3]\<rparr>"]
  by (force simp: sample_message_def)

text \<open>
  The proviso is needed: a receiver whose own id contains the separator is split at the wrong
  place, and the poller never sees its messages.
\<close>

lemma poll_misses_ids_with_separator:
  assumes "cut_separator (dest @ '':'') \<noteq> None"
    and "\<forall>r \<in> set (notifications db). nt_destination_uuid r = dest"
  shows "pollNotifications [payload dest topic] db = []"
proof -
  have "cut_separator (payload dest topic) \<noteq> Some dest" using cut_separator_free [of "payload dest topic" dest] assms(1) by auto
  then have "set (pollNotifications [payload dest topic] db) = {}"
    unfolding set_pollNotifications using assms(2) by auto
  then show ?thesis by simp
qed

end
