(* ===== verification/Versions.thy ===== *)
theory Versions
  imports Tables
begin

text \<open>
  Application versions: registration, re-timing, listing and the choice of the latest version that
  the dequeue step consults (\<^verbatim>\<open>CreateApplicationVersion\<close>, \<^verbatim>\<open>UpdateApplicationVersionTimestamp\<close>,
  \<^verbatim>\<open>ListApplicationVersions\<close> and \<^verbatim>\<open>GetLatestApplicationVersion\<close> of \<^verbatim>\<open>system_database.go\<close>).
\<close>

record VersionInfo =
  vi_ID :: string
  vi_Name :: string
  vi_Timestamp :: int
  vi_CreatedAt :: int
  vi_ApplicationName :: string

definition version_info :: "version_row \<Rightarrow> VersionInfo" where
  "version_info r = \<lparr>vi_ID = av_version_id r, vi_Name = av_version_name r,
     vi_Timestamp = av_version_timestamp r, vi_CreatedAt = av_created_at r,
     vi_ApplicationName = derefStr (av_application_name r)\<rparr>"

abbreviation find_version :: "string \<Rightarrow> sysdb \<Rightarrow> version_row option" where
  "find_version name db \<equiv> lookup_by av_version_name name (application_versions db)"

definition versionOwner :: "string \<Rightarrow> string option \<Rightarrow> sysdb \<Rightarrow> string option res" where
  "versionOwner name own db =
     resolveRowOwner (map_option av_application_name (find_version name db)) name own ''Application version''"

text \<open>
  The insert carries \<^verbatim>\<open>ON CONFLICT DO NOTHING\<close>: both the primary key and the unique version name
  make it decline. \<open>uuid\<close> is the generated version id.
\<close>

definition insert_version :: "version_row \<Rightarrow> version_row list \<Rightarrow> version_row list" where
  "insert_version r rows =
     (if exists_where (\<lambda>x. av_version_id x = av_version_id r \<or> av_version_name x = av_version_name r) rows
      then rows else rows @ [r])"

definition claim_where :: "string \<Rightarrow> version_row \<Rightarrow> bool" where
  "claim_where name r = (av_version_name r = name \<and> av_application_name r = None)"

definition CreateApplicationVersion ::
  "instant \<Rightarrow> string \<Rightarrow> string \<Rightarrow> string option \<Rightarrow> sysdb \<Rightarrow> (unit \<times> sysdb) res" where
  "CreateApplicationVersion now uuid name own db =
     (let claimed = count_where (claim_where name) (application_versions db);
          db1 = db\<lparr>application_versions :=
            update_where (claim_where name) (\<lambda>r. r\<lparr>av_application_name := own\<rparr>) (application_versions db)\<rparr>;
          db2 = (if claimed = 0
                 then db1\<lparr>application_versions := insert_version
                        \<lparr>av_version_id = uuid, av_version_name = name, av_version_timestamp = UnixMilli now,
                         av_created_at = UnixMilli now, av_application_name = own\<rparr> (application_versions db1)\<rparr>
                 else db1)
      in case versionOwner name own db2 of Inl e \<Rightarrow> Inl e | Inr _ \<Rightarrow> Inr ((), db2))"

definition UpdateApplicationVersionTimestamp ::
  "string \<Rightarrow> int \<Rightarrow> string option \<Rightarrow> sysdb \<Rightarrow> (unit \<times> sysdb) res" where
  "UpdateApplicationVersionTimestamp name ts own db =
     (case versionOwner name own db of
        Inl e \<Rightarrow> Inl e
      | Inr resolved \<Rightarrow>
          Inr ((), db\<lparr>application_versions := update_where
            (\<lambda>r. av_version_name r = name \<and>
               (case resolved of
                  Some o' \<Rightarrow> av_application_name r = Some o' \<or> av_application_name r = None
                | None \<Rightarrow> av_application_name r = None))
            (\<lambda>r. r\<lparr>av_version_timestamp := ts, av_application_name := resolved\<rparr>)
            (application_versions db)\<rparr>))"

definition ListApplicationVersions :: "SysDB \<Rightarrow> sysdb \<Rightarrow> VersionInfo list" where
  "ListApplicationVersions s db =
     map version_info (order_by_desc av_version_timestamp
       (filter (\<lambda>r. nameFilter s (av_application_name r)) (application_versions db)))"

definition GetLatestApplicationVersion :: "SysDB \<Rightarrow> string \<Rightarrow> sysdb \<Rightarrow> VersionInfo res" where
  "GetLatestApplicationVersion s applicationName db =
     (let own = (if applicationName = [] then appName s else applicationName) in
      case limit_rows 1 (order_by_desc av_version_timestamp
             (filter (\<lambda>r. own = [] \<or> av_application_name r = Some own \<or> av_application_name r = None)
                (application_versions db))) of
        [] \<Rightarrow> Inl NewNoApplicationVersionsError
      | r # _ \<Rightarrow> Inr (version_info r))"

section \<open>Ownership of a version name\<close>

lemma find_version_claim:
  "lookup_by av_version_name n
      (update_where (claim_where name) (\<lambda>r. r\<lparr>av_application_name := own\<rparr>) rows) =
    map_option (\<lambda>r. if claim_where name r then r\<lparr>av_application_name := own\<rparr> else r)
      (lookup_by av_version_name n rows)"
  by (simp add: lookup_by_update_where)

lemma claimed_iff:
  assumes "distinct (map av_version_name (application_versions db))"
  shows "count_where (claim_where name) (application_versions db) = 0 \<longleftrightarrow>
    (case find_version name db of None \<Rightarrow> True | Some r \<Rightarrow> av_application_name r \<noteq> None)"
proof -
  have "count_where (claim_where name) (application_versions db) = 0 \<longleftrightarrow>
      (\<forall>r \<in> set (application_versions db). \<not> claim_where name r)"
    by (auto simp: count_where_def filter_empty_conv)
  also have "\<dots> \<longleftrightarrow> (case find_version name db of None \<Rightarrow> True | Some r \<Rightarrow> av_application_name r \<noteq> None)"
    using assms by (auto simp: claim_where_def lookup_by_in_iff lookup_by_eq_None distinct_map
        dest: inj_onD split: option.splits)
  finally show ?thesis .
qed

lemma CreateApplicationVersion_new:
  assumes "distinct (map av_version_name (application_versions db))"
    and "uuid \<notin> av_version_id ` set (application_versions db)" and "find_version name db = None"
  shows "CreateApplicationVersion now uuid name own db =
    Inr ((), db\<lparr>application_versions := application_versions db @
      [\<lparr>av_version_id = uuid, av_version_name = name, av_version_timestamp = UnixMilli now,
        av_created_at = UnixMilli now, av_application_name = own\<rparr>]\<rparr>)"
proof -
  have rows: "update_where (claim_where name) (\<lambda>r. r\<lparr>av_application_name := own\<rparr>)
      (application_versions db) = application_versions db"
    using assms(3) by (intro update_where_none) (auto simp: claim_where_def lookup_by_eq_None)
  have "\<not> exists_where (\<lambda>x. av_version_id x = uuid \<or> av_version_name x = name) (application_versions db)"
    using assms(2,3) by (auto simp: lookup_by_eq_None)
  then show ?thesis using claimed_iff [OF assms(1), of name] assms(3) rows
    by (cases own) (simp_all add: CreateApplicationVersion_def Let_def versionOwner_def
        resolveRowOwner_def insert_version_def lookup_by_append)
qed

lemma CreateApplicationVersion_existing:
  assumes "distinct (map av_version_name (application_versions db))"
    and "find_version name db = Some r0"
  shows "CreateApplicationVersion now uuid name own db =
    (case (av_application_name r0, own) of
       (Some current, Some o') \<Rightarrow>
         if current = o' then Inr ((), db)
         else Inl (NewNameOwnedByPeerError ''Application version'' name current o')
     | (Some current, None) \<Rightarrow> Inr ((), db)
     | (None, _) \<Rightarrow> Inr ((), db\<lparr>application_versions :=
         update_where (claim_where name) (\<lambda>r. r\<lparr>av_application_name := own\<rparr>) (application_versions db)\<rparr>))"
proof (cases "av_application_name r0")
  case None
  then show ?thesis using claimed_iff [OF assms(1), of name] assms(2) lookup_by_SomeD [OF assms(2)]
    by (cases own) (simp_all add: CreateApplicationVersion_def Let_def versionOwner_def
        find_version_claim claim_where_def resolveRowOwner_def)
next
  case (Some current)
  have "count_where (claim_where name) (application_versions db) = 0"
    using claimed_iff [OF assms(1), of name] assms(2) Some by simp
  then have "update_where (claim_where name) (\<lambda>r. r\<lparr>av_application_name := own\<rparr>)
      (application_versions db) = application_versions db"
    by (intro update_where_none) (auto simp: count_where_def filter_empty_conv)
  moreover have "exists_where (\<lambda>x. av_version_id x = uuid \<or> av_version_name x = name) (application_versions db)"
    using lookup_by_SomeD [OF assms(2)] by auto
  ultimately show ?thesis using claimed_iff [OF assms(1), of name] assms(2) Some
    by (cases own) (simp_all add: CreateApplicationVersion_def Let_def versionOwner_def
        resolveRowOwner_def insert_version_def)
qed

lemma find_version_claim_other:
  "n \<noteq> name \<Longrightarrow> map_option (\<lambda>r. if claim_where name r then r\<lparr>av_application_name := own\<rparr> else r)
      (find_version n db) = find_version n db"
  by (cases "find_version n db") (auto simp: claim_where_def dest!: lookup_by_SomeD)

text \<open>
  Registering a version name succeeds unless another application owns the name, in which case
  the conflict is reported. On success the name is present, owned by the caller or by its previous
  owner (only a caller without an application leaves it to that owner); a version that existed
  keeps its id and its timestamp, and no other version is touched.
\<close>

theorem create_version_ownership:
  assumes "distinct (map av_version_name (application_versions db))"
    and "uuid \<notin> av_version_id ` set (application_versions db)"
  shows "(case CreateApplicationVersion now uuid name own db of
      Inl e \<Rightarrow> errors_Is ErrorCodeConflictingRegistration e \<and>
        (\<exists>r current o'. find_version name db = Some r \<and> av_application_name r = Some current \<and>
           own = Some o' \<and> current \<noteq> o')
    | Inr (_, db') \<Rightarrow>
        (\<exists>r. find_version name db' = Some r \<and>
           (case find_version name db of
              None \<Rightarrow> r = \<lparr>av_version_id = uuid, av_version_name = name, av_version_timestamp = UnixMilli now,
                         av_created_at = UnixMilli now, av_application_name = own\<rparr>
            | Some r0 \<Rightarrow> r = r0\<lparr>av_application_name := coalesce (av_application_name r0) own\<rparr> \<and>
                (own = None \<or> av_application_name r = own))) \<and>
        (\<forall>n. n \<noteq> name \<longrightarrow> find_version n db' = find_version n db))"
proof (cases "find_version name db")
  case None
  then show ?thesis using CreateApplicationVersion_new [OF assms None, of now own]
    by (auto simp: lookup_by_append split: option.splits)
next
  case (Some r0)
  note r0 = lookup_by_SomeD [OF Some]
  show ?thesis unfolding CreateApplicationVersion_existing [OF assms(1) Some]
    using Some r0 find_version_claim_other [of _ name own db]
    by (cases "av_application_name r0"; cases own)
      (auto simp: find_version_claim claim_where_def NewNameOwnedByPeerError_def errors_Is_def Error_Is_def Let_def)
qed

theorem create_version_ownership_witness:
  "\<exists>db' r. CreateApplicationVersion 5000000 ''u1'' ''v1'' (Some ''app'') empty_sysdb = Inr ((), db') \<and>
     find_version ''v1'' db' = Some r \<and> av_application_name r = Some ''app''"
  using create_version_ownership [where db = empty_sysdb and uuid = "''u1''" and now = 5000000
      and name = "''v1''" and own = "Some ''app''"]
  by (auto simp: empty_sysdb_def split: sum.splits)

section \<open>The latest version\<close>

lemma order_by_desc_head:
  assumes "order_by_desc k rows = r # rs"
  shows "r \<in> set rows \<and> (\<forall>x \<in> set rows. k x \<le> k r)"
proof -
  have "set rows = set (r # rs)" using set_order_by(2) [of k rows] assms by simp
  moreover have "sorted (map (\<lambda>r. - k r) (r # rs))"
    using assms sorted_sort_key [of "\<lambda>r. - k r" rows] by (simp add: order_by_desc_def)
  ultimately show ?thesis by auto
qed

lemma GetLatestApplicationVersion_greatest:
  assumes "GetLatestApplicationVersion s [] db = Inr v"
    and "r \<in> set (application_versions db)" and "nameFilter s (av_application_name r)"
  shows "av_version_timestamp r \<le> vi_Timestamp v"
proof -
  let ?rows = "filter (\<lambda>r. nameFilter s (av_application_name r)) (application_versions db)"
  have "GetLatestApplicationVersion s [] db =
      (case limit_rows 1 (order_by_desc av_version_timestamp ?rows) of
         [] \<Rightarrow> Inl NewNoApplicationVersionsError | r # _ \<Rightarrow> Inr (version_info r))"
    by (simp add: GetLatestApplicationVersion_def nameFilter_def Let_def)
  with assms(1) obtain x rs where x: "order_by_desc av_version_timestamp ?rows = x # rs" "v = version_info x"
    by (cases "order_by_desc av_version_timestamp ?rows") (auto simp: limit_rows_def)
  show ?thesis using order_by_desc_head [OF x(1)] assms(2,3) x(2) by (simp add: version_info_def)
qed

end
