(* ===== verification/Queues.thy ===== *)
theory Queues
  imports Workflows Versions
begin

text \<open>
  Queue operations of \<^verbatim>\<open>src/dbos/internal/sysdb/system_database.go\<close>: delays and the debouncer's
  bounce, the promotion of due workflows, the dequeue transaction with its rate limit and its
  two concurrency limits, dead-lettering, re-enqueueing for recovery, and partitions.
\<close>

record RateLimiter =
  rl_Limit :: int
  rl_Period :: duration

record QueueConfig =
  q_Name :: string
  q_WorkerConcurrency :: "int option"
  q_GlobalConcurrency :: "int option"
  q_PriorityEnabled :: bool
  q_RateLimit :: "RateLimiter option"
  q_PartitionQueue :: bool
  q_BasePollingInterval :: duration
  q_MaxPollingInterval :: duration
  q_DatabaseBacked :: bool
  q_ApplicationName :: string

section \<open>Delays\<close>

definition delay_set :: "instant \<Rightarrow> instant \<Rightarrow> wf_row \<Rightarrow> wf_row" where
  "delay_set now delayUntil r = r\<lparr>ws_delay_until_epoch_ms := Some (UnixMilli delayUntil),
     ws_updated_at := UnixMilli now\<rparr>"

definition SetWorkflowDelay :: "instant \<Rightarrow> string \<Rightarrow> instant \<Rightarrow> sysdb \<Rightarrow> sysdb" where
  "SetWorkflowDelay now wid delayUntil db = update_wf (wake_where [wid]) (delay_set now delayUntil) db"

definition due_where :: "SysDB \<Rightarrow> instant \<Rightarrow> wf_row \<Rightarrow> bool" where
  "due_where s now r = (ws_status r = WorkflowStatusDelayed \<and>
     sql_le (ws_delay_until_epoch_ms r) (UnixMilli now) \<and> nameFilter s (ws_application_name r))"

definition due_set :: "instant \<Rightarrow> wf_row \<Rightarrow> wf_row" where
  "due_set now r = r\<lparr>ws_status := WorkflowStatusEnqueued, ws_updated_at := UnixMilli now,
     ws_deduplication_id := (if ws_is_debounced r then None else ws_deduplication_id r)\<rparr>"

definition TransitionDelayedWorkflows :: "SysDB \<Rightarrow> instant \<Rightarrow> sysdb \<Rightarrow> sysdb" where
  "TransitionDelayedWorkflows s now db = update_wf (due_where s now) (due_set now) db"

section \<open>Debouncing\<close>

record DebounceDelayedWorkflowDBInput =
  dd_WorkflowName :: string
  dd_QueueName :: string
  dd_DeduplicationID :: string
  dd_DelayUntil :: instant
  dd_Input :: "string option"
  dd_Serialization :: string

record DebounceResult =
  dr_BouncedWorkflowID :: "string option"
  dr_HolderWorkflowID :: "string option"
  dr_HolderIsDebounced :: bool
  dr_HolderWorkflowName :: string
  dr_HolderApplicationName :: "string option"

definition bounce_where :: "SysDB \<Rightarrow> DebounceDelayedWorkflowDBInput \<Rightarrow> wf_row \<Rightarrow> bool" where
  "bounce_where s inp r = (ws_name r = dd_WorkflowName inp \<and> ws_queue_name r = Some (dd_QueueName inp) \<and>
     ws_deduplication_id r = Some (dd_DeduplicationID inp) \<and> ws_status r = WorkflowStatusDelayed \<and>
     ws_is_debounced r \<and> nameFilter s (ws_application_name r))"

definition bounce_set :: "SysDB \<Rightarrow> instant \<Rightarrow> DebounceDelayedWorkflowDBInput \<Rightarrow> wf_row \<Rightarrow> wf_row" where
  "bounce_set s now inp r = r\<lparr>
     ws_delay_until_epoch_ms :=
       (if sql_lt (ws_debounce_deadline_epoch_ms r) (UnixMilli (dd_DelayUntil inp))
        then ws_debounce_deadline_epoch_ms r else Some (UnixMilli (dd_DelayUntil inp))),
     ws_inputs := dd_Input inp, ws_serialization := Some (dd_Serialization inp),
     ws_updated_at := UnixMilli now,
     ws_application_name := coalesce (ws_application_name r) (owner s)\<rparr>"

text \<open>
  \<^verbatim>\<open>debounceDelayedWorkflowInternal\<close>; the unique index leaves at most one row for the queue and
  deduplication id, so the \<^verbatim>\<open>RETURNING\<close> clause has at most one result.
\<close>

definition debounceDelayedWorkflowInternal ::
  "SysDB \<Rightarrow> instant \<Rightarrow> DebounceDelayedWorkflowDBInput \<Rightarrow> sysdb \<Rightarrow> DebounceResult \<times> sysdb" where
  "debounceDelayedWorkflowInternal s now inp db =
     (case filter (bounce_where s inp) (workflow_status db) of
        r # _ \<Rightarrow>
          (\<lparr>dr_BouncedWorkflowID = Some (ws_workflow_uuid r), dr_HolderWorkflowID = None,
            dr_HolderIsDebounced = False, dr_HolderWorkflowName = [], dr_HolderApplicationName = None\<rparr>,
           update_wf (bounce_where s inp) (bounce_set s now inp) db)
      | [] \<Rightarrow>
          (case filter (\<lambda>r. ws_queue_name r = Some (dd_QueueName inp) \<and>
                  ws_deduplication_id r = Some (dd_DeduplicationID inp)) (workflow_status db) of
             [] \<Rightarrow>
               (\<lparr>dr_BouncedWorkflowID = None, dr_HolderWorkflowID = None, dr_HolderIsDebounced = False,
                 dr_HolderWorkflowName = [], dr_HolderApplicationName = None\<rparr>, db)
           | h # _ \<Rightarrow>
               (\<lparr>dr_BouncedWorkflowID = None, dr_HolderWorkflowID = Some (ws_workflow_uuid h),
                 dr_HolderIsDebounced = ws_is_debounced h, dr_HolderWorkflowName = ws_name h,
                 dr_HolderApplicationName = ws_application_name h\<rparr>, db)))"

section \<open>The dequeue transaction\<close>

record DequeueWorkflowsInput =
  dq_Queue :: QueueConfig
  dq_ExecutorID :: string
  dq_ApplicationVersion :: string
  dq_QueuePartitionKey :: string
  dq_LocalRunningCount :: int

text \<open>The clauses every query of the transaction shares: queue, application and partition.\<close>

definition in_scope :: "SysDB \<Rightarrow> DequeueWorkflowsInput \<Rightarrow> wf_row \<Rightarrow> bool" where
  "in_scope s inp r = (ws_queue_name r = Some (q_Name (dq_Queue inp)) \<and>
     nameFilter s (ws_application_name r) \<and>
     (dq_QueuePartitionKey inp = [] \<or> ws_queue_partition_key r = Some (dq_QueuePartitionKey inp)))"

definition recent_where :: "SysDB \<Rightarrow> DequeueWorkflowsInput \<Rightarrow> int \<Rightarrow> wf_row \<Rightarrow> bool" where
  "recent_where s inp cutoffMs r = (in_scope s inp r \<and> ws_rate_limited r \<and>
     ws_status r \<notin> {WorkflowStatusEnqueued, WorkflowStatusDelayed} \<and>
     sql_gt (ws_started_at_epoch_ms r) cutoffMs)"

definition pending_where :: "SysDB \<Rightarrow> DequeueWorkflowsInput \<Rightarrow> wf_row \<Rightarrow> bool" where
  "pending_where s inp r = (in_scope s inp r \<and> ws_status r = WorkflowStatusPending)"

definition candidate_where :: "SysDB \<Rightarrow> DequeueWorkflowsInput \<Rightarrow> bool \<Rightarrow> wf_row \<Rightarrow> bool" where
  "candidate_where s inp isLatestVersion r = (in_scope s inp r \<and> ws_status r = WorkflowStatusEnqueued \<and>
     (ws_application_version r = Some (dq_ApplicationVersion inp) \<or>
      isLatestVersion \<and> ws_application_version r = None))"

text \<open>A negative number of tasks stands for an unbounded dequeue.\<close>

definition bound_tasks :: "int \<Rightarrow> int \<Rightarrow> int" where
  "bound_tasks maxTasks available = (if maxTasks < 0 \<or> available < maxTasks then available else maxTasks)"

definition dequeue_max_tasks :: "DequeueWorkflowsInput \<Rightarrow> int \<Rightarrow> int \<Rightarrow> int" where
  "dequeue_max_tasks inp numRecentQueries globalCount =
     (let m1 = (case q_RateLimit (dq_Queue inp) of
                  None \<Rightarrow> - 1 | Some rl \<Rightarrow> bound_tasks (- 1) (rl_Limit rl - numRecentQueries));
          m2 = (case q_WorkerConcurrency (dq_Queue inp) of
                  None \<Rightarrow> m1 | Some w \<Rightarrow> bound_tasks m1 (max (w - dq_LocalRunningCount inp) 0))
      in case q_GlobalConcurrency (dq_Queue inp) of
           None \<Rightarrow> m2 | Some c \<Rightarrow> bound_tasks m2 (max (c - globalCount) 0))"

definition is_latest_version :: "SysDB \<Rightarrow> DequeueWorkflowsInput \<Rightarrow> sysdb \<Rightarrow> bool" where
  "is_latest_version s inp db =
     (case GetLatestApplicationVersion s [] db of
        Inr latest \<Rightarrow> vi_Name latest = dq_ApplicationVersion inp
      | Inl _ \<Rightarrow> True)"

text \<open>
  The candidate rows in dispatch order. \<open>locked\<close> names the rows other transactions hold: without
  a global budget they are skipped (\<^verbatim>\<open>SKIP LOCKED\<close>), with one a locked row among the selected ones
  fails the query (\<^verbatim>\<open>NOWAIT\<close>). Only the requested number of rows is locked and returned.
\<close>

definition has_budget :: "DequeueWorkflowsInput \<Rightarrow> bool" where
  "has_budget inp = (q_GlobalConcurrency (dq_Queue inp) \<noteq> None \<or> q_RateLimit (dq_Queue inp) \<noteq> None)"

definition select_candidates ::
  "SysDB \<Rightarrow> DequeueWorkflowsInput \<Rightarrow> string list \<Rightarrow> int \<Rightarrow> sysdb \<Rightarrow> wf_row list" where
  "select_candidates s inp locked maxTasks db =
     (let rows = filter (candidate_where s inp (is_latest_version s inp db)) (workflow_status db);
          avail = (if has_budget inp then rows else filter (\<lambda>r. ws_workflow_uuid r \<notin> set locked) rows);
          ord = order_by (\<lambda>r. (ws_priority r, ws_created_at r)) avail
      in if maxTasks < 0 then ord else limit_rows maxTasks ord)"

definition claim_wf_where :: "SysDB \<Rightarrow> string list \<Rightarrow> wf_row \<Rightarrow> bool" where
  "claim_wf_where s ids r = (ws_workflow_uuid r \<in> set ids \<and> ws_status r = WorkflowStatusEnqueued \<and>
     nameFilter s (ws_application_name r))"

definition claim_wf_set :: "SysDB \<Rightarrow> DequeueWorkflowsInput \<Rightarrow> instant \<Rightarrow> wf_row \<Rightarrow> wf_row" where
  "claim_wf_set s inp now r = r\<lparr>ws_status := WorkflowStatusPending,
     ws_application_version := Some (dq_ApplicationVersion inp),
     ws_executor_id := Some (dq_ExecutorID inp),
     ws_started_at_epoch_ms := Some (UnixMilli now), ws_updated_at := UnixMilli now,
     ws_rate_limited := (q_RateLimit (dq_Queue inp) \<noteq> None),
     ws_recovery_attempts := ws_recovery_attempts r + 1,
     ws_workflow_deadline_epoch_ms :=
       (if ws_workflow_timeout_ms r \<noteq> None \<and> ws_workflow_deadline_epoch_ms r = None
        then map_option (\<lambda>t. UnixMilli now + t) (ws_workflow_timeout_ms r)
        else ws_workflow_deadline_epoch_ms r),
     ws_application_name := coalesce (ws_application_name r) (owner s)\<rparr>"

definition recent_count :: "SysDB \<Rightarrow> instant \<Rightarrow> DequeueWorkflowsInput \<Rightarrow> sysdb \<Rightarrow> int" where
  "recent_count s now inp db =
     (case q_RateLimit (dq_Queue inp) of
        None \<Rightarrow> 0
      | Some rl \<Rightarrow> count_where (recent_where s inp (UnixMilli (now - rl_Period rl))) (workflow_status db))"

definition rate_exhausted :: "DequeueWorkflowsInput \<Rightarrow> int \<Rightarrow> bool" where
  "rate_exhausted inp numRecentQueries =
     (case q_RateLimit (dq_Queue inp) of None \<Rightarrow> False | Some rl \<Rightarrow> rl_Limit rl \<le> numRecentQueries)"

text \<open>\<open>now\<close> is the clock at the rate-limit query, \<open>claimNow\<close> the clock at the claiming update.\<close>

definition DequeueWorkflows ::
  "SysDB \<Rightarrow> instant \<Rightarrow> instant \<Rightarrow> string list \<Rightarrow> DequeueWorkflowsInput \<Rightarrow> sysdb \<Rightarrow> (string list \<times> sysdb) res" where
  "DequeueWorkflows s now claimNow locked inp db =
     (let numRecentQueries = recent_count s now inp db in
      if rate_exhausted inp numRecentQueries then Inr ([], db)
      else
        let globalCount = count_where (pending_where s inp) (workflow_status db);
            maxTasks = dequeue_max_tasks inp numRecentQueries globalCount
        in if maxTasks = 0 then Inr ([], db)
        else
          let dequeuedIDs = wf_ids (select_candidates s inp locked maxTasks db)
          in if has_budget inp \<and> list_ex (\<lambda>i. i \<in> set locked) dequeuedIDs
             then Inl (ErrorText ''failed to query enqueued workflows: could not obtain lock on row'')
             else
               let claimed = wf_ids (filter (claim_wf_where s dequeuedIDs) (workflow_status db))
               in Inr (filter (\<lambda>i. i \<in> set claimed) dequeuedIDs,
                       update_wf (claim_wf_where s dequeuedIDs) (claim_wf_set s inp claimNow) db))"

section \<open>Dead letters, recovery, partitions\<close>

definition dead_where :: "string list \<Rightarrow> int \<Rightarrow> wf_row \<Rightarrow> bool" where
  "dead_where ids minAttempts r = (ws_workflow_uuid r \<in> set ids \<and>
     ws_status r = WorkflowStatusPending \<and> minAttempts \<le> ws_recovery_attempts r)"

definition dead_set :: "instant \<Rightarrow> wf_row \<Rightarrow> wf_row" where
  "dead_set now r = r\<lparr>ws_status := WorkflowStatusMaxRecoveryAttemptsExceeded,
     ws_deduplication_id := None, ws_started_at_epoch_ms := None, ws_queue_name := None,
     ws_updated_at := UnixMilli now, ws_completed_at := Some (UnixMilli now)\<rparr>"

definition DeadLetterWorkflows :: "instant \<Rightarrow> string list \<Rightarrow> int \<Rightarrow> sysdb \<Rightarrow> sysdb" where
  "DeadLetterWorkflows now ids minAttempts db =
     (if ids = [] then db else update_wf (dead_where ids minAttempts) (dead_set now) db)"

definition recover_where :: "SysDB \<Rightarrow> string list \<Rightarrow> string \<Rightarrow> wf_row \<Rightarrow> bool" where
  "recover_where s executorIDs appVersion r = (ws_status r = WorkflowStatusPending \<and>
     sql_in (ws_executor_id r) executorIDs \<and>
     (appVersion = [] \<or> ws_application_version r = Some appVersion) \<and>
     nameFilter s (ws_application_name r))"

definition recover_set :: "instant \<Rightarrow> string \<Rightarrow> wf_row \<Rightarrow> wf_row" where
  "recover_set now recoveryQueueName r = r\<lparr>ws_status := WorkflowStatusEnqueued,
     ws_started_at_epoch_ms := None, ws_updated_at := UnixMilli now,
     ws_queue_name := coalesce (nullif_empty (ws_queue_name r)) (Some recoveryQueueName)\<rparr>"

text \<open>As with suspension, a row that enters the recovery queue must not meet a held slot there.\<close>

definition ReenqueueForRecovery ::
  "SysDB \<Rightarrow> instant \<Rightarrow> string list \<Rightarrow> string \<Rightarrow> string \<Rightarrow> sysdb \<Rightarrow> (string list \<times> sysdb) res" where
  "ReenqueueForRecovery s now executorIDs appVersion recoveryQueueName db =
     (if executorIDs = [] then Inr ([], db)
      else
        let db' = update_wf (recover_where s executorIDs appVersion) (recover_set now recoveryQueueName) db in
        if dedup_unique (workflow_status db')
        then Inr (wf_ids (filter (recover_where s executorIDs appVersion) (workflow_status db)), db')
        else Inl (ErrorText ''failed to re-enqueue workflows for recovery''))"

definition GetQueuePartitions :: "SysDB \<Rightarrow> string \<Rightarrow> sysdb \<Rightarrow> string list" where
  "GetQueuePartitions s queueName db =
     remdups (List.map_filter ws_queue_partition_key
       (filter (\<lambda>r. ws_queue_name r = Some queueName \<and> ws_status r = WorkflowStatusEnqueued \<and>
          nameFilter s (ws_application_name r)) (workflow_status db)))"

lemmas queue_row_defs [row_defs] =
  delay_set_def due_where_def due_set_def bounce_where_def bounce_set_def claim_wf_where_def
  claim_wf_set_def dead_where_def dead_set_def recover_where_def recover_set_def

section \<open>The statements keep the invariant and follow the status graph\<close>

interpretation delay: status_update "wake_where ids" "delay_set now until" for ids now until
  by unfold_locales (auto simp: row_defs row_unfold)

interpretation due: status_update "due_where s now" "due_set t" for s now t
  by unfold_locales (auto simp: row_defs row_unfold)

interpretation bounce: status_update "bounce_where s inp" "bounce_set s now inp" for s now inp
  by unfold_locales (auto simp: row_defs row_unfold null_defs split: option.splits)

interpretation claim: status_update "claim_wf_where s ids" "claim_wf_set s inp now" for s ids inp now
  by unfold_locales (auto simp: row_defs row_unfold)

interpretation dead: status_update "dead_where ids n" "dead_set now" for ids n now
  by unfold_locales (auto simp: row_defs row_unfold)

interpretation recover: row_update "recover_where s ex v" "recover_set now q" for s ex v now q
  by unfold_locales (simp add: row_defs)

lemma recover_queue_nonempty [simp]:
  "q \<noteq> [] \<Longrightarrow> derefStr (coalesce (nullif_empty c) (Some q)) \<noteq> []"
  by (cases c) (auto simp: nullif_empty_def)

lemma recover_status_update: "q \<noteq> [] \<Longrightarrow> status_update (recover_where s ex v) (recover_set now q)"
  by unfold_locales (auto simp: row_defs row_unfold)

lemma ReenqueueForRecovery_ok:
  assumes "db_inv db" and "q \<noteq> []" and "ex \<noteq> []"
  shows "ReenqueueForRecovery s now ex v q db =
    Inr (wf_ids (filter (recover_where s ex v) (workflow_status db)),
         update_wf (recover_where s ex v) (recover_set now q) db)"
  using inv_update.preserves_inv [OF status_update.axioms(1) [OF recover_status_update [OF assms(2)]] assms(1)] assms(3)
  by (simp add: ReenqueueForRecovery_def Let_def db_inv_def)

section \<open>What one dequeue claims\<close>

definition candidates :: "SysDB \<Rightarrow> DequeueWorkflowsInput \<Rightarrow> string list \<Rightarrow> sysdb \<Rightarrow> wf_row list" where
  "candidates s inp locked db =
     filter (\<lambda>r. candidate_where s inp (is_latest_version s inp db) r \<and>
       (has_budget inp \<or> ws_workflow_uuid r \<notin> set locked)) (workflow_status db)"

abbreviation dispatch_key :: "wf_row \<Rightarrow> int \<times> int" where
  "dispatch_key r \<equiv> (ws_priority r, ws_created_at r)"

lemma select_candidates_eq:
  "select_candidates s inp locked n db =
     (if n < 0 then order_by dispatch_key (candidates s inp locked db)
      else take (nat n) (order_by dispatch_key (candidates s inp locked db)))"
  by (cases "has_budget inp")
    (simp_all add: select_candidates_def candidates_def Let_def limit_rows_def conj_commute)

lemma select_candidates_subset:
  "set (select_candidates s inp locked n db) \<subseteq> set (candidates s inp locked db)"
  using set_take_subset [of "nat n" "order_by dispatch_key (candidates s inp locked db)"]
  by (auto simp: select_candidates_eq)

lemma select_candidates_set:
  "r \<in> set (select_candidates s inp locked n db) \<Longrightarrow>
     r \<in> set (workflow_status db) \<and> candidate_where s inp (is_latest_version s inp db) r"
  using select_candidates_subset [of s inp locked n db] by (auto simp: candidates_def)

lemma select_candidates_distinct:
  assumes "distinct (wf_ids (workflow_status db))"
  shows "distinct (wf_ids (select_candidates s inp locked n db))"
proof -
  have "distinct (wf_ids (order_by dispatch_key (candidates s inp locked db)))"
    using assms by (simp add: candidates_def distinct_map_filter)
  then have "distinct (take (nat n) (wf_ids (order_by dispatch_key (candidates s inp locked db))))"
    by (rule distinct_take)
  with \<open>distinct (wf_ids (order_by dispatch_key (candidates s inp locked db)))\<close>
  show ?thesis by (simp add: select_candidates_eq take_map)
qed

lemma select_candidates_length:
  "0 \<le> n \<Longrightarrow> int (length (select_candidates s inp locked n db)) \<le> n"
  by (simp add: select_candidates_eq)

lemma select_candidates_sorted: "sorted (map dispatch_key (select_candidates s inp locked n db))"
proof -
  have "sorted (map dispatch_key (order_by dispatch_key (candidates s inp locked db)))"
    by (rule sorted_order_by)
  moreover from this have "sorted (take (nat n) (map dispatch_key (order_by dispatch_key (candidates s inp locked db))))"
    by (rule sorted_wrt_take)
  ultimately show ?thesis by (simp add: select_candidates_eq take_map)
qed

text \<open>A candidate left behind comes no earlier in dispatch order than any row that was taken.\<close>

lemma select_candidates_first:
  assumes "r \<in> set (select_candidates s inp locked n db)" and "x \<in> set (candidates s inp locked db)"
    and "x \<notin> set (select_candidates s inp locked n db)"
  shows "dispatch_key r \<le> dispatch_key x"
proof -
  let ?ord = "order_by dispatch_key (candidates s inp locked db)"
  have take: "select_candidates s inp locked n db = take (nat n) ?ord"
    using assms(2,3) by (auto simp: select_candidates_eq split: if_splits)
  have "x \<in> set (drop (nat n) ?ord)"
    using assms(2,3) unfolding take by (metis Un_iff append_take_drop_id set_append set_order_by(1))
  moreover have "sorted (map dispatch_key (take (nat n) ?ord) @ map dispatch_key (drop (nat n) ?ord))"
    using sorted_order_by [of dispatch_key "candidates s inp locked db"] by (metis append_take_drop_id map_append)
  ultimately show ?thesis using assms(1) unfolding take by (auto simp: sorted_append)
qed

lemma select_candidates_claimed:
  assumes "r \<in> set (select_candidates s inp locked n db)"
  shows "r \<in> set (workflow_status db) \<and> claim_wf_where s (wf_ids (select_candidates s inp locked n db)) r"
  using select_candidates_set [OF assms] assms
  by (simp add: candidate_where_def in_scope_def claim_wf_where_def)

abbreviation max_tasks :: "SysDB \<Rightarrow> instant \<Rightarrow> DequeueWorkflowsInput \<Rightarrow> sysdb \<Rightarrow> int" where
  "max_tasks s now inp db \<equiv>
     dequeue_max_tasks inp (recent_count s now inp db) (count_where (pending_where s inp) (workflow_status db))"

lemma DequeueWorkflows_eq:
  fixes s now inp locked db
  defines "ids \<equiv> wf_ids (select_candidates s inp locked (max_tasks s now inp db) db)"
  shows "DequeueWorkflows s now claimNow locked inp db =
      (if rate_exhausted inp (recent_count s now inp db) \<or> max_tasks s now inp db = 0 then Inr ([], db)
       else if has_budget inp \<and> list_ex (\<lambda>i. i \<in> set locked) ids
       then Inl (ErrorText ''failed to query enqueued workflows: could not obtain lock on row'')
       else Inr (ids, update_wf (claim_wf_where s ids) (claim_wf_set s inp claimNow) db))"
proof -
  let ?claimed = "wf_ids (filter (claim_wf_where s ids) (workflow_status db))"
  have "i \<in> set ?claimed" if i: "i \<in> set ids" for i
  proof -
    from i obtain r where "r \<in> set (select_candidates s inp locked (max_tasks s now inp db) db)" "i = ws_workflow_uuid r"
      by (auto simp: ids_def)
    then show ?thesis using select_candidates_claimed [of r s inp locked "max_tasks s now inp db" db]
      by (simp add: ids_def)
  qed
  then have all: "filter (\<lambda>i. i \<in> set ?claimed) ids = ids" by (simp add: filter_id_conv)
  show ?thesis unfolding DequeueWorkflows_def Let_def ids_def [symmetric] all by simp
qed

lemma DequeueWorkflows_cases:
  assumes "DequeueWorkflows s now claimNow locked inp db = Inr (ids, db')"
  obtains (none) "ids = []" and "db' = db" and
      "rate_exhausted inp (recent_count s now inp db) \<or> max_tasks s now inp db = 0"
  | (claim) n where
      "\<not> rate_exhausted inp (recent_count s now inp db)" and "n \<noteq> 0" and "n = max_tasks s now inp db"
      and "ids = wf_ids (select_candidates s inp locked n db)"
      and "db' = update_wf (claim_wf_where s ids) (claim_wf_set s inp claimNow) db"
proof (cases "rate_exhausted inp (recent_count s now inp db) \<or> max_tasks s now inp db = 0")
  case True
  then show thesis using assms none unfolding DequeueWorkflows_eq by simp
next
  case False
  let ?ids = "wf_ids (select_candidates s inp locked (max_tasks s now inp db) db)"
  have "ids = ?ids" "db' = update_wf (claim_wf_where s ?ids) (claim_wf_set s inp claimNow) db"
    using assms unfolding DequeueWorkflows_eq if_not_P [OF False] by (auto split: if_splits simp del: set_map)
  then show thesis using False by (intro claim [of "max_tasks s now inp db"]) simp_all
qed

lemma dequeue_max_tasks_bounds:
  assumes "\<not> rate_exhausted inp recent" and "n = dequeue_max_tasks inp recent glob"
  shows "q_RateLimit (dq_Queue inp) = Some rl \<Longrightarrow> 0 \<le> n \<and> n \<le> rl_Limit rl - recent"
    and "q_WorkerConcurrency (dq_Queue inp) = Some w \<Longrightarrow> 0 \<le> n \<and> n \<le> max (w - dq_LocalRunningCount inp) 0"
    and "q_GlobalConcurrency (dq_Queue inp) = Some c \<Longrightarrow> 0 \<le> n \<and> n \<le> max (c - glob) 0"
    and "q_RateLimit (dq_Queue inp) = None \<Longrightarrow> q_WorkerConcurrency (dq_Queue inp) = None \<Longrightarrow>
      q_GlobalConcurrency (dq_Queue inp) = None \<Longrightarrow> n < 0"
  using assms
  by (auto simp: dequeue_max_tasks_def bound_tasks_def rate_exhausted_def Let_def split: option.splits if_splits)

text \<open>The rows a claim changes are the selected ones, and each becomes a running row in scope.\<close>

lemma claimed_row:
  assumes inv: "distinct (wf_ids (workflow_status db))"
    and ids: "ids = wf_ids (select_candidates s inp locked n db)"
    and "r \<in> set (workflow_status db)"
  shows "claim_wf_where s ids r \<longleftrightarrow> r \<in> set (select_candidates s inp locked n db)"
    and "ws_workflow_uuid r \<in> set ids \<longleftrightarrow> r \<in> set (select_candidates s inp locked n db)"
proof -
  have eq: "r = r'" if "ws_workflow_uuid r = ws_workflow_uuid r'" "r' \<in> set (select_candidates s inp locked n db)" for r'
    using that assms select_candidates_set [OF that(2)] by (auto simp: distinct_map dest: inj_onD)
  then show 2: "ws_workflow_uuid r \<in> set ids \<longleftrightarrow> r \<in> set (select_candidates s inp locked n db)"
    unfolding ids by auto
  show "claim_wf_where s ids r \<longleftrightarrow> r \<in> set (select_candidates s inp locked n db)"
    using 2 select_candidates_claimed [of r s inp locked n db] ids by (auto simp: claim_wf_where_def)
qed

lemma count_claimed:
  assumes inv: "distinct (wf_ids (workflow_status db))"
    and ids: "ids = wf_ids (select_candidates s inp locked n db)"
  shows "count_where (claim_wf_where s ids) (workflow_status db) = int (length ids)"
proof -
  have "set ids \<subseteq> ws_workflow_uuid ` set (workflow_status db)"
    unfolding ids using select_candidates_set [of _ s inp locked n db] by auto
  from count_where_key_in [OF inv _ this] have
    "count_where (\<lambda>r. ws_workflow_uuid r \<in> set ids) (workflow_status db) = int (length ids)"
    using select_candidates_distinct [OF inv] ids by simp
  moreover have "filter (claim_wf_where s ids) (workflow_status db) =
      filter (\<lambda>r. ws_workflow_uuid r \<in> set ids) (workflow_status db)"
    using claimed_row [OF inv ids] by (intro filter_cong) auto
  ultimately show ?thesis by (simp add: count_where_def)
qed

lemma claimed_scope:
  assumes inv: "distinct (wf_ids (workflow_status db))"
    and ids: "ids = wf_ids (select_candidates s inp locked n db)"
    and "r \<in> set (workflow_status db)" and "claim_wf_where s ids r"
  shows "in_scope s inp r \<and> in_scope s inp (claim_wf_set s inp now r) \<and> ws_status r = WorkflowStatusEnqueued"
  using select_candidates_set [of r s inp locked n db] assms(4) claimed_row(1) [OF assms(1-3)]
  by (cases "ws_application_name r")
    (auto simp: candidate_where_def in_scope_def claim_wf_set_def nameFilter_def owner_def)

lemma count_pending_after:
  assumes inv: "distinct (wf_ids (workflow_status db))"
    and ids: "ids = wf_ids (select_candidates s inp locked n db)"
  shows "count_where (pending_where s inp) (update_where (claim_wf_where s ids) (claim_wf_set s inp now) (workflow_status db)) =
     count_where (pending_where s inp) (workflow_status db) + int (length ids)"
  unfolding count_where_update count_claimed [OF inv ids, symmetric]
  using claimed_scope [OF inv ids, where now = now]
  by (intro count_where_grow) (auto simp: pending_where_def claim_wf_set_def)

lemma count_recent_after:
  assumes inv: "distinct (wf_ids (workflow_status db))"
    and ids: "ids = wf_ids (select_candidates s inp locked n db)"
    and "q_RateLimit (dq_Queue inp) \<noteq> None" and "cutoff < UnixMilli now"
  shows "count_where (recent_where s inp cutoff) (update_where (claim_wf_where s ids) (claim_wf_set s inp now) (workflow_status db)) =
     count_where (recent_where s inp cutoff) (workflow_status db) + int (length ids)"
  unfolding count_where_update count_claimed [OF inv ids, symmetric]
  using claimed_scope [OF inv ids, where now = now] assms(3,4)
  by (intro count_where_grow) (auto simp: recent_where_def claim_wf_set_def)

text \<open>
  C12: one dequeue never exceeds a limit. The workflows it starts fit into what the worker's own
  limit leaves free; the running workflows of the queue (and partition) stay within the global
  limit unless it was already exceeded before, in which case nothing is started; and the
  rate-limited starts inside the period, counted at the moment of the dequeue, never exceed the
  limit.
\<close>

theorem dequeue_respects_limits:
  assumes "distinct (wf_ids (workflow_status db))"
    and "DequeueWorkflows s now claimNow locked inp db = Inr (ids, db')"
  shows "(\<forall>w. q_WorkerConcurrency (dq_Queue inp) = Some w \<longrightarrow>
       dq_LocalRunningCount inp + int (length ids) \<le> max w (dq_LocalRunningCount inp)) \<and>
    (\<forall>c. q_GlobalConcurrency (dq_Queue inp) = Some c \<longrightarrow>
       count_where (pending_where s inp) (workflow_status db') \<le>
         max c (count_where (pending_where s inp) (workflow_status db))) \<and>
    (\<forall>rl. q_RateLimit (dq_Queue inp) = Some rl \<longrightarrow> UnixMilli (now - rl_Period rl) < UnixMilli claimNow \<longrightarrow>
       count_where (recent_where s inp (UnixMilli (now - rl_Period rl))) (workflow_status db') \<le>
         max (rl_Limit rl) (count_where (recent_where s inp (UnixMilli (now - rl_Period rl))) (workflow_status db)))"
  using assms(2)
proof (cases rule: DequeueWorkflows_cases)
  case (claim n)
  note bounds = dequeue_max_tasks_bounds [OF claim(1,3)]
  have len: "int (length ids) \<le> n" if "0 \<le> n" using select_candidates_length [OF that] claim(4) by simp
  have "count_where (pending_where s inp) (workflow_status db') =
      count_where (pending_where s inp) (workflow_status db) + int (length ids)"
    using count_pending_after [OF assms(1) claim(4)] claim(5) by simp
  moreover have "count_where (recent_where s inp cutoff) (workflow_status db') =
      count_where (recent_where s inp cutoff) (workflow_status db) + int (length ids)"
    if "q_RateLimit (dq_Queue inp) = Some rl" "cutoff < UnixMilli claimNow" for cutoff rl
    using count_recent_after [OF assms(1) claim(4) _ that(2)] that(1) claim(5) by simp
  moreover have "recent_count s now inp db = count_where (recent_where s inp (UnixMilli (now - rl_Period rl))) (workflow_status db)"
    if "q_RateLimit (dq_Queue inp) = Some rl" for rl
    using that by (simp add: recent_count_def)
  ultimately show ?thesis using bounds len by fastforce
qed simp

definition sample_queue :: QueueConfig where
  "sample_queue = \<lparr>q_Name = ''q'', q_WorkerConcurrency = Some 2, q_GlobalConcurrency = Some 1,
     q_PriorityEnabled = True, q_RateLimit = Some \<lparr>rl_Limit = 5, rl_Period = Second\<rparr>,
     q_PartitionQueue = False, q_BasePollingInterval = Second, q_MaxPollingInterval = Second,
     q_DatabaseBacked = False, q_ApplicationName = []\<rparr>"

definition sample_dequeue :: DequeueWorkflowsInput where
  "sample_dequeue = \<lparr>dq_Queue = sample_queue, dq_ExecutorID = ''e'', dq_ApplicationVersion = ''v'',
     dq_QueuePartitionKey = [], dq_LocalRunningCount = 0\<rparr>"

definition sample_backlog :: sysdb where
  "sample_backlog = empty_sysdb\<lparr>workflow_status :=
     [sample_enqueued, (default_wf_row ''w2'' WorkflowStatusEnqueued 0)\<lparr>ws_queue_name := Some ''q''\<rparr>]\<rparr>"

lemmas sample_dequeue_defs = sample_dequeue_def sample_queue_def sample_backlog_def empty_sysdb_def
  sample_enqueued_def default_wf_row_def sample_sysdb_ctx_def

lemma sample_dequeue_run:
  "\<exists>db'. DequeueWorkflows sample_sysdb_ctx 2000000000 2000000000 [] sample_dequeue sample_backlog = Inr ([''w2''], db')"
  by (simp add: DequeueWorkflows_def recent_count_def rate_exhausted_def dequeue_max_tasks_def bound_tasks_def
      select_candidates_def candidate_where_def in_scope_def is_latest_version_def pending_where_def recent_where_def
      GetLatestApplicationVersion_def limit_rows_def order_by_def order_by_desc_def has_budget_def
      claim_wf_where_def nameFilter_def sample_dequeue_defs Let_def)

theorem dequeue_respects_limits_witness:
  "\<exists>ids db'. DequeueWorkflows sample_sysdb_ctx 2000000000 2000000000 [] sample_dequeue sample_backlog = Inr (ids, db') \<and>
     ids = [''w2''] \<and>
     count_where (pending_where sample_sysdb_ctx sample_dequeue) (workflow_status db') \<le> 1"
proof -
  obtain db' where run: "DequeueWorkflows sample_sysdb_ctx 2000000000 2000000000 [] sample_dequeue sample_backlog =
      Inr ([''w2''], db')" using sample_dequeue_run by blast
  have "count_where (pending_where sample_sysdb_ctx sample_dequeue) (workflow_status sample_backlog) = 0"
    by (simp add: pending_where_def sample_dequeue_defs)
  with dequeue_respects_limits [OF _ run] have
    "count_where (pending_where sample_sysdb_ctx sample_dequeue) (workflow_status db') \<le> 1"
    by (simp add: sample_dequeue_defs)
  with run show ?thesis by blast
qed

text \<open>
  C13: a dequeue claims enqueued workflows of its queue only, of its application (or of none), of
  its partition and of its version (or of none, for the latest version), in the order of priority
  and creation time: no eligible workflow that was left behind precedes a claimed one. A claimed
  workflow is running on the claiming executor, with its attempts counted and its deadline set
  from its timeout; every other workflow is untouched.
\<close>

theorem dequeue_claims_in_order:
  assumes "distinct (wf_ids (workflow_status db))"
    and "DequeueWorkflows s now claimNow locked inp db = Inr (ids, db')"
  shows "\<exists>rs. ids = wf_ids rs \<and> distinct ids \<and>
    sorted (map (\<lambda>r. (ws_priority r, ws_created_at r)) rs) \<and>
    (\<forall>r \<in> set rs. r \<in> set (workflow_status db) \<and> candidate_where s inp (is_latest_version s inp db) r) \<and>
    (rs = [] \<or> (\<forall>x \<in> set (workflow_status db). candidate_where s inp (is_latest_version s inp db) x \<and>
       ws_workflow_uuid x \<notin> set locked \<and> x \<notin> set rs \<longrightarrow>
       (\<forall>r \<in> set rs. (ws_priority r, ws_created_at r) \<le> (ws_priority x, ws_created_at x)))) \<and>
    (\<forall>wid. find_wf wid db' = map_option
       (\<lambda>r. if wid \<in> set ids then claim_wf_set s inp claimNow r else r) (find_wf wid db))"
  using assms(2)
proof (cases rule: DequeueWorkflows_cases)
  case none
  then show ?thesis by (intro exI [of _ "[]"]) (simp add: option.map_ident)
next
  case (claim n)
  let ?rs = "select_candidates s inp locked n db"
  have "find_wf wid db' = map_option (\<lambda>r. if wid \<in> set ids then claim_wf_set s inp claimNow r else r) (find_wf wid db)" for wid
    using claimed_row [OF assms(1) claim(4)] claim(5)
    by (cases "find_wf wid db") (auto simp: claim.find dest!: lookup_by_SomeD)
  moreover have "\<forall>x \<in> set (workflow_status db). candidate_where s inp (is_latest_version s inp db) x \<and>
       ws_workflow_uuid x \<notin> set locked \<and> x \<notin> set ?rs \<longrightarrow> (\<forall>r \<in> set ?rs. dispatch_key r \<le> dispatch_key x)"
    using select_candidates_first [of _ s inp locked n db] by (auto simp: candidates_def)
  ultimately show ?thesis
    using claim(4) select_candidates_distinct [OF assms(1), of s inp locked n]
      select_candidates_sorted [of s inp locked n db] select_candidates_set [of _ s inp locked n db]
    by (intro exI [of _ ?rs]) blast
qed

theorem dequeue_claims_in_order_witness:
  "\<exists>db' r. DequeueWorkflows sample_sysdb_ctx 2000000000 2000000000 [] sample_dequeue sample_backlog = Inr ([''w2''], db') \<and>
     find_wf ''w2'' db' = Some r \<and> ws_status r = WorkflowStatusPending \<and> ws_recovery_attempts r = 1"
proof -
  obtain db' where run: "DequeueWorkflows sample_sysdb_ctx 2000000000 2000000000 [] sample_dequeue sample_backlog =
      Inr ([''w2''], db')" using sample_dequeue_run by blast
  have "distinct (wf_ids (workflow_status sample_backlog))" by (simp add: sample_dequeue_defs)
  from dequeue_claims_in_order [OF this run] have "find_wf ''w2'' db' =
      map_option (claim_wf_set sample_sysdb_ctx sample_dequeue 2000000000) (find_wf ''w2'' sample_backlog)" by auto
  then show ?thesis using run by (simp add: sample_dequeue_defs claim_wf_set_def)
qed

lemma dequeue_max_tasks_tight:
  assumes "0 \<le> dequeue_max_tasks inp recent glob"
  shows "(\<exists>rl. q_RateLimit (dq_Queue inp) = Some rl \<and> dequeue_max_tasks inp recent glob = rl_Limit rl - recent) \<or>
    (\<exists>w. q_WorkerConcurrency (dq_Queue inp) = Some w \<and>
       dequeue_max_tasks inp recent glob = max (w - dq_LocalRunningCount inp) 0) \<or>
    (\<exists>c. q_GlobalConcurrency (dq_Queue inp) = Some c \<and> dequeue_max_tasks inp recent glob = max (c - glob) 0)"
  using assms
  by (auto simp: dequeue_max_tasks_def bound_tasks_def Let_def split: option.splits if_splits)

lemma select_candidates_short:
  assumes "x \<in> set (candidates s inp locked db)" and "x \<notin> set (select_candidates s inp locked n db)"
  shows "0 \<le> n \<and> int (length (select_candidates s inp locked n db)) = n"
proof -
  have n: "0 \<le> n" using assms by (auto simp: select_candidates_eq split: if_splits)
  have "\<not> length (order_by dispatch_key (candidates s inp locked db)) \<le> nat n"
    using assms n by (auto simp: select_candidates_eq)
  then show ?thesis using n by (simp add: select_candidates_eq)
qed

text \<open>
  C14: the dequeue is work-conserving: when it leaves an eligible, unlocked workflow in the
  queue, one of the configured limits is used up by what now runs.
\<close>

theorem dequeue_work_conserving:
  assumes "DequeueWorkflows s now claimNow locked inp db = Inr (ids, db')"
    and "x \<in> set (workflow_status db)" and "candidate_where s inp (is_latest_version s inp db) x"
    and "ws_workflow_uuid x \<notin> set locked" and "ws_workflow_uuid x \<notin> set ids"
  shows "(\<exists>rl. q_RateLimit (dq_Queue inp) = Some rl \<and>
            rl_Limit rl \<le> recent_count s now inp db + int (length ids)) \<or>
    (\<exists>w. q_WorkerConcurrency (dq_Queue inp) = Some w \<and> w \<le> dq_LocalRunningCount inp + int (length ids)) \<or>
    (\<exists>c. q_GlobalConcurrency (dq_Queue inp) = Some c \<and>
       c \<le> count_where (pending_where s inp) (workflow_status db) + int (length ids))"
proof -
  have x: "x \<in> set (candidates s inp locked db)" using assms(2-4) by (simp add: candidates_def)
  have tight: ?thesis if "0 \<le> max_tasks s now inp db" "int (length ids) = max_tasks s now inp db"
    using dequeue_max_tasks_tight [OF that(1)] that(2) by (fastforce simp: max_def split: if_splits)
  from assms(1) show ?thesis
  proof (cases rule: DequeueWorkflows_cases)
    case none
    then show ?thesis using tight by (auto simp: rate_exhausted_def split: option.splits)
  next
    case (claim n)
    have "x \<notin> set (select_candidates s inp locked n db)" using assms(5) claim(4) by auto
    from select_candidates_short [OF x this] show ?thesis using tight claim(3,4) by simp
  qed
qed

theorem dequeue_work_conserving_witness:
  "(\<exists>c. q_GlobalConcurrency sample_queue = Some c \<and>
     c \<le> count_where (pending_where sample_sysdb_ctx sample_dequeue) (workflow_status sample_backlog) + 1)"
proof -
  obtain db' where run: "DequeueWorkflows sample_sysdb_ctx 2000000000 2000000000 [] sample_dequeue sample_backlog =
      Inr ([''w2''], db')" using sample_dequeue_run by blast
  have "candidate_where sample_sysdb_ctx sample_dequeue
      (is_latest_version sample_sysdb_ctx sample_dequeue sample_backlog) sample_enqueued"
    by (simp add: candidate_where_def in_scope_def is_latest_version_def nameFilter_def
        GetLatestApplicationVersion_def limit_rows_def order_by_desc_def sample_dequeue_defs)
  then show ?thesis using dequeue_work_conserving [OF run, of sample_enqueued]
    by (simp add: recent_count_def recent_where_def sample_dequeue_defs)
qed

section \<open>Promotion, debouncing, recovery\<close>

text \<open>
  A bounce extends the delay of the one debounced workflow it is meant for and of no other:
  same queue, key and workflow name, still delayed, owned by this application or by none (and
  then claimed). The new wake-up time is the requested one, never past the debounce deadline. When
  nothing is bounced no row changes and the holder of the key, if any, is reported.
\<close>

theorem debounce_extends_within_deadline:
  assumes "dedup_unique (workflow_status db)" and "distinct (wf_ids (workflow_status db))"
    and "debounceDelayedWorkflowInternal s now inp db = (res, db')"
  shows "case dr_BouncedWorkflowID res of
      Some wid \<Rightarrow> (\<exists>r r'. find_wf wid db = Some r \<and> bounce_where s inp r \<and> find_wf wid db' = Some r' \<and>
        r' = bounce_set s now inp r \<and> ws_inputs r' = dd_Input inp \<and>
        (\<exists>t. ws_delay_until_epoch_ms r' = Some t \<and> t \<le> UnixMilli (dd_DelayUntil inp) \<and>
           (\<forall>d. ws_debounce_deadline_epoch_ms r = Some d \<longrightarrow> t = min d (UnixMilli (dd_DelayUntil inp)))) \<and>
        (\<forall>w. w \<noteq> wid \<longrightarrow> find_wf w db' = find_wf w db))
    | None \<Rightarrow> db' = db \<and> (\<forall>r \<in> set (workflow_status db). \<not> bounce_where s inp r) \<and>
        (case dr_HolderWorkflowID res of
           None \<Rightarrow> \<forall>r \<in> set (workflow_status db). dedup_slot r \<noteq> Some (dd_QueueName inp, dd_DeduplicationID inp)
         | Some h \<Rightarrow> \<exists>r. find_wf h db = Some r \<and> dedup_slot r = Some (dd_QueueName inp, dd_DeduplicationID inp) \<and>
             dr_HolderIsDebounced res = ws_is_debounced r \<and> dr_HolderWorkflowName res = ws_name r)"
proof (cases "filter (bounce_where s inp) (workflow_status db)")
  case Nil
  then have none: "\<forall>r \<in> set (workflow_status db). \<not> bounce_where s inp r" by (simp add: filter_empty_conv)
  show ?thesis
  proof (cases "filter (\<lambda>r. ws_queue_name r = Some (dd_QueueName inp) \<and>
                  ws_deduplication_id r = Some (dd_DeduplicationID inp)) (workflow_status db)")
    case Nil2: Nil
    with Nil none assms(3) show ?thesis
      by (auto simp: debounceDelayedWorkflowInternal_def dedup_slot_def filter_empty_conv)
  next
    case (Cons h hs)
    then have "h \<in> set (workflow_status db)" "dedup_slot h = Some (dd_QueueName inp, dd_DeduplicationID inp)"
      by (auto simp: dedup_slot_def dest!: filter_eq_ConsD)
    with Cons Nil none assms show ?thesis
      by (auto simp: debounceDelayedWorkflowInternal_def lookup_by_in_iff)
  qed
next
  case (Cons r rs)
  then have r: "r \<in> set (workflow_status db)" "bounce_where s inp r" by (auto dest!: filter_eq_ConsD)
  have uniq: "x = r" if "x \<in> set (workflow_status db)" "bounce_where s inp x" for x
    using dedup_unique_eq [OF assms(1) that(1) r(1)] that(2) r(2) by (simp add: bounce_where_def dedup_slot_def)
  have res: "dr_BouncedWorkflowID res = Some (ws_workflow_uuid r)"
    "db' = update_wf (bounce_where s inp) (bounce_set s now inp) db"
    using assms(3) Cons by (auto simp: debounceDelayedWorkflowInternal_def)
  have find: "find_wf (ws_workflow_uuid r) db = Some r" using r assms(2) by (simp add: lookup_by_in_iff)
  have "find_wf w db' = find_wf w db" if "w \<noteq> ws_workflow_uuid r" for w
    using that uniq res(2) by (cases "find_wf w db") (auto simp: bounce.find dest!: lookup_by_SomeD)
  moreover have "find_wf (ws_workflow_uuid r) db' = Some (bounce_set s now inp r)"
    using find r(2) res(2) by (simp add: bounce.find)
  ultimately show ?thesis using res(1) find r(2)
    by (cases "ws_debounce_deadline_epoch_ms r") (auto simp: bounce_set_def min_def)
qed

definition sample_debounced :: sysdb where
  "sample_debounced = empty_sysdb\<lparr>workflow_status :=
     [(default_wf_row ''w'' WorkflowStatusDelayed 1)\<lparr>ws_name := ''f'', ws_queue_name := Some ''q'',
        ws_deduplication_id := Some ''k'', ws_is_debounced := True, ws_delay_until_epoch_ms := Some 10,
        ws_debounce_deadline_epoch_ms := Some 50\<rparr>]\<rparr>"

definition sample_bounce :: DebounceDelayedWorkflowDBInput where
  "sample_bounce = \<lparr>dd_WorkflowName = ''f'', dd_QueueName = ''q'', dd_DeduplicationID = ''k'',
     dd_DelayUntil = 80000000, dd_Input = Some ''in'', dd_Serialization = []\<rparr>"

theorem debounce_extends_within_deadline_witness:
  "\<exists>res db' r. debounceDelayedWorkflowInternal sample_sysdb_ctx 0 sample_bounce sample_debounced = (res, db') \<and>
     find_wf ''w'' db' = Some r \<and> ws_delay_until_epoch_ms r = Some 50"
proof -
  obtain res db' where run: "debounceDelayedWorkflowInternal sample_sysdb_ctx 0 sample_bounce sample_debounced = (res, db')"
    by (cases "debounceDelayedWorkflowInternal sample_sysdb_ctx 0 sample_bounce sample_debounced")
  have wid: "dr_BouncedWorkflowID res = Some ''w''"
    using run by (auto simp: debounceDelayedWorkflowInternal_def bounce_where_def nameFilter_def
        sample_debounced_def sample_bounce_def default_wf_row_def)
  have "dedup_unique (workflow_status sample_debounced)" "distinct (wf_ids (workflow_status sample_debounced))"
    by (simp_all add: sample_debounced_def)
  from debounce_extends_within_deadline [OF this run] wid
  have "find_wf ''w'' db' = map_option (bounce_set sample_sysdb_ctx 0 sample_bounce) (find_wf ''w'' sample_debounced)"
    by auto
  then show ?thesis using run
    by (simp add: sample_debounced_def bounce_set_def sample_bounce_def UnixMilli_def default_wf_row_def)
qed

text \<open>
  Recovery re-enqueues exactly the running workflows of the given executors that this
  application may see (and of the given version, when one is given): each goes back to its own
  queue, or to the recovery queue when it has none, keeps its deduplication slot and its attempt
  count, and is reported; every other workflow is untouched. The statement never fails on the
  deduplication index.
\<close>

theorem recovery_reenqueues_pending:
  assumes "db_inv db" and "recoveryQueue \<noteq> []" and "executors \<noteq> []"
  shows "\<exists>ids db'. ReenqueueForRecovery s now executors version recoveryQueue db = Inr (ids, db') \<and> db_inv db' \<and>
    (\<forall>wid r. find_wf wid db = Some r \<longrightarrow>
       (if ws_status r = WorkflowStatusPending \<and> sql_in (ws_executor_id r) executors \<and>
           (version = [] \<or> ws_application_version r = Some version) \<and> nameFilter s (ws_application_name r)
        then wid \<in> set ids \<and> (\<exists>r'. find_wf wid db' = Some r' \<and> ws_status r' = WorkflowStatusEnqueued \<and>
          ws_queue_name r' = Some (if derefStr (ws_queue_name r) = [] then recoveryQueue else derefStr (ws_queue_name r)) \<and>
          ws_recovery_attempts r' = ws_recovery_attempts r \<and> ws_deduplication_id r' = ws_deduplication_id r)
        else wid \<notin> set ids \<and> find_wf wid db' = Some r))"
proof -
  let ?g = "recover_where s executors version" and ?u = "recover_set now recoveryQueue"
  have inv: "db_inv (update_wf ?g ?u db)"
    using inv_update.preserves_inv [OF status_update.axioms(1) [OF recover_status_update [OF assms(2)]] assms(1)] .
  have ids: "wid \<in> set (wf_ids (filter ?g (workflow_status db))) \<longleftrightarrow> ?g r"
    if "find_wf wid db = Some r" for wid r
    using lookup_by_SomeD [OF that] wf_row_unique [OF assms(1), of r] by auto
  have q: "coalesce (nullif_empty c) (Some recoveryQueue) =
      Some (if derefStr c = [] then recoveryQueue else derefStr c)" for c
    by (cases c) (auto simp: nullif_empty_def)
  show ?thesis
    unfolding ReenqueueForRecovery_ok [OF assms]
    using inv ids by (auto simp: recover.find simp del: set_map) (auto simp: recover_where_def recover_set_def q)
qed

definition sample_running :: sysdb where
  "sample_running = empty_sysdb\<lparr>workflow_status :=
     [(default_wf_row ''w'' WorkflowStatusPending 1)\<lparr>ws_executor_id := Some ''e'', ws_recovery_attempts := 3\<rparr>]\<rparr>"

lemma sample_running_inv: "db_inv sample_running"
  by (simp add: sample_running_def empty_sysdb_def db_inv_def pk_ok_def fk_ok_def row_inv_def)

theorem recovery_reenqueues_pending_witness:
  "\<exists>ids db' r. ReenqueueForRecovery sample_sysdb_ctx 0 [''e''] [] InternalQueueName sample_running = Inr (ids, db') \<and>
     find_wf ''w'' db' = Some r \<and> ws_status r = WorkflowStatusEnqueued \<and> ws_queue_name r = Some InternalQueueName"
proof -
  obtain r where r: "find_wf ''w'' sample_running = Some r" "ws_status r = WorkflowStatusPending"
    "ws_executor_id r = Some ''e''" "ws_queue_name r = None" "ws_application_name r = None"
    by (simp add: sample_running_def default_wf_row_def)
  have "[''e''] \<noteq> []" by simp
  from recovery_reenqueues_pending [OF sample_running_inv InternalQueueName_nonempty this, of sample_sysdb_ctx 0 "[]"]
  show ?thesis
    apply (elim exE conjE)
    apply (drule spec [of _ "''w''"], drule spec [of _ r])
    using r by (auto simp: nameFilter_def)
qed

end
