(* ===== verification/GC.thy ===== *)
theory GC
  imports Workflows
begin

text \<open>
  Garbage collection of completed workflows (\<^verbatim>\<open>GarbageCollectWorkflows\<close> and
  \<^verbatim>\<open>garbageCollectInBatches\<close> of \<^verbatim>\<open>src/dbos/internal/sysdb/system_database.go\<close>). The batches are
  separate transactions; \<open>env k\<close> is what the rest of the system does to the database after the
  \<open>k\<close>-th batch. The loop ends under every interference because its watermark grows and stays
  below the cutoff; a pass without interference deletes what one statement deletes; a pass with
  interference leaves no eligible row as long as nothing becomes eligible while it runs.
\<close>

section \<open>Operations\<close>

record GarbageCollectWorkflowsInput =
  CutoffEpochTimestampMs :: "int option"
  RowsThreshold :: "int option"
  BatchSize :: "int option"

text \<open>
  The completion time of the \<open>n\<close>-th newest completed workflow; the variable keeps its zero value
  when there is no such row.
\<close>

definition rowsBasedCutoff :: "SysDB \<Rightarrow> int \<Rightarrow> sysdb \<Rightarrow> int" where
  "rowsBasedCutoff s n db =
     (case offset_rows (n - 1) (order_by_desc (\<lambda>r. the (ws_completed_at r))
        (filter (\<lambda>r. ws_completed_at r \<noteq> None \<and> nameFilter s (ws_application_name r)) (workflow_status db))) of
        [] \<Rightarrow> 0
      | r # _ \<Rightarrow> the (ws_completed_at r))"

definition cutoffTimestamp :: "SysDB \<Rightarrow> GarbageCollectWorkflowsInput \<Rightarrow> sysdb \<Rightarrow> int option" where
  "cutoffTimestamp s inp db =
     (case RowsThreshold inp of
        None \<Rightarrow> CutoffEpochTimestampMs inp
      | Some n \<Rightarrow>
          let found = rowsBasedCutoff s n db in
          (case CutoffEpochTimestampMs inp of
             None \<Rightarrow> if found > 0 then Some found else None
           | Some c \<Rightarrow> if found > c then Some found else Some c))"

definition gcFilter :: "SysDB \<Rightarrow> int \<Rightarrow> wf_row \<Rightarrow> bool" where
  "gcFilter s cutoff r = (sql_lt (ws_completed_at r) cutoff \<and> nameFilter s (ws_application_name r))"

definition above :: "SysDB \<Rightarrow> int \<Rightarrow> int \<Rightarrow> wf_row \<Rightarrow> bool" where
  "above s cutoff watermark r = (gcFilter s cutoff r \<and> sql_gt (ws_completed_at r) watermark)"

text \<open>\<^verbatim>\<open>stepQuery\<close>: the completion time of the \<open>batchSize\<close>-th oldest eligible row above the watermark.\<close>

definition batch_step :: "SysDB \<Rightarrow> int \<Rightarrow> int \<Rightarrow> int \<Rightarrow> sysdb \<Rightarrow> int option" where
  "batch_step s cutoff batchSize watermark db =
     (case offset_rows (batchSize - 1) (order_by (\<lambda>r. the (ws_completed_at r))
        (filter (above s cutoff watermark) (workflow_status db))) of
        [] \<Rightarrow> None
      | r # _ \<Rightarrow> ws_completed_at r)"

lemma batch_step_SomeD:
  assumes "batch_step s cutoff n wm db = Some c"
  shows "wm < c \<and> c < cutoff \<and> (\<exists>r \<in> set (workflow_status db). above s cutoff wm r \<and> ws_completed_at r = Some c)"
proof -
  obtain r rs where "offset_rows (n - 1) (order_by (\<lambda>r. the (ws_completed_at r))
      (filter (above s cutoff wm) (workflow_status db))) = r # rs" "ws_completed_at r = Some c"
    using assms by (auto simp: batch_step_def split: list.splits)
  then have "r \<in> set (filter (above s cutoff wm) (workflow_status db))"
    unfolding offset_rows_def by (metis in_set_dropD list.set_intros(1) set_order_by(1))
  then show ?thesis using \<open>ws_completed_at r = Some c\<close> by (force simp: above_def gcFilter_def)
qed

function garbageCollectInBatches ::
  "(nat \<Rightarrow> sysdb \<Rightarrow> sysdb) \<Rightarrow> SysDB \<Rightarrow> int \<Rightarrow> int \<Rightarrow> nat \<Rightarrow> int \<Rightarrow> int \<Rightarrow> sysdb \<Rightarrow> int \<times> sysdb" where
  "garbageCollectInBatches env s cutoff batchSize k watermark deletedCount db =
     (case batch_step s cutoff batchSize watermark db of
        None \<Rightarrow> (deletedCount + rows_affected (above s cutoff watermark) db, delete_wf (above s cutoff watermark) db)
      | Some step \<Rightarrow>
          let batch = (\<lambda>r. above s cutoff watermark r \<and> sql_le (ws_completed_at r) step) in
          garbageCollectInBatches env s cutoff batchSize (Suc k) step
            (deletedCount + rows_affected batch db) (env k (delete_wf batch db)))"
  by pat_completeness auto
termination
  by (relation "measure (\<lambda>(_, _, cutoff, _, _, watermark, _, _). nat (cutoff - watermark))")
    (auto dest: batch_step_SomeD)

declare garbageCollectInBatches.simps [simp del]

definition GarbageCollectWorkflows ::
  "(nat \<Rightarrow> sysdb \<Rightarrow> sysdb) \<Rightarrow> SysDB \<Rightarrow> GarbageCollectWorkflowsInput \<Rightarrow> sysdb \<Rightarrow> (unit \<times> sysdb) res" where
  "GarbageCollectWorkflows env s inp db =
     (let positive = (\<lambda>v. case v of None \<Rightarrow> True | Some n \<Rightarrow> 0 < (n :: int)) in
      if \<not> positive (RowsThreshold inp) then
        Inl (ErrorText (''rowsThreshold must be greater than 0, got '' @ show_int (the (RowsThreshold inp))))
      else if \<not> positive (BatchSize inp) then
        Inl (ErrorText (''batchSize must be greater than 0, got '' @ show_int (the (BatchSize inp))))
      else
        (case cutoffTimestamp s inp db of
           None \<Rightarrow> Inr ((), db)
         | Some cutoff \<Rightarrow>
             (case BatchSize inp of
                None \<Rightarrow> Inr ((), delete_wf (gcFilter s cutoff) db)
              | Some n \<Rightarrow> Inr ((), snd (garbageCollectInBatches env s cutoff n 0 0 0 db)))))"

section \<open>Batches\<close>

lemma delete_wf_fuse: "delete_wf p (delete_wf q db) = delete_wf (\<lambda>r. q r \<or> p r) db"
proof -
  have f: "filter f (filter g xs) = filter (\<lambda>x. g x \<and> f x) xs" for f g and xs :: "'x list"
    by (induction xs) auto
  have "set (wf_ids (filter (\<lambda>r. \<not> q r \<and> p r) (workflow_status db))) \<union> set (wf_ids (filter q (workflow_status db)))
      = set (wf_ids (filter (\<lambda>r. q r \<or> p r) (workflow_status db)))" by auto
  then have g: "(x \<notin> set (wf_ids (filter q (workflow_status db))) \<and>
       x \<notin> set (wf_ids (filter (\<lambda>r. \<not> q r \<and> p r) (workflow_status db)))) \<longleftrightarrow>
     x \<notin> set (wf_ids (filter (\<lambda>r. q r \<or> p r) (workflow_status db)))" for x by blast
  show ?thesis unfolding delete_wf_def Let_def by (simp add: delete_where_def f g del: set_map)
qed

lemma delete_wf_cong:
  "(\<And>r. r \<in> set (workflow_status db) \<Longrightarrow> p r = q r) \<Longrightarrow> delete_wf p db = delete_wf q db"
  by (simp add: delete_wf_def Let_def delete_where_def cong: filter_cong)

lemma delete_wf_status [simp]: "workflow_status (delete_wf p db) = delete_where p (workflow_status db)"
  by (simp add: delete_wf_def Let_def)

text \<open>Without interference the batches delete what a single statement above the watermark deletes.\<close>

lemma batches_eq_delete:
  "snd (garbageCollectInBatches (\<lambda>_ db. db) s cutoff n k wm d db) = delete_wf (above s cutoff wm) db"
proof (induction "\<lambda>(_ :: nat) (db :: sysdb). db" s cutoff n k wm d db rule: garbageCollectInBatches.induct)
  case (1 s cutoff n k wm d db)
  show ?case
  proof (cases "batch_step s cutoff n wm db")
    case None
    then show ?thesis by (simp add: garbageCollectInBatches.simps)
  next
    case (Some c)
    have "sql_gt x wm \<longleftrightarrow> sql_gt x wm \<and> sql_le x c \<or> sql_gt x c" for x
      using batch_step_SomeD [OF Some] by (cases x) auto
    then have "delete_wf (above s cutoff c)
        (delete_wf (\<lambda>r. above s cutoff wm r \<and> sql_le (ws_completed_at r) c) db) = delete_wf (above s cutoff wm) db"
      unfolding delete_wf_fuse by (intro delete_wf_cong) (auto simp: above_def)
    then show ?thesis using 1 [OF Some refl] Some
      by (subst garbageCollectInBatches.simps) (simp add: Let_def)
  qed
qed

lemma batches_clear:
  assumes "\<And>k db r. r \<in> set (workflow_status (env k db)) \<Longrightarrow> gcFilter s cutoff r \<Longrightarrow>
      \<exists>x \<in> set (workflow_status db). gcFilter s cutoff x \<and> ws_completed_at x = ws_completed_at r"
    and "\<And>r. r \<in> set (workflow_status db) \<Longrightarrow> gcFilter s cutoff r \<Longrightarrow> sql_gt (ws_completed_at r) wm"
  shows "r \<in> set (workflow_status (snd (garbageCollectInBatches env s cutoff n k wm d db))) \<Longrightarrow>
    \<not> gcFilter s cutoff r"
  using assms
proof (induction env s cutoff n k wm d db rule: garbageCollectInBatches.induct)
  case (1 env s cutoff n k wm d db)
  show ?case
  proof (cases "batch_step s cutoff n wm db")
    case None
    then show ?thesis using 1(2,4)
      by (auto simp: garbageCollectInBatches.simps [of env] above_def)
  next
    case (Some c)
    let ?batch = "\<lambda>r. above s cutoff wm r \<and> sql_le (ws_completed_at r) c"
    have rest: "sql_gt (ws_completed_at r) c"
      if in_env: "r \<in> set (workflow_status (env k (delete_wf ?batch db)))" and el: "gcFilter s cutoff r" for r
    proof -
      obtain x where "x \<in> set (workflow_status db)" "gcFilter s cutoff x" "\<not> ?batch x"
          "ws_completed_at x = ws_completed_at r"
        using 1(3) [OF in_env el] by auto
      then show ?thesis using 1(4) [of x] by (cases "ws_completed_at r") (auto simp: above_def)
    qed
    have "r \<in> set (workflow_status (snd (garbageCollectInBatches env s cutoff n (Suc k) c
        (d + rows_affected ?batch db) (env k (delete_wf ?batch db)))))"
      using 1(2) Some by (subst (asm) garbageCollectInBatches.simps) (simp add: Let_def)
    then show ?thesis by (rule 1(1) [OF Some refl _ 1(3) rest]) assumption
  qed
qed

section \<open>Properties\<close>

definition finished_row :: "string \<Rightarrow> int \<Rightarrow> wf_row" where
  "finished_row wid c = (default_wf_row wid WorkflowStatusSuccess c)\<lparr>ws_completed_at := Some c\<rparr>"

definition sample_history :: sysdb where
  "sample_history = empty_sysdb\<lparr>workflow_status :=
     [finished_row ''a'' 10, finished_row ''b'' 30, finished_row ''c'' 20]\<rparr>"



text \<open>
  A batched pass that runs beside other transactions leaves no eligible row behind, provided
  the others never make a row eligible (a workflow that completes meanwhile takes a completion time
  at or after the cutoff).
\<close>

theorem gc_batches_leave_nothing:
  assumes "GarbageCollectWorkflows env s inp db = Inr ((), db')" and "BatchSize inp = Some n"
    and "cutoffTimestamp s inp db = Some cutoff"
    and "\<forall>r \<in> set (workflow_status db). \<forall>c. ws_completed_at r = Some c \<longrightarrow> 0 < c"
    and "\<forall>k d r. r \<in> set (workflow_status (env k d)) \<longrightarrow> gcFilter s cutoff r \<longrightarrow>
      (\<exists>x \<in> set (workflow_status d). gcFilter s cutoff x \<and> ws_completed_at x = ws_completed_at r)"
  shows "\<forall>r \<in> set (workflow_status db'). \<not> gcFilter s cutoff r"
proof
  fix r assume r: "r \<in> set (workflow_status db')"
  have "db' = snd (garbageCollectInBatches env s cutoff n 0 0 0 db)"
    using assms(1-3) by (auto simp: GarbageCollectWorkflows_def Let_def split: if_splits option.splits)
  moreover have "sql_gt (ws_completed_at x) 0" if "x \<in> set (workflow_status db)" "gcFilter s cutoff x" for x
    using assms(4) that by (cases "ws_completed_at x") (auto simp: gcFilter_def)
  ultimately show "\<not> gcFilter s cutoff r"
    using batches_clear [of env s cutoff db 0 r n 0 0] assms(5) r by blast
qed

theorem gc_batches_leave_nothing_witness:
  "filter (gcFilter sample_sysdb_ctx 25)
     (workflow_status (snd (garbageCollectInBatches (\<lambda>_ db. db) sample_sysdb_ctx 25 1 0 0 0 sample_history))) = []"
proof -
  let ?inp = "\<lparr>CutoffEpochTimestampMs = Some 25, RowsThreshold = None, BatchSize = Some 1\<rparr>"
  let ?db' = "snd (garbageCollectInBatches (\<lambda>_ db. db) sample_sysdb_ctx 25 1 0 0 0 sample_history)"
  have "GarbageCollectWorkflows (\<lambda>_ db. db) sample_sysdb_ctx ?inp sample_history = Inr ((), ?db')"
    by (simp add: GarbageCollectWorkflows_def cutoffTimestamp_def)
  then have "\<forall>r \<in> set (workflow_status ?db'). \<not> gcFilter sample_sysdb_ctx 25 r"
    by (rule gc_batches_leave_nothing) (auto simp: cutoffTimestamp_def sample_history_def finished_row_def)
  then show ?thesis by (simp add: filter_empty_conv)
qed

lemma sorted_desc_keep:
  fixes xs :: "int list"
  assumes "sorted_wrt (\<ge>) xs" and "m < length xs"
  shows "m < length (filter (\<lambda>x. xs ! m \<le> x) xs)"
    and "distinct xs \<Longrightarrow> length (filter (\<lambda>x. xs ! m \<le> x) xs) = Suc m"
proof -
  define c where "c = xs ! m"
  have ge: "c \<le> x" if "x \<in> set (take m xs)" for x
    using sorted_wrt_nth_less [OF assms(1)] that assms(2) by (auto simp: in_set_conv_nth c_def)
  have split: "filter (\<lambda>x. c \<le> x) xs = take m xs @ c # filter (\<lambda>x. c \<le> x) (drop (Suc m) xs)"
    by (subst id_take_nth_drop [OF assms(2)]) (simp add: c_def [symmetric] filter_id_conv ge)
  then show "m < length (filter (\<lambda>x. xs ! m \<le> x) xs)" using assms(2) by (simp add: c_def [symmetric])
  assume d: "distinct xs"
  have "xs ! (Suc m + i) < c" if "i < length xs - Suc m" for i
  proof -
    have l: "Suc m + i < length xs" using that by linarith
    then have "xs ! (Suc m + i) \<le> c" using sorted_wrt_nth_less [OF assms(1), of m "Suc m + i"] by (simp add: c_def)
    moreover have "xs ! (Suc m + i) \<noteq> c" using d l assms(2) by (simp add: nth_eq_iff_index_eq c_def)
    ultimately show ?thesis by simp
  qed
  then have "\<forall>x \<in> set (drop (Suc m) xs). \<not> c \<le> x" unfolding all_set_conv_all_nth by (auto simp: not_le)
  then have "filter (\<lambda>x. c \<le> x) (drop (Suc m) xs) = []" by (simp add: filter_empty_conv)
  then show "length (filter (\<lambda>x. xs ! m \<le> x) xs) = Suc m" using split assms(2) by (simp add: c_def [symmetric])
qed

definition completed_here :: "SysDB \<Rightarrow> wf_row \<Rightarrow> bool" where
  "completed_here s r = (ws_completed_at r \<noteq> None \<and> nameFilter s (ws_application_name r))"

definition completions :: "SysDB \<Rightarrow> sysdb \<Rightarrow> int list" where
  "completions s db = map (\<lambda>r. the (ws_completed_at r)) (filter (completed_here s) (workflow_status db))"

lemma rowsBasedCutoff_nth:
  assumes "0 < n"
  shows "rowsBasedCutoff s n db =
    (if int (length (completions s db)) < n then 0 else rev (sort (completions s db)) ! nat (n - 1))"
proof -
  let ?rows = "filter (completed_here s) (workflow_status db)"
  let ?k = "\<lambda>r. the (ws_completed_at r)"
  have "sorted_wrt (\<ge>) (map ?k (order_by_desc ?k ?rows))"
    using sorted_sort_key [of "\<lambda>r. - ?k r" ?rows] unfolding order_by_desc_def sorted_wrt_map by simp
  then have "sorted (rev (map ?k (order_by_desc ?k ?rows)))" by (simp add: sorted_wrt_rev)
  moreover have "mset (rev (map ?k (order_by_desc ?k ?rows))) = mset (completions s db)"
    by (simp add: completions_def)
  ultimately have "sort (completions s db) = rev (map ?k (order_by_desc ?k ?rows))"
    by (intro properties_for_sort)
  then have desc: "rev (sort (completions s db)) = map ?k (order_by_desc ?k ?rows)" by simp
  let ?d = "order_by_desc ?k ?rows"
  have R: "rowsBasedCutoff s n db = (case drop (nat (n - 1)) ?d of [] \<Rightarrow> 0 | r # _ \<Rightarrow> ?k r)"
    unfolding rowsBasedCutoff_def offset_rows_def completed_here_def [abs_def] ..
  have len: "length ?d = length (completions s db)" by (simp add: completions_def)
  show ?thesis
  proof (cases "int (length (completions s db)) < n")
    case True
    then have "drop (nat (n - 1)) ?d = []" using len by simp
    then show ?thesis using R True by simp
  next
    case False
    have less: "nat (n - 1) < length ?d" using False assms len by linarith
    then have "drop (nat (n - 1)) ?d = ?d ! nat (n - 1) # drop (Suc (nat (n - 1))) ?d" by (metis Cons_nth_drop_Suc)
    then have "rowsBasedCutoff s n db = ?k (?d ! nat (n - 1))" unfolding R by simp
    then show ?thesis using desc False less by simp
  qed
qed

text \<open>
  Collecting down to the newest \<open>n\<close> completed workflows keeps at least the \<open>n\<close> newest of them
  (all of them when there are fewer), and exactly \<open>n\<close> when no two completed at the same time.
\<close>

theorem gc_rows_threshold_keeps_newest:
  assumes "0 < n" and "RowsThreshold inp = Some n" and "CutoffEpochTimestampMs inp = None" and "BatchSize inp = None"
    and "\<forall>r \<in> set (workflow_status db). \<forall>c. ws_completed_at r = Some c \<longrightarrow> 0 < c"
    and "GarbageCollectWorkflows env s inp db = Inr ((), db')"
  shows "min n (int (length (completions s db))) \<le> int (length (completions s db')) \<and>
    (distinct (completions s db) \<longrightarrow> int (length (completions s db')) = min n (int (length (completions s db))))"
proof (cases "int (length (completions s db)) < n")
  case True
  then have "db' = db" using assms
    by (simp add: GarbageCollectWorkflows_def cutoffTimestamp_def rowsBasedCutoff_nth)
  then show ?thesis using True by simp
next
  case False
  define xs where "xs = rev (sort (completions s db))"
  define c where "c = xs ! nat (n - 1)"
  have m: "nat (n - 1) < length xs" using False assms(1) by (simp add: xs_def)
  have "c \<in> set (completions s db)" using nth_mem [OF m] by (simp add: c_def xs_def)
  then have "0 < c" using assms(5) by (auto simp: completions_def completed_here_def)
  then have "cutoffTimestamp s inp db = Some c" using assms(1-3) False
    by (simp add: cutoffTimestamp_def rowsBasedCutoff_nth c_def xs_def)
  then have "db' = delete_wf (gcFilter s c) db" using assms(1,2,4,6) by (simp add: GarbageCollectWorkflows_def)
  moreover have "completed_here s r \<and> \<not> gcFilter s c r \<longleftrightarrow> completed_here s r \<and> c \<le> the (ws_completed_at r)" for r
    by (auto simp: gcFilter_def completed_here_def)
  ultimately have kept: "completions s db' = filter (\<lambda>x. c \<le> x) (completions s db)"
    by (simp add: completions_def delete_where_def filter_map o_def conj_commute)
  have "length (filter (\<lambda>x. c \<le> x) (completions s db)) = length (filter (\<lambda>x. c \<le> x) xs)"
    by (simp add: xs_def rev_filter [symmetric] filter_sort)
  moreover have "sorted_wrt (\<ge>) xs" by (simp add: xs_def sorted_wrt_rev)
  moreover have "distinct xs = distinct (completions s db)" by (simp add: xs_def)
  ultimately show ?thesis using sorted_desc_keep [of xs "nat (n - 1)"] m False assms(1) unfolding kept c_def
    by auto
qed

theorem gc_rows_threshold_keeps_newest_witness:
  "length (completions sample_sysdb_ctx (delete_wf (gcFilter sample_sysdb_ctx 20) sample_history)) = 2"
proof -
  let ?inp = "\<lparr>CutoffEpochTimestampMs = None, RowsThreshold = Some 2, BatchSize = None\<rparr>"
  have cs: "completions sample_sysdb_ctx sample_history = [10, 30, 20]"
    by (simp add: completions_def completed_here_def sample_history_def finished_row_def nameFilter_def default_wf_row_def)
  then have "GarbageCollectWorkflows (\<lambda>_ db. db) sample_sysdb_ctx ?inp sample_history =
      Inr ((), delete_wf (gcFilter sample_sysdb_ctx 20) sample_history)"
    by (simp add: GarbageCollectWorkflows_def cutoffTimestamp_def rowsBasedCutoff_nth)
  from gc_rows_threshold_keeps_newest [OF _ _ _ _ _ this] cs show ?thesis
    by (simp add: sample_history_def finished_row_def)
qed

end
