(* ===== verification/Fork.thy ===== *)
theory Fork
  imports Comms Queues GC
begin

text \<open>
  Forking workflows (\<^verbatim>\<open>ForkWorkflows\<close> and \<^verbatim>\<open>ForkFrom\<close> of
  \<^verbatim>\<open>src/dbos/internal/sysdb/system_database.go\<close>): a fork is a new \<^verbatim>\<open>ENQUEUED\<close> workflow that starts
  with copies of its original's checkpoints, event history, latest events and streams below the
  start step, and of its read audience. The whole operation is one transaction: any violated
  constraint discards it.
\<close>

section \<open>Operations\<close>

record ForkWorkflowsDBInput =
  f_OriginalWorkflowIDs :: "string list"
  f_ForkedWorkflowIDs :: "string list"
  f_StartSteps :: "int list"
  f_ApplicationVersion :: string
  f_QueueName :: string
  f_QueuePartitionKey :: string
  f_Timeout :: duration
  f_ReplacementChildren :: "(string \<times> string) list"

text \<open>One branch of the \<^verbatim>\<open>UNION ALL\<close> mapping.\<close>

record fork_mapping =
  m_orig_id :: string
  m_fork_id :: string
  m_start_step :: int
  m_owner :: "string option"

definition fork_ids :: "(nat \<Rightarrow> string) \<Rightarrow> ForkWorkflowsDBInput \<Rightarrow> string list" where
  "fork_ids uuids inp =
     map (\<lambda>i. if f_ForkedWorkflowIDs inp \<noteq> [] \<and> f_ForkedWorkflowIDs inp ! i \<noteq> [] then f_ForkedWorkflowIDs inp ! i
              else uuids i) [0..<length (f_OriginalWorkflowIDs inp)]"

definition fork_owner :: "SysDB \<Rightarrow> WorkflowStatus \<Rightarrow> string option" where
  "fork_owner s orig = (if W_ApplicationName orig \<noteq> [] then Some (W_ApplicationName orig) else owner s)"

definition fork_row :: "SysDB \<Rightarrow> instant \<Rightarrow> ForkWorkflowsDBInput \<Rightarrow> string \<Rightarrow> WorkflowStatus \<Rightarrow> wf_row" where
  "fork_row s now inp fid orig =
     (default_wf_row fid WorkflowStatusEnqueued (UnixMilli now))\<lparr>
        ws_name := W_Name orig,
        ws_authenticated_user := Some (W_AuthenticatedUser orig),
        ws_assumed_role := Some (W_AssumedRole orig),
        ws_authenticated_roles := W_AuthenticatedRoles orig,
        ws_application_version :=
          Some (if f_ApplicationVersion inp \<noteq> [] then f_ApplicationVersion inp else W_ApplicationVersion orig),
        ws_application_id := Some (W_ApplicationID orig),
        ws_queue_name := Some (if f_QueueName inp = [] then InternalQueueName else f_QueueName inp),
        ws_queue_partition_key := nonempty (f_QueuePartitionKey inp),
        ws_inputs := W_Input orig,
        ws_recovery_attempts := 0,
        ws_forked_from := Some (W_ID orig),
        ws_serialization := Some (W_Serialization orig),
        ws_class_name := nonempty (W_ClassName orig),
        ws_config_name := W_ConfigName orig,
        ws_attributes := (if W_Attributes orig = [] then None else Some (W_Attributes orig)),
        ws_application_name := fork_owner s orig,
        ws_workflow_timeout_ms := (if 0 < f_Timeout inp then Some (duration_round_ms (f_Timeout inp)) else None)\<rparr>"

definition redirect_child :: "(string \<times> string) list \<Rightarrow> string option \<Rightarrow> string option" where
  "redirect_child repl c =
     (case c of None \<Rightarrow> None | Some x \<Rightarrow> (case map_of repl x of None \<Rightarrow> Some x | Some y \<Rightarrow> Some y))"

definition copy_op :: "(string \<times> string) list \<Rightarrow> string \<Rightarrow> string option \<Rightarrow> op_row \<Rightarrow> op_row" where
  "copy_op repl fid own r = r\<lparr>oo_workflow_uuid := fid,
     oo_child_workflow_id := redirect_child repl (oo_child_workflow_id r), oo_application_name := own\<rparr>"

definition copy_rows :: "(fork_mapping \<Rightarrow> 'r \<Rightarrow> bool) \<Rightarrow> (fork_mapping \<Rightarrow> 'r \<Rightarrow> 'x) \<Rightarrow> fork_mapping list \<Rightarrow> 'r list \<Rightarrow> 'x list" where
  "copy_rows sel conv ms rows = concat (map (\<lambda>m. map (conv m) (filter (sel m) rows)) ms)"

text \<open>\<^verbatim>\<open>ROW_NUMBER() OVER (PARTITION BY fork_id, key ORDER BY function_id DESC) = 1\<close>.\<close>

definition latest_history :: "fork_mapping \<Rightarrow> event_history_row list \<Rightarrow> event_history_row \<Rightarrow> bool" where
  "latest_history m hs h =
     (eh_workflow_uuid h = m_orig_id m \<and> eh_function_id h < m_start_step m \<and>
      \<not> exists_where (\<lambda>x. eh_workflow_uuid x = m_orig_id m \<and> eh_function_id x < m_start_step m \<and>
           eh_key x = eh_key h \<and> eh_function_id h < eh_function_id x) hs)"

definition copied_ops :: "(string \<times> string) list \<Rightarrow> fork_mapping list \<Rightarrow> sysdb \<Rightarrow> op_row list" where
  "copied_ops repl ms db =
     copy_rows (\<lambda>m r. oo_workflow_uuid r = m_orig_id m \<and> oo_function_id r < m_start_step m)
       (\<lambda>m. copy_op repl (m_fork_id m) (m_owner m)) ms (operation_outputs db)"

definition copied_history :: "fork_mapping list \<Rightarrow> sysdb \<Rightarrow> event_history_row list" where
  "copied_history ms db =
     copy_rows (\<lambda>m r. eh_workflow_uuid r = m_orig_id m \<and> eh_function_id r < m_start_step m)
       (\<lambda>m r. r\<lparr>eh_workflow_uuid := m_fork_id m\<rparr>) ms (workflow_events_history db)"

definition copied_events :: "fork_mapping list \<Rightarrow> sysdb \<Rightarrow> event_row list" where
  "copied_events ms db =
     copy_rows (\<lambda>m. latest_history m (workflow_events_history db))
       (\<lambda>m h. \<lparr>ev_workflow_uuid = m_fork_id m, ev_key = eh_key h, ev_value = eh_value h,
          ev_serialization = eh_serialization h\<rparr>) ms (workflow_events_history db)"

definition copied_streams :: "fork_mapping list \<Rightarrow> sysdb \<Rightarrow> stream_row list" where
  "copied_streams ms db =
     copy_rows (\<lambda>m r. st_workflow_uuid r = m_orig_id m \<and> st_function_id r < m_start_step m)
       (\<lambda>m r. r\<lparr>st_workflow_uuid := m_fork_id m\<rparr>) ms (streams db)"

definition copied_audience :: "fork_mapping list \<Rightarrow> sysdb \<Rightarrow> read_audience_row list" where
  "copied_audience ms db =
     copy_rows (\<lambda>m r. ra_workflow_uuid r = m_orig_id m)
       (\<lambda>m r. r\<lparr>ra_workflow_uuid := m_fork_id m\<rparr>) ms (workflow_read_audience db)"

text \<open>
  The inserts in their order: status rows, checkpoints, event history, latest events, streams,
  then the mark on the originals and the read audience. \<open>ms\<close> are all pairs, of which those with
  a positive start step take part in the copies.
\<close>

definition fork_write ::
  "(string \<times> string) list \<Rightarrow> string list \<Rightarrow> fork_mapping list \<Rightarrow> wf_row list \<Rightarrow> sysdb \<Rightarrow> sysdb res" where
  "fork_write repl origs ms new db =
     (let cs = filter (\<lambda>m. 0 < m_start_step m) ms in
      case insert_all ''failed to insert forked workflow statuses: '' ws_workflow_uuid new (workflow_status db) of
        Inl e \<Rightarrow> Inl e
      | Inr rows \<Rightarrow>
      (case insert_all ''failed to copy operation outputs: '' op_key (copied_ops repl cs db) (operation_outputs db) of
        Inl e \<Rightarrow> Inl e
      | Inr ops \<Rightarrow>
      (case insert_all ''failed to copy workflow events history: '' history_key (copied_history cs db) (workflow_events_history db) of
        Inl e \<Rightarrow> Inl e
      | Inr hist \<Rightarrow>
      (case insert_all ''failed to copy latest workflow events: '' event_key (copied_events cs db) (workflow_events db) of
        Inl e \<Rightarrow> Inl e
      | Inr evs \<Rightarrow>
      (case insert_all ''failed to copy streams: '' stream_key (copied_streams cs db) (streams db) of
        Inl e \<Rightarrow> Inl e
      | Inr strs \<Rightarrow>
      (case insert_all ''failed to copy read audience: '' audience_key (copied_audience ms db) (workflow_read_audience db) of
        Inl e \<Rightarrow> Inl e
      | Inr aud \<Rightarrow>
          Inr (db\<lparr>workflow_status := update_where (\<lambda>r. ws_workflow_uuid r \<in> set origs) (\<lambda>r. r\<lparr>ws_was_forked_from := True\<rparr>) rows,
             operation_outputs := ops, workflow_events := evs, workflow_events_history := hist,
             streams := strs, workflow_read_audience := aud\<rparr>)))))))"

definition ForkWorkflows ::
  "(nat \<Rightarrow> string) \<Rightarrow> SysDB \<Rightarrow> instant \<Rightarrow> ForkWorkflowsDBInput \<Rightarrow> sysdb \<Rightarrow> (string list \<times> sysdb) res" where
  "ForkWorkflows uuids s now inp db =
     (let origs = f_OriginalWorkflowIDs inp; ids = fork_ids uuids inp in
      if origs = [] then Inr ([], db)
      else if length (f_StartSteps inp) \<noteq> length origs then
        Inl (ErrorText ''originalWorkflowIDs and startSteps must have the same length'')
      else if f_ForkedWorkflowIDs inp \<noteq> [] \<and> length (f_ForkedWorkflowIDs inp) \<noteq> length origs then
        Inl (ErrorText ''originalWorkflowIDs and forkedWorkflowIDs must have the same length'')
      else case find (\<lambda>k. k < 0) (f_StartSteps inp) of
        Some k \<Rightarrow> Inl (ErrorText (''startStep must be >= 0, got '' @ show_int k))
      | None \<Rightarrow>
      (case ListWorkflows s (zero_ListWorkflowsDBInput\<lparr>l_WorkflowIDs := origs, l_LoadInput := True\<rparr>) db of
        Inl e \<Rightarrow> Inl (Errorf ''failed to list workflows: '' e)
      | Inr wfs \<Rightarrow>
          let status = (\<lambda>wid. find (\<lambda>w. W_ID w = wid) wfs) in
          (case find (\<lambda>wid. status wid = None) origs of
             Some wid \<Rightarrow> Inl (NewNonExistentWorkflowError wid)
           | None \<Rightarrow>
               let new = map (\<lambda>(o', fid). fork_row s now inp fid (the (status o'))) (zip origs ids);
                   ms = map (\<lambda>(o', fid, k). \<lparr>m_orig_id = o', m_fork_id = fid, m_start_step = k,
                           m_owner = fork_owner s (the (status o'))\<rparr>) (zip origs (zip ids (f_StartSteps inp)))
               in map_sum id (\<lambda>db'. (ids, db')) (fork_write (f_ReplacementChildren inp) origs ms new db))))"

record ForkFromDBInput =
  ff_WorkflowIDs :: "string list"
  ff_ApplicationVersion :: string
  ff_QueueName :: string
  ff_QueuePartitionKey :: string
  FromLastFailure :: bool
  FromLastStep :: bool
  FromStep :: "int option"
  FromStepName :: "string option"

definition sql_max :: "int list \<Rightarrow> int option" where
  "sql_max xs = (if xs = [] then None else Some (Max (set xs)))"

text \<open>The row of the grouped query for one workflow; \<open>None\<close> when the group is empty.\<close>

definition start_step :: "ForkFromDBInput \<Rightarrow> string \<Rightarrow> sysdb \<Rightarrow> int option" where
  "start_step inp wid db =
     (let rows = filter (\<lambda>r. oo_workflow_uuid r = wid \<and>
            (case FromStepName inp of None \<Rightarrow> True | Some n \<Rightarrow> oo_function_name r = n)) (operation_outputs db);
          last = sql_max (map oo_function_id rows) in
      if FromLastFailure inp
      then coalesce (sql_max (map oo_function_id (filter (\<lambda>r. oo_error r \<noteq> None) rows))) last
      else last)"

definition ForkFrom ::
  "(nat \<Rightarrow> string) \<Rightarrow> SysDB \<Rightarrow> instant \<Rightarrow> ForkFromDBInput \<Rightarrow> sysdb \<Rightarrow> (string list \<times> sysdb) res" where
  "ForkFrom uuids s now inp db =
     (let modes = length (filter id [FromLastFailure inp, FromLastStep inp, FromStep inp \<noteq> None, FromStepName inp \<noteq> None]);
          ids = ff_WorkflowIDs inp;
          fork = (\<lambda>steps. ForkWorkflows uuids s now
            \<lparr>f_OriginalWorkflowIDs = ids, f_ForkedWorkflowIDs = [], f_StartSteps = steps,
             f_ApplicationVersion = ff_ApplicationVersion inp, f_QueueName = ff_QueueName inp,
             f_QueuePartitionKey = ff_QueuePartitionKey inp, f_Timeout = 0, f_ReplacementChildren = []\<rparr> db) in
      if modes \<noteq> 1 then
        Inl (ErrorText ''exactly one of fromLastFailure, fromLastStep, fromStep, or fromStepName must be specified'')
      else if ids = [] then Inr ([], db)
      else case FromStep inp of
        Some k \<Rightarrow> fork (map (\<lambda>_. k) ids)
      | None \<Rightarrow>
          (case find (\<lambda>wid. start_step inp wid db = None) ids of
             Some wid \<Rightarrow>
               Inl (ErrorText (''workflow '' @ wid @
                 (case FromStepName inp of None \<Rightarrow> '' has no steps''
                  | Some n \<Rightarrow> '' has no step named '' @ quoted n)))
           | None \<Rightarrow> fork (map (\<lambda>wid. the (start_step inp wid db)) ids)))"

section \<open>Copies\<close>

lemma set_copy_rows [simp]:
  "x \<in> set (copy_rows sel conv ms rows) \<longleftrightarrow> (\<exists>m \<in> set ms. \<exists>r \<in> set rows. sel m r \<and> x = conv m r)"
  by (auto simp: copy_rows_def)

lemma distinct_copy_rows:
  assumes "distinct (map m_fork_id ms)"
    and "\<And>m r. fst (key (conv m r)) = m_fork_id m"
    and "\<And>m. m \<in> set ms \<Longrightarrow> distinct (map (\<lambda>r. key (conv m r)) (filter (sel m) rows))"
  shows "distinct (map key (copy_rows sel conv ms rows))"
  using assms(1,3)
proof (induction ms)
  case (Cons m ms)
  have "key x \<noteq> key y" if "x \<in> conv m ` set (filter (sel m) rows)" "y \<in> set (copy_rows sel conv ms rows)" for x y
    using that Cons.prems(1) by (auto dest!: arg_cong [of "key _" "key _" fst] simp: assms(2))
  then have "key ` conv m ` set (filter (sel m) rows) \<inter> key ` set (copy_rows sel conv ms rows) = {}" by blast
  then show ?case using Cons
    by (simp add: copy_rows_def [of _ _ "m # ms"] copy_rows_def [of _ _ ms] o_def image_image)
qed (simp add: copy_rows_def)

text \<open>Rows of one original differ in what follows the workflow id in their key.\<close>

lemma distinct_rekey:
  assumes "distinct (map key rows)" and "\<And>r. r \<in> set rows \<Longrightarrow> p r \<Longrightarrow> fst (key r) = w"
  shows "distinct (map (\<lambda>r. (f, snd (key r))) (filter p rows))"
proof -
  have "inj_on (\<lambda>r. (f, snd (key r))) (set (filter p rows))"
  proof (rule inj_onI)
    fix x y assume "x \<in> set (filter p rows)" "y \<in> set (filter p rows)" "(f, snd (key x)) = (f, snd (key y))"
    moreover from this have "key x = key y" using assms(2) [of x] assms(2) [of y] by (simp add: prod_eq_iff)
    ultimately show "x = y" using assms(1) by (auto simp: distinct_map dest: inj_onD)
  qed
  moreover have "distinct (filter p rows)" using assms(1) by (simp add: distinct_map)
  ultimately show ?thesis by (simp add: distinct_map)
qed

lemma insert_all_InrD:
  "insert_all what key new rows = Inr rows' \<Longrightarrow>
     rows' = rows @ new \<and> distinct (map key new) \<and> key ` set rows \<inter> key ` set new = {}"
  by (auto simp: insert_all_def list_all_iff split: if_splits)

lemma latest_history_unique:
  assumes "distinct (map history_key hs)" and "h \<in> set hs" and "x \<in> set hs"
    and "latest_history m hs h" and "latest_history m hs x" and "eh_key h = eh_key x"
  shows "h = x"
proof -
  have "eh_function_id h = eh_function_id x" using assms(2-6) by (force simp: latest_history_def)
  then have "history_key h = history_key x" using assms(4-6) by (simp add: latest_history_def)
  then show ?thesis using assms(1-3) by (auto simp: distinct_map dest: inj_onD)
qed

lemma copied_distinct:
  assumes "db_inv db" and "distinct (map m_fork_id ms)"
  shows "distinct (map op_key (copied_ops repl ms db))"
    and "distinct (map history_key (copied_history ms db))"
    and "distinct (map stream_key (copied_streams ms db))"
    and "distinct (map audience_key (copied_audience ms db))"
    and "distinct (map event_key (copied_events ms db))"
proof -
  note pk = assms(1) [unfolded db_inv_def pk_ok_def]
  show "distinct (map op_key (copied_ops repl ms db))" unfolding copied_ops_def
    using pk by (intro distinct_copy_rows [OF assms(2)])
      (auto simp: copy_op_def intro: distinct_rekey [where key = op_key, simplified])
  show "distinct (map history_key (copied_history ms db))" unfolding copied_history_def
    using pk by (intro distinct_copy_rows [OF assms(2)])
      (auto intro: distinct_rekey [where key = history_key, simplified])
  show "distinct (map stream_key (copied_streams ms db))" unfolding copied_streams_def
    using pk by (intro distinct_copy_rows [OF assms(2)])
      (auto intro: distinct_rekey [where key = stream_key, simplified])
  show "distinct (map audience_key (copied_audience ms db))" unfolding copied_audience_def
    using pk by (intro distinct_copy_rows [OF assms(2)])
      (auto intro: distinct_rekey [where key = audience_key, simplified])
  have "distinct (workflow_events_history db)" using pk by (simp add: distinct_map)
  then show "distinct (map event_key (copied_events ms db))" unfolding copied_events_def
    using latest_history_unique [of "workflow_events_history db"] pk
    by (intro distinct_copy_rows [OF assms(2)]) (auto simp: distinct_map intro!: inj_onI)
qed

text \<open>Copies never collide with rows of workflows that existed before.\<close>

lemma copies_fresh:
  assumes "(fst \<circ> key) ` set rows \<subseteq> ids" and "\<And>m r. fst (key (conv m r)) = m_fork_id m"
    and "m_fork_id ` set ms \<inter> ids = {}"
  shows "key ` set rows \<inter> key ` set (copy_rows sel conv ms rows0) = {}"
proof (rule equals0I)
  fix k assume "k \<in> key ` set rows \<inter> key ` set (copy_rows sel conv ms rows0)"
  then have "fst k \<in> ids" "fst k \<in> m_fork_id ` set ms" using assms(1,2) by auto
  then show False using assms(3) by blast
qed

lemma insert_copies:
  assumes "distinct (map key (copy_rows sel conv ms rows0))" and "(fst \<circ> key) ` set rows \<subseteq> ids"
    and "\<And>m r. fst (key (conv m r)) = m_fork_id m" and "m_fork_id ` set ms \<inter> ids = {}"
  shows "insert_all what key (copy_rows sel conv ms rows0) rows = Inr (rows @ copy_rows sel conv ms rows0)"
  using copies_fresh [of key rows ids conv ms sel rows0, OF assms(2-4)] assms(1)
  by (intro insert_all_fresh) blast+

lemma fork_write_ok:
  assumes "db_inv db" and "distinct (map m_fork_id ms)"
    and "distinct (wf_ids new)" and "set (wf_ids (workflow_status db)) \<inter> set (wf_ids new) = {}"
    and "m_fork_id ` set ms \<subseteq> set (wf_ids new)"
  defines "cs \<equiv> filter (\<lambda>m. 0 < m_start_step m) ms"
  shows "fork_write repl origs ms new db =
    Inr (db\<lparr>workflow_status := update_where (\<lambda>r. ws_workflow_uuid r \<in> set origs)
               (\<lambda>r. r\<lparr>ws_was_forked_from := True\<rparr>) (workflow_status db @ new),
       operation_outputs := operation_outputs db @ copied_ops repl cs db,
       workflow_events := workflow_events db @ copied_events cs db,
       workflow_events_history := workflow_events_history db @ copied_history cs db,
       streams := streams db @ copied_streams cs db,
       workflow_read_audience := workflow_read_audience db @ copied_audience ms db\<rparr>)"
proof -
  let ?ids = "set (wf_ids (workflow_status db))"
  have dcs: "distinct (map m_fork_id cs)" using assms(2) by (simp add: cs_def distinct_map_filter)
  have new: "m_fork_id ` set ms \<inter> ?ids = {}" using assms(4,5) by blast
  then have newc: "m_fork_id ` set cs \<inter> ?ids = {}" by (auto simp: cs_def)
  note fk = assms(1) [unfolded db_inv_def fk_ok_def Let_def]
  note d = copied_distinct [OF assms(1) dcs] copied_distinct(4) [OF assms(1,2)]
  have "insert_all what op_key (copied_ops repl cs db) (operation_outputs db) = Inr (operation_outputs db @ copied_ops repl cs db)" for what
    using d(1) fk newc unfolding copied_ops_def by (intro insert_copies [where ids = ?ids]) (auto simp: copy_op_def)
  moreover have "insert_all what history_key (copied_history cs db) (workflow_events_history db) =
      Inr (workflow_events_history db @ copied_history cs db)" for what
    using d(2) fk newc unfolding copied_history_def by (intro insert_copies [where ids = ?ids]) auto
  moreover have "insert_all what event_key (copied_events cs db) (workflow_events db) =
      Inr (workflow_events db @ copied_events cs db)" for what
    using d(5) fk newc unfolding copied_events_def by (intro insert_copies [where ids = ?ids]) auto
  moreover have "insert_all what stream_key (copied_streams cs db) (streams db) = Inr (streams db @ copied_streams cs db)" for what
    using d(3) fk newc unfolding copied_streams_def by (intro insert_copies [where ids = ?ids]) auto
  moreover have "insert_all what audience_key (copied_audience ms db) (workflow_read_audience db) =
      Inr (workflow_read_audience db @ copied_audience ms db)" for what
    using d(6) fk new unfolding copied_audience_def by (intro insert_copies [where ids = ?ids]) auto
  moreover have "insert_all what ws_workflow_uuid new (workflow_status db) = Inr (workflow_status db @ new)" for what
    using assms(3,4) by (intro insert_all_fresh) auto
  ultimately show ?thesis by (simp add: fork_write_def cs_def Let_def)
qed

lemma option_eq_Some_I: "(\<And>r. a = Some r \<longleftrightarrow> b = Some r) \<Longrightarrow> a = b"
  by (cases a; cases b) auto

lemma lookup_by_order:
  assumes "distinct (map key rows)"
  shows "lookup_by key k (order_by f rows) = lookup_by key k rows"
proof -
  have "lookup_by key k (order_by f rows) = Some r \<longleftrightarrow> lookup_by key k rows = Some r" for r
    using assms by (simp add: lookup_by_in_iff)
  then show ?thesis by (rule option_eq_Some_I)
qed

lemma find_listed:
  assumes "distinct (wf_ids (workflow_status db))" and "wid \<in> set origs"
  shows "find (\<lambda>w. W_ID w = wid) (map (scan_row True False) (order_by ws_created_at
      (filter (\<lambda>r. ws_workflow_uuid r \<in> set origs) (workflow_status db)))) = map_option (scan_row True False) (find_wf wid db)"
proof -
  have 1: "find (\<lambda>w. W_ID w = wid) (map (scan_row li lo) rows) = map_option (scan_row li lo) (lookup_by ws_workflow_uuid wid rows)"
    for li lo rows by (induction rows) auto
  have 2: "lookup_by ws_workflow_uuid wid (filter (\<lambda>r. ws_workflow_uuid r \<in> set origs) rows) = lookup_by ws_workflow_uuid wid rows"
    for rows using assms(2) by (induction rows) auto
  show ?thesis unfolding 1 using assms(1) by (simp add: lookup_by_order distinct_map_filter 2)
qed

definition original :: "sysdb \<Rightarrow> string \<Rightarrow> WorkflowStatus" where
  "original db wid = scan_row True False (the (find_wf wid db))"

definition fork_mappings :: "SysDB \<Rightarrow> sysdb \<Rightarrow> string list \<Rightarrow> ForkWorkflowsDBInput \<Rightarrow> fork_mapping list" where
  "fork_mappings s db ids inp =
     map (\<lambda>(o', fid, k). \<lparr>m_orig_id = o', m_fork_id = fid, m_start_step = k, m_owner = fork_owner s (original db o')\<rparr>)
       (zip (f_OriginalWorkflowIDs inp) (zip ids (f_StartSteps inp)))"

definition fork_rows :: "SysDB \<Rightarrow> instant \<Rightarrow> sysdb \<Rightarrow> string list \<Rightarrow> ForkWorkflowsDBInput \<Rightarrow> wf_row list" where
  "fork_rows s now db ids inp =
     map (\<lambda>(o', fid). fork_row s now inp fid (original db o')) (zip (f_OriginalWorkflowIDs inp) ids)"

lemma length_fork_ids [simp]: "length (fork_ids uuids inp) = length (f_OriginalWorkflowIDs inp)"
  by (simp add: fork_ids_def)

lemma fork_row_uuid [simp]: "ws_workflow_uuid (fork_row s now inp fid orig) = fid"
  by (simp add: fork_row_def)

lemma list_where_many:
  "origs \<noteq> [] \<Longrightarrow> list_where s (zero_ListWorkflowsDBInput\<lparr>l_WorkflowIDs := origs, l_LoadInput := True\<rparr>) =
     (\<lambda>r. ws_workflow_uuid r \<in> set origs)"
  by (rule ext) (simp add: list_where_def zero_ListWorkflowsDBInput_def where_defs)

lemma ForkWorkflows_eq:
  assumes "db_inv db" and "f_OriginalWorkflowIDs inp \<noteq> []"
    and "length (f_StartSteps inp) = length (f_OriginalWorkflowIDs inp)"
    and "f_ForkedWorkflowIDs inp = [] \<or> length (f_ForkedWorkflowIDs inp) = length (f_OriginalWorkflowIDs inp)"
    and "find (\<lambda>k. k < 0) (f_StartSteps inp) = None"
  shows "ForkWorkflows uuids s now inp db =
    (case find (\<lambda>wid. find_wf wid db = None) (f_OriginalWorkflowIDs inp) of
       Some wid \<Rightarrow> Inl (NewNonExistentWorkflowError wid)
     | None \<Rightarrow> map_sum id (\<lambda>db'. (fork_ids uuids inp, db'))
         (fork_write (f_ReplacementChildren inp) (f_OriginalWorkflowIDs inp)
           (fork_mappings s db (fork_ids uuids inp) inp) (fork_rows s now db (fork_ids uuids inp) inp) db))"
proof -
  let ?origs = "f_OriginalWorkflowIDs inp"
  let ?wfs = "map (scan_row True False) (order_by ws_created_at
      (filter (\<lambda>r. ws_workflow_uuid r \<in> set ?origs) (workflow_status db)))"
  let ?st = "\<lambda>wid. find (\<lambda>w. W_ID w = wid) ?wfs"
  have st: "?st wid = map_option (scan_row True False) (find_wf wid db)" if "wid \<in> set ?origs" for wid
    using find_listed [OF db_inv_ids [OF assms(1)] that] .
  have miss: "find (\<lambda>wid. ?st wid = None) ?origs = find (\<lambda>wid. find_wf wid db = None) ?origs"
    by (rule find_cong) (simp_all add: st)
  have new: "map (\<lambda>(o', fid). fork_row s now inp fid (the (?st o'))) (zip ?origs ids) = fork_rows s now db ids inp"
    and ms: "map (\<lambda>(o', fid, k). \<lparr>m_orig_id = o', m_fork_id = fid, m_start_step = k,
           m_owner = fork_owner s (the (?st o'))\<rparr>) (zip ?origs (zip ids (f_StartSteps inp))) = fork_mappings s db ids inp"
    if "find (\<lambda>wid. find_wf wid db = None) ?origs = None" for ids
    using that st by (auto simp: fork_rows_def fork_mappings_def original_def find_None_iff option.map_sel dest!: set_zip_leftD)
  have "ListWorkflows s (zero_ListWorkflowsDBInput\<lparr>l_WorkflowIDs := ?origs, l_LoadInput := True\<rparr>) db = Inr ?wfs"
    by (subst ListWorkflows_plain) (simp_all add: zero_ListWorkflowsDBInput_def list_where_many [OF assms(2), unfolded zero_ListWorkflowsDBInput_def, simplified])
  then show ?thesis using assms(2-5)
    by (auto simp: ForkWorkflows_def Let_def miss new ms simp del: find.simps split: option.splits)
qed

definition forked_db :: "SysDB \<Rightarrow> instant \<Rightarrow> ForkWorkflowsDBInput \<Rightarrow> string list \<Rightarrow> sysdb \<Rightarrow> sysdb" where
  "forked_db s now inp ids db =
     (let ms = fork_mappings s db ids inp; cs = filter (\<lambda>m. 0 < m_start_step m) ms in
      db\<lparr>workflow_status := update_where (\<lambda>r. ws_workflow_uuid r \<in> set (f_OriginalWorkflowIDs inp))
           (\<lambda>r. r\<lparr>ws_was_forked_from := True\<rparr>) (workflow_status db @ fork_rows s now db ids inp),
         operation_outputs := operation_outputs db @ copied_ops (f_ReplacementChildren inp) cs db,
         workflow_events := workflow_events db @ copied_events cs db,
         workflow_events_history := workflow_events_history db @ copied_history cs db,
         streams := streams db @ copied_streams cs db,
         workflow_read_audience := workflow_read_audience db @ copied_audience ms db\<rparr>)"

lemma fork_ids_of [simp]:
  assumes "length ids = length (f_OriginalWorkflowIDs inp)"
  shows "wf_ids (fork_rows s now db ids inp) = ids"
    and "length (f_StartSteps inp) = length (f_OriginalWorkflowIDs inp) \<Longrightarrow> map m_fork_id (fork_mappings s db ids inp) = ids"
  using assms by (auto simp: fork_rows_def fork_mappings_def intro!: nth_equalityI)

lemma ForkWorkflows_InrD:
  assumes "db_inv db" and "ForkWorkflows uuids s now inp db = Inr (ids, db')" and "f_OriginalWorkflowIDs inp \<noteq> []"
  shows "ids = fork_ids uuids inp \<and> length (f_StartSteps inp) = length (f_OriginalWorkflowIDs inp) \<and>
    distinct ids \<and> set (wf_ids (workflow_status db)) \<inter> set ids = {} \<and>
    (\<forall>wid \<in> set (f_OriginalWorkflowIDs inp). find_wf wid db \<noteq> None) \<and> db' = forked_db s now inp ids db"
proof -
  have len: "length (f_StartSteps inp) = length (f_OriginalWorkflowIDs inp)"
    "f_ForkedWorkflowIDs inp = [] \<or> length (f_ForkedWorkflowIDs inp) = length (f_OriginalWorkflowIDs inp)"
    "find (\<lambda>k. k < 0) (f_StartSteps inp) = None"
    using assms(2,3) by (auto simp: ForkWorkflows_def Let_def split: if_splits option.splits)
  let ?ids = "fork_ids uuids inp"
  let ?written = "fork_write (f_ReplacementChildren inp) (f_OriginalWorkflowIDs inp)
      (fork_mappings s db ?ids inp) (fork_rows s now db ?ids inp) db"
  have "find (\<lambda>wid. find_wf wid db = None) (f_OriginalWorkflowIDs inp) = None \<and> ids = ?ids \<and> ?written = Inr db'"
    using assms(2) unfolding ForkWorkflows_eq [OF assms(1,3) len]
    by (cases ?written) (auto split: option.splits)
  then have w: "?written = Inr db'" and ids: "ids = ?ids"
    and orig: "\<forall>wid \<in> set (f_OriginalWorkflowIDs inp). find_wf wid db \<noteq> None"
    by (auto simp: find_None_iff)
  obtain rows where "insert_all ''failed to insert forked workflow statuses: '' ws_workflow_uuid
      (fork_rows s now db ?ids inp) (workflow_status db) = Inr rows"
    using w by (auto simp: fork_write_def Let_def split: sum.splits)
  from insert_all_InrD [OF this] have d: "distinct ?ids" and f: "set (wf_ids (workflow_status db)) \<inter> set ?ids = {}"
    by (auto simp: arg_cong [OF fork_ids_of(1), of ?ids inp set, simplified] simp flip: set_map)
  have "db' = forked_db s now inp ?ids db" using w d f len(1)
    by (subst (asm) fork_write_ok) (auto simp: assms(1) forked_db_def Let_def simp flip: set_map)
  then show ?thesis using len(1) d f orig ids by simp
qed

text \<open>With fresh distinct ids for the forks and existing originals a fork always succeeds.\<close>

lemma ForkWorkflows_ok:
  assumes "db_inv db" and "f_OriginalWorkflowIDs inp \<noteq> []"
    and "length (f_StartSteps inp) = length (f_OriginalWorkflowIDs inp)"
    and "f_ForkedWorkflowIDs inp = [] \<or> length (f_ForkedWorkflowIDs inp) = length (f_OriginalWorkflowIDs inp)"
    and "find (\<lambda>k. k < 0) (f_StartSteps inp) = None"
    and "find (\<lambda>wid. find_wf wid db = None) (f_OriginalWorkflowIDs inp) = None"
    and "distinct (fork_ids uuids inp)" and "set (wf_ids (workflow_status db)) \<inter> set (fork_ids uuids inp) = {}"
  shows "ForkWorkflows uuids s now inp db = Inr (fork_ids uuids inp, forked_db s now inp (fork_ids uuids inp) db)"
proof -
  let ?ids = "fork_ids uuids inp"
  have "fork_write (f_ReplacementChildren inp) (f_OriginalWorkflowIDs inp) (fork_mappings s db ?ids inp)
      (fork_rows s now db ?ids inp) db = Inr (forked_db s now inp ?ids db)"
    using assms(3,7,8) by (subst fork_write_ok [OF assms(1)]) (auto simp: forked_db_def Let_def simp flip: set_map)
  then show ?thesis unfolding ForkWorkflows_eq [OF assms(1-5)] using assms(6) by simp
qed

section \<open>Properties\<close>

lemma fork_mapping_mem:
  assumes "length ids = length (f_OriginalWorkflowIDs inp)" and "length (f_StartSteps inp) = length (f_OriginalWorkflowIDs inp)"
  shows "m \<in> set (fork_mappings s db ids inp) \<longleftrightarrow>
    (\<exists>i < length ids. m = \<lparr>m_orig_id = f_OriginalWorkflowIDs inp ! i, m_fork_id = ids ! i,
       m_start_step = f_StartSteps inp ! i, m_owner = fork_owner s (original db (f_OriginalWorkflowIDs inp ! i))\<rparr>)"
  using assms by (force simp: fork_mappings_def set_zip)

lemma forked_find_wf:
  assumes "db_inv db" and "length ids = length (f_OriginalWorkflowIDs inp)"
    and "distinct ids" and "set (wf_ids (workflow_status db)) \<inter> set ids = {}" and "i < length ids"
    and "\<forall>wid \<in> set (f_OriginalWorkflowIDs inp). find_wf wid db \<noteq> None"
  shows "find_wf (ids ! i) (forked_db s now inp ids db) =
    Some (fork_row s now inp (ids ! i) (original db (f_OriginalWorkflowIDs inp ! i)))"
proof -
  let ?new = "fork_rows s now db ids inp"
  have fresh: "ids ! i \<notin> ws_workflow_uuid ` set (workflow_status db)"
    using nth_mem [OF assms(5)] assms(4) by (metis disjoint_iff set_map)
  then have "lookup_by ws_workflow_uuid (ids ! i) (workflow_status db) = None" by (simp add: lookup_by_eq_None)
  moreover have row: "?new ! i = fork_row s now inp (ids ! i) (original db (f_OriginalWorkflowIDs inp ! i))"
    and "i < length ?new" using assms(2,5) by (simp_all add: fork_rows_def)
  then have "fork_row s now inp (ids ! i) (original db (f_OriginalWorkflowIDs inp ! i)) \<in> set ?new" by (metis nth_mem)
  moreover have "distinct (wf_ids ?new)" using assms(2,3) by simp
  ultimately have "lookup_by ws_workflow_uuid (ids ! i) (workflow_status db @ ?new) =
      Some (fork_row s now inp (ids ! i) (original db (f_OriginalWorkflowIDs inp ! i)))"
    by (simp add: lookup_by_append lookup_by_in_iff)
  moreover have "ids ! i \<notin> set (f_OriginalWorkflowIDs inp)"
    using fresh assms(6) unfolding lookup_by_eq_None by metis
  ultimately show ?thesis by (simp add: forked_db_def Let_def lookup_by_update_where)
qed

lemma guarded_map_option:
  "(P \<and> Q \<and> (\<exists>x. y = Some x \<and> g x = r)) = ((if P \<and> Q then map_option g y else None) = Some r)"
  by (cases y) auto

lemma forked_find_op:
  assumes "db_inv db" and len: "length ids = length (f_OriginalWorkflowIDs inp)" "length (f_StartSteps inp) = length (f_OriginalWorkflowIDs inp)"
    and "distinct ids" and "set (wf_ids (workflow_status db)) \<inter> set ids = {}" and "i < length ids"
  shows "find_op (ids ! i) k (forked_db s now inp ids db) =
    (if 0 < f_StartSteps inp ! i \<and> k < f_StartSteps inp ! i
     then map_option (copy_op (f_ReplacementChildren inp) (ids ! i) (fork_owner s (original db (f_OriginalWorkflowIDs inp ! i))))
       (find_op (f_OriginalWorkflowIDs inp ! i) k db)
     else None)"
proof -
  let ?cs = "filter (\<lambda>m. 0 < m_start_step m) (fork_mappings s db ids inp)"
  let ?new = "copied_ops (f_ReplacementChildren inp) ?cs db"
  let ?copy = "copy_op (f_ReplacementChildren inp) (ids ! i) (fork_owner s (original db (f_OriginalWorkflowIDs inp ! i)))"
  let ?o = "f_OriginalWorkflowIDs inp ! i" and ?k = "f_StartSteps inp ! i"
  have "ids ! i \<notin> ws_workflow_uuid ` set (workflow_status db)"
    using nth_mem [OF assms(6)] assms(5) by (metis disjoint_iff set_map)
  then have "ids ! i \<notin> oo_workflow_uuid ` set (operation_outputs db)"
    using assms(1) by (metis db_inv_def fk_ok_def set_map subsetD)
  then have old: "find_op (ids ! i) k db = None" by (force simp: lookup_by_eq_None)
  have "distinct (map m_fork_id ?cs)" using fork_ids_of(2) [OF len] assms(4) by (simp add: distinct_map_filter)
  then have d: "distinct (map op_key ?new)" by (rule copied_distinct(1) [OF assms(1)])
  have inj: "j = i" if "j < length ids" "ids ! j = ids ! i" for j using that assms(4,6) by (simp add: nth_eq_iff_index_eq)
  have op: "distinct (map op_key (operation_outputs db))" using assms(1) by (simp add: db_inv_def pk_ok_def)
  have mem: "r \<in> set ?new \<and> op_key r = (ids ! i, k) \<longleftrightarrow>
      0 < ?k \<and> k < ?k \<and> (\<exists>x. find_op ?o k db = Some x \<and> ?copy x = r)" for r
  proof
    assume r: "r \<in> set ?new \<and> op_key r = (ids ! i, k)"
    then obtain m x where m: "m \<in> set (fork_mappings s db ids inp)" "0 < m_start_step m"
      and x: "x \<in> set (operation_outputs db)" "oo_workflow_uuid x = m_orig_id m" "oo_function_id x < m_start_step m"
        "r = copy_op (f_ReplacementChildren inp) (m_fork_id m) (m_owner m) x"
      by (auto simp: copied_ops_def)
    then obtain j where j: "j < length ids" "m = \<lparr>m_orig_id = f_OriginalWorkflowIDs inp ! j, m_fork_id = ids ! j,
       m_start_step = f_StartSteps inp ! j, m_owner = fork_owner s (original db (f_OriginalWorkflowIDs inp ! j))\<rparr>"
      unfolding fork_mapping_mem [OF len] by blast
    have "j = i" using inj [OF j(1)] r x(4) j(2) by (simp add: copy_op_def)
    then show "0 < ?k \<and> k < ?k \<and> (\<exists>x. find_op ?o k db = Some x \<and> ?copy x = r)"
      unfolding lookup_by_in_iff [OF op] using m(2) x j(2) r by (auto simp: copy_op_def)
  next
    assume "0 < ?k \<and> k < ?k \<and> (\<exists>x. find_op ?o k db = Some x \<and> ?copy x = r)"
    moreover let ?m = "\<lparr>m_orig_id = ?o, m_fork_id = ids ! i, m_start_step = ?k, m_owner = fork_owner s (original db ?o)\<rparr>"
    have "?m \<in> set (fork_mappings s db ids inp)" unfolding fork_mapping_mem [OF len] using assms(6) by blast
    ultimately show "r \<in> set ?new \<and> op_key r = (ids ! i, k)"
      unfolding lookup_by_in_iff [OF op]
      by (auto simp: copied_ops_def copy_op_def intro!: exI [of _ ?m])
  qed
  have "lookup_by op_key (ids ! i, k) ?new = Some r \<longleftrightarrow>
      (if 0 < ?k \<and> k < ?k then map_option ?copy (find_op ?o k db) else None) = Some r" for r
    unfolding lookup_by_in_iff [OF d] mem by (rule guarded_map_option)
  then have "lookup_by op_key (ids ! i, k) ?new = (if 0 < ?k \<and> k < ?k then map_option ?copy (find_op ?o k db) else None)"
    by (rule option_eq_Some_I)
  then show ?thesis using old by (simp add: forked_db_def Let_def lookup_by_append)
qed

lemma fork_copies_shape:
  assumes "db_inv db" and "ForkWorkflows uuids s now inp db = Inr (ids, db')"
    and "i < length (f_OriginalWorkflowIDs inp)"
  shows "\<exists>orig. find_wf (f_OriginalWorkflowIDs inp ! i) db = Some orig \<and> find_wf (ids ! i) db = None \<and>
      find_wf (ids ! i) db' = Some (fork_row s now inp (ids ! i) (scan_row True False orig)) \<and>
      (\<forall>k. find_op (ids ! i) k db' =
         (if 0 < f_StartSteps inp ! i \<and> k < f_StartSteps inp ! i
          then map_option (copy_op (f_ReplacementChildren inp) (ids ! i) (fork_owner s (scan_row True False orig)))
            (find_op (f_OriginalWorkflowIDs inp ! i) k db)
          else None)) \<and>
      (\<forall>w k. w \<notin> set ids \<longrightarrow> find_op w k db' = find_op w k db)"
proof -
  have ne: "f_OriginalWorkflowIDs inp \<noteq> []" using assms(3) by auto
  note D = ForkWorkflows_InrD [OF assms(1,2) ne]
  then have len: "length ids = length (f_OriginalWorkflowIDs inp)" "length (f_StartSteps inp) = length (f_OriginalWorkflowIDs inp)"
    and i: "i < length ids" using assms(3) by simp_all
  have d: "distinct ids" "set (wf_ids (workflow_status db)) \<inter> set ids = {}" and db': "db' = forked_db s now inp ids db"
    and ex: "\<forall>wid \<in> set (f_OriginalWorkflowIDs inp). find_wf wid db \<noteq> None" using D by blast+
  obtain orig where orig: "find_wf (f_OriginalWorkflowIDs inp ! i) db = Some orig" using ex nth_mem [OF assms(3)] by blast
  moreover have "ids ! i \<notin> set (wf_ids (workflow_status db))" using d(2) nth_mem [OF i] by blast
  then have "find_wf (ids ! i) db = None" by (simp add: lookup_by_eq_None)
  moreover have "find_op w k db' = find_op w k db" if "w \<notin> set ids" for w k
  proof -
    have "lookup_by op_key (w, k) (copied_ops (f_ReplacementChildren inp)
        (filter (\<lambda>m. 0 < m_start_step m) (fork_mappings s db ids inp)) db) = None"
      using that by (auto simp: lookup_by_eq_None copied_ops_def copy_op_def fork_mapping_mem [OF len])
    then show ?thesis by (simp add: db' forked_db_def Let_def lookup_by_append split: option.splits)
  qed
  ultimately show ?thesis
    using forked_find_wf [OF assms(1) len(1) d i ex, of s now] forked_find_op [OF assms(1) len d i, of _ s now]
    by (simp add: db' original_def)
qed


definition sample_checkpoint :: "int \<Rightarrow> string option \<Rightarrow> op_row" where
  "sample_checkpoint k err = \<lparr>oo_workflow_uuid = ''a'', oo_function_id = k, oo_function_name = ''f'', oo_output = Some ''x'',
     oo_error = err, oo_child_workflow_id = None, oo_started_at_epoch_ms = Some 0, oo_completed_at_epoch_ms = Some 0,
     oo_serialization = None, oo_application_name = None\<rparr>"

definition sample_failed :: sysdb where
  "sample_failed = empty_sysdb\<lparr>workflow_status := [finished_row ''a'' 10],
     operation_outputs := [sample_checkpoint 0 None, sample_checkpoint 1 (Some ''boom''), sample_checkpoint 2 None]\<rparr>"

lemma sample_failed_inv: "db_inv sample_failed"
  by (auto simp: db_inv_def pk_ok_def fk_ok_def sample_failed_def sample_checkpoint_def finished_row_def
      empty_sysdb_def row_inv_def dedup_slot_def has_outcome_def)

definition sample_fork :: ForkWorkflowsDBInput where
  "sample_fork = \<lparr>f_OriginalWorkflowIDs = [''a''], f_ForkedWorkflowIDs = [''b''], f_StartSteps = [1],
     f_ApplicationVersion = [], f_QueueName = [], f_QueuePartitionKey = [], f_Timeout = 0, f_ReplacementChildren = []\<rparr>"

lemma sample_fork_ok:
  "ForkWorkflows (\<lambda>_. []) sample_sysdb_ctx 0 sample_fork sample_failed =
     Inr ([''b''], forked_db sample_sysdb_ctx 0 sample_fork [''b''] sample_failed)"
proof -
  have ids: "fork_ids (\<lambda>_. []) sample_fork = [''b'']" by (simp add: fork_ids_def sample_fork_def)
  show ?thesis unfolding ids [symmetric]
    by (rule ForkWorkflows_ok [OF sample_failed_inv])
      (simp_all add: ids, simp_all add: sample_fork_def sample_failed_def finished_row_def)
qed


lemma dedup_unique_fresh: "dedup_unique rows \<Longrightarrow> \<forall>r \<in> set new. dedup_slot r = None \<Longrightarrow> dedup_unique (rows @ new)"
  by (simp add: dedup_unique_def List.map_filter_def filter_empty_conv)

lemma fork_row_inv: "row_inv (fork_row s now inp fid orig)" "dedup_slot (fork_row s now inp fid orig) = None"
  by (simp_all add: row_inv_def dedup_slot_def fork_row_def)

interpretation mark: inv_update "\<lambda>r. ws_workflow_uuid r \<in> ids" "\<lambda>r. r\<lparr>ws_was_forked_from := True\<rparr>" for ids
  by unfold_locales (auto simp: row_unfold)

lemma forked_pk:
  assumes "db_inv db" and len: "length ids = length (f_OriginalWorkflowIDs inp)" "length (f_StartSteps inp) = length (f_OriginalWorkflowIDs inp)"
    and "distinct ids" and "set (wf_ids (workflow_status db)) \<inter> set ids = {}"
  shows "pk_ok ((forked_db s now inp ids db)\<lparr>workflow_status := workflow_status db @ fork_rows s now db ids inp\<rparr>)"
proof -
  let ?ids = "set (wf_ids (workflow_status db))"
  let ?ms = "fork_mappings s db ids inp" let ?cs = "filter (\<lambda>m. 0 < m_start_step m) ?ms"
  have f: "map m_fork_id ?ms = ids" by (rule fork_ids_of(2) [OF len])
  then have d: "distinct (map m_fork_id ?ms)" "distinct (map m_fork_id ?cs)" using assms(4) by (simp_all add: distinct_map_filter)
  have "m_fork_id ` set ?ms = set ids" using f by (metis set_map)
  then have n: "m_fork_id ` set ?ms \<inter> ?ids = {}" "m_fork_id ` set ?cs \<inter> ?ids = {}" using assms(5) by auto
  note fk = assms(1) [unfolded db_inv_def fk_ok_def Let_def]
  note new = copied_distinct [OF assms(1) d(2)] copied_distinct(4) [OF assms(1) d(1)]
  have "op_key ` set (operation_outputs db) \<inter> op_key ` set (copied_ops (f_ReplacementChildren inp) ?cs db) = {}"
    unfolding copied_ops_def using fk by (intro copies_fresh [OF _ _ n(2)]) (auto simp: copy_op_def)
  moreover have "history_key ` set (workflow_events_history db) \<inter> history_key ` set (copied_history ?cs db) = {}"
    unfolding copied_history_def using fk by (intro copies_fresh [OF _ _ n(2)]) auto
  moreover have "event_key ` set (workflow_events db) \<inter> event_key ` set (copied_events ?cs db) = {}"
    unfolding copied_events_def using fk by (intro copies_fresh [OF _ _ n(2)]) auto
  moreover have "stream_key ` set (streams db) \<inter> stream_key ` set (copied_streams ?cs db) = {}"
    unfolding copied_streams_def using fk by (intro copies_fresh [OF _ _ n(2)]) auto
  moreover have "audience_key ` set (workflow_read_audience db) \<inter> audience_key ` set (copied_audience ?ms db) = {}"
    unfolding copied_audience_def using fk by (intro copies_fresh [OF _ _ n(1)]) auto
  ultimately show ?thesis using assms(1,4,5) new fork_ids_of(1) [OF len(1), of s now db]
    by (simp add: forked_db_def Let_def pk_ok_def db_inv_def)
qed

lemma forked_fk:
  assumes "db_inv db" and len: "length ids = length (f_OriginalWorkflowIDs inp)" "length (f_StartSteps inp) = length (f_OriginalWorkflowIDs inp)"
  shows "fk_ok ((forked_db s now inp ids db)\<lparr>workflow_status := workflow_status db @ fork_rows s now db ids inp\<rparr>)"
proof -
  let ?ms = "fork_mappings s db ids inp"
  have ids: "ws_workflow_uuid ` set (fork_rows s now db ids inp) = set ids" using fork_ids_of(1) [OF len(1)] by (metis set_map)
  have "m_fork_id ` set ?ms = set ids" using fork_ids_of(2) [OF len] by (metis set_map)
  then have m: "m \<in> set ?ms \<Longrightarrow> m_fork_id m \<in> set ids" for m by blast
  show ?thesis using assms(1) m unfolding fk_ok_def Let_def db_inv_def
    by (auto simp: forked_db_def Let_def ids copied_ops_def copy_op_def copied_history_def
        copied_events_def copied_streams_def copied_audience_def)
qed

lemma fork_keeps_inv:
  assumes "db_inv db" and "ForkWorkflows uuids s now inp db = Inr (ids, db')"
  shows "db_inv db'"
proof (cases "f_OriginalWorkflowIDs inp = []")
  case True
  then show ?thesis using assms by (simp add: ForkWorkflows_def)
next
  case False
  have D: "length ids = length (f_OriginalWorkflowIDs inp)" "length (f_StartSteps inp) = length (f_OriginalWorkflowIDs inp)"
      "distinct ids" "set (wf_ids (workflow_status db)) \<inter> set ids = {}" "db' = forked_db s now inp ids db"
    using ForkWorkflows_InrD [OF assms False] by auto
  let ?db1 = "db'\<lparr>workflow_status := workflow_status db @ fork_rows s now db ids inp\<rparr>"
  have "dedup_unique (workflow_status ?db1) \<and> (\<forall>r \<in> set (workflow_status ?db1). row_inv r)"
    using assms(1) by (auto simp: db_inv_def fork_rows_def fork_row_inv intro!: dedup_unique_fresh)
  then have "db_inv ?db1" using forked_pk [OF assms(1) D(1-4)] forked_fk [OF assms(1) D(1,2)] by (simp add: db_inv_def D(5))
  moreover have "db' = update_wf (\<lambda>r. ws_workflow_uuid r \<in> set (f_OriginalWorkflowIDs inp)) (\<lambda>r. r\<lparr>ws_was_forked_from := True\<rparr>) ?db1"
    by (simp add: D(5) forked_db_def Let_def update_wf_def)
  ultimately show ?thesis using mark.preserves_inv by metis
qed

text \<open>
  C26: forking keeps every constraint of the schema and the column discipline of the status table.
\<close>

theorem fork_preserves_invariant:
  assumes "db_inv db" and "ForkWorkflows uuids s now inp db = Inr (ids, db')"
  shows "db_inv db'"
  by (rule fork_keeps_inv [OF assms])

theorem fork_preserves_invariant_witness: "db_inv (forked_db sample_sysdb_ctx 0 sample_fork [''b''] sample_failed)"
  by (rule fork_preserves_invariant [OF sample_failed_inv sample_fork_ok])

lemma sql_max_Some: "sql_max xs = Some m \<longleftrightarrow> m \<in> set xs \<and> (\<forall>x \<in> set xs. x \<le> m)"
  by (cases "xs = []") (auto simp: sql_max_def intro!: Max_eqI)

lemma ForkFrom_last_failure:
  assumes "ForkFrom uuids s now inp db = Inr (ids, db')" and "FromLastFailure inp" and "ff_WorkflowIDs inp \<noteq> []"
  shows "ForkWorkflows uuids s now
      \<lparr>f_OriginalWorkflowIDs = ff_WorkflowIDs inp, f_ForkedWorkflowIDs = [],
       f_StartSteps = map (\<lambda>wid. the (start_step inp wid db)) (ff_WorkflowIDs inp),
       f_ApplicationVersion = ff_ApplicationVersion inp, f_QueueName = ff_QueueName inp,
       f_QueuePartitionKey = ff_QueuePartitionKey inp, f_Timeout = 0, f_ReplacementChildren = []\<rparr> db = Inr (ids, db')
    \<and> FromStepName inp = None"
  using assms by (auto simp: ForkFrom_def Let_def split: if_splits option.splits)

lemma start_step_failure:
  assumes "FromLastFailure inp" and "FromStepName inp = None" and "db_inv db"
    and "find_op wid f db = Some r" and "oo_error r \<noteq> None"
    and "\<forall>k x. f < k \<longrightarrow> find_op wid k db = Some x \<longrightarrow> oo_error x = None"
  shows "start_step inp wid db = Some f"
proof -
  have pk: "distinct (map op_key (operation_outputs db))" using assms(3) by (simp add: db_inv_def pk_ok_def)
  let ?fids = "map oo_function_id (filter (\<lambda>r. oo_error r \<noteq> None) (filter (\<lambda>r. oo_workflow_uuid r = wid) (operation_outputs db)))"
  have "f \<in> set ?fids" using assms(4,5) by (auto simp: lookup_by_in_iff [OF pk])
  moreover have "k \<le> f" if k: "k \<in> set ?fids" for k
  proof -
    obtain x where "x \<in> set (operation_outputs db)" "op_key x = (wid, k)" "oo_error x \<noteq> None" using k by auto
    moreover from this have "find_op wid k db = Some x" unfolding lookup_by_in_iff [OF pk] by blast
    ultimately show ?thesis using assms(6) by (metis not_le)
  qed
  ultimately have "sql_max ?fids = Some f" unfolding sql_max_Some by blast
  then show ?thesis using assms(1,2) by (simp add: start_step_def Let_def)
qed

text \<open>
  Forking from the last failure restarts each workflow at its last step that recorded an
  error: the fork has every earlier checkpoint of the original and neither that step's nor a later one.
\<close>

theorem fork_from_last_failure:
  assumes "db_inv db" and "FromLastFailure inp" and "ForkFrom uuids s now inp db = Inr (ids, db')"
    and "i < length (ff_WorkflowIDs inp)" and "0 < f"
    and "find_op (ff_WorkflowIDs inp ! i) f db = Some r" and "oo_error r \<noteq> None"
    and "\<forall>k x. f < k \<longrightarrow> find_op (ff_WorkflowIDs inp ! i) k db = Some x \<longrightarrow> oo_error x = None"
  shows "\<exists>own. \<forall>k. find_op (ids ! i) k db' =
    (if k < f then map_option (copy_op [] (ids ! i) own) (find_op (ff_WorkflowIDs inp ! i) k db) else None)"
proof -
  have ne: "ff_WorkflowIDs inp \<noteq> []" using assms(4) by auto
  note F = ForkFrom_last_failure [OF assms(3,2) ne]
  then have "start_step inp (ff_WorkflowIDs inp ! i) db = Some f"
    using start_step_failure [OF assms(2) _ assms(1,6,7,8)] by blast
  then show ?thesis using fork_copies_shape [OF assms(1) conjunct1 [OF F], of i] assms(4,5) by auto
qed

definition sample_fork_from :: ForkFromDBInput where
  "sample_fork_from = \<lparr>ff_WorkflowIDs = [''a''], ff_ApplicationVersion = [], ff_QueueName = [], ff_QueuePartitionKey = [],
     FromLastFailure = True, FromLastStep = False, FromStep = None, FromStepName = None\<rparr>"

lemma sample_failed_op [simp]: "find_op ''a'' k sample_failed =
   (if k = 0 then Some (sample_checkpoint 0 None) else if k = 1 then Some (sample_checkpoint 1 (Some ''boom''))
    else if k = 2 then Some (sample_checkpoint 2 None) else None)"
  by (auto simp: sample_failed_def sample_checkpoint_def)

theorem fork_from_last_failure_witness:
  "\<exists>ids db'. ForkFrom (\<lambda>_. ''b'') sample_sysdb_ctx 0 sample_fork_from sample_failed = Inr (ids, db') \<and>
     find_op (ids ! 0) 0 db' \<noteq> None \<and> find_op (ids ! 0) 1 db' = None"
proof -
  let ?fork = "\<lparr>f_OriginalWorkflowIDs = [''a''], f_ForkedWorkflowIDs = [], f_StartSteps = [1], f_ApplicationVersion = [],
     f_QueueName = [], f_QueuePartitionKey = [], f_Timeout = 0, f_ReplacementChildren = []\<rparr>"
  have "start_step sample_fork_from ''a'' sample_failed = Some 1"
    by (rule start_step_failure [OF _ _ sample_failed_inv]) (auto simp: sample_fork_from_def sample_checkpoint_def)
  then have "ForkFrom (\<lambda>_. ''b'') sample_sysdb_ctx 0 sample_fork_from sample_failed =
      ForkWorkflows (\<lambda>_. ''b'') sample_sysdb_ctx 0 ?fork sample_failed"
    by (simp add: ForkFrom_def, simp add: sample_fork_from_def)
  also have "\<dots> = Inr (fork_ids (\<lambda>_. ''b'') ?fork, forked_db sample_sysdb_ctx 0 ?fork (fork_ids (\<lambda>_. ''b'') ?fork) sample_failed)"
    by (rule ForkWorkflows_ok [OF sample_failed_inv]) (simp_all add: fork_ids_def sample_failed_def finished_row_def)
  finally obtain ids db' where F: "ForkFrom (\<lambda>_. ''b'') sample_sysdb_ctx 0 sample_fork_from sample_failed = Inr (ids, db')" by blast
  have "\<exists>own. \<forall>k. find_op (ids ! 0) k db' =
      (if k < 1 then map_option (copy_op [] (ids ! 0) own) (find_op (ff_WorkflowIDs sample_fork_from ! 0) k sample_failed) else None)"
    by (rule fork_from_last_failure [OF sample_failed_inv _ F]) (auto simp: sample_fork_from_def sample_checkpoint_def)
  then show ?thesis using F by (auto simp: sample_fork_from_def)
qed

text \<open>
  C27: A workflow forked without an explicit version from one whose version is \<^verbatim>\<open>NULL\<close> (enqueued
  without a version and not yet dispatched) is claimed by no dequeue of a versioned worker: the
  fork stores the empty string as its version, which is neither \<^verbatim>\<open>NULL\<close> nor any worker's version.
\<close>

theorem fork_of_unversioned_never_dequeued:
  assumes "db_inv db" and "ForkWorkflows uuids s now inp db = Inr (ids, db')"
    and "i < length (f_OriginalWorkflowIDs inp)" and "f_ApplicationVersion inp = []"
    and "find_wf (f_OriginalWorkflowIDs inp ! i) db = Some orig" and "ws_application_version orig = None"
    and "dq_ApplicationVersion dq \<noteq> []"
    and "DequeueWorkflows worker t claimNow locked dq db' = Inr (claimed, db'')"
  shows "ids ! i \<notin> set claimed"
proof
  assume c: "ids ! i \<in> set claimed"
  have inv: "db_inv db'" using fork_keeps_inv [OF assms(1,2)] .
  have row: "find_wf (ids ! i) db' = Some (fork_row s now inp (ids ! i) (scan_row True False orig))"
    using fork_copies_shape [OF assms(1-3)] assms(5) by auto
  from assms(8) c obtain n where "ids ! i \<in> set (wf_ids (select_candidates worker dq locked n db'))"
    by (cases rule: DequeueWorkflows_cases) auto
  then obtain r where r: "r \<in> set (select_candidates worker dq locked n db')" "ws_workflow_uuid r = ids ! i" by auto
  note cand = select_candidates_set [OF r(1)]
  then have "r = fork_row s now inp (ids ! i) (scan_row True False orig)"
    using lookup_by_SomeD [OF row] r(2) by (intro wf_row_unique [OF inv]) simp_all
  then have "ws_application_version r = Some []" using assms(4,6) by (simp add: fork_row_def scan_row_def)
  then show False using cand assms(7) by (simp add: candidate_where_def)
qed

lemma dequeue_without_budget:
  "\<not> has_budget inp \<Longrightarrow> \<exists>claimed db'. DequeueWorkflows s now claimNow locked inp db = Inr (claimed, db')"
  by (simp add: DequeueWorkflows_eq)

definition sample_unversioned :: sysdb where
  "sample_unversioned = empty_sysdb\<lparr>workflow_status :=
     [(default_wf_row ''a'' WorkflowStatusEnqueued 0)\<lparr>ws_queue_name := Some ''q''\<rparr>]\<rparr>"

theorem fork_of_unversioned_never_dequeued_witness:
  "\<exists>db' claimed db''. ForkWorkflows (\<lambda>_. []) sample_sysdb_ctx 0 (sample_fork\<lparr>f_QueueName := ''q''\<rparr>) sample_unversioned = Inr ([''b''], db') \<and>
     DequeueWorkflows sample_sysdb_ctx 0 0 [] (sample_dequeue\<lparr>dq_Queue := sample_queue\<lparr>q_GlobalConcurrency := None, q_RateLimit := None\<rparr>\<rparr>) db' =
       Inr (claimed, db'') \<and> ''b'' \<notin> set claimed"
proof -
  let ?fork = "sample_fork\<lparr>f_QueueName := ''q''\<rparr>"
  let ?dq = "sample_dequeue\<lparr>dq_Queue := sample_queue\<lparr>q_GlobalConcurrency := None, q_RateLimit := None\<rparr>\<rparr>"
  have inv: "db_inv sample_unversioned"
    by (simp add: db_inv_def pk_ok_def fk_ok_def sample_unversioned_def empty_sysdb_def row_inv_def dedup_slot_def)
  have ids: "fork_ids (\<lambda>_. []) ?fork = [''b'']" by (simp add: fork_ids_def sample_fork_def)
  have F: "ForkWorkflows (\<lambda>_. []) sample_sysdb_ctx 0 ?fork sample_unversioned =
      Inr ([''b''], forked_db sample_sysdb_ctx 0 ?fork [''b''] sample_unversioned)" (is "_ = Inr (_, ?db')")
    unfolding ids [symmetric] by (rule ForkWorkflows_ok [OF inv])
      (simp_all add: ids, simp_all add: sample_fork_def sample_unversioned_def)
  have "\<not> has_budget ?dq" by (simp add: has_budget_def sample_queue_def)
  then obtain claimed db'' where C: "DequeueWorkflows sample_sysdb_ctx 0 0 [] ?dq ?db' = Inr (claimed, db'')"
    using dequeue_without_budget by blast
  have "[''b''] ! 0 \<notin> set claimed"
    by (rule fork_of_unversioned_never_dequeued [OF inv F _ _ _ _ _ C])
      (simp_all add: sample_fork_def sample_unversioned_def sample_dequeue_def default_wf_row_def, simp)
  then show ?thesis using F C by auto
qed

end
