(* ===== verification/Lifecycle.thy ===== *)
theory Lifecycle
  imports Fork
begin

text \<open>
  The system database as one state machine: a step is any state-changing operation of the other
  theories, called by any application at any time, so that a run is any interleaving of the
  transactions of several executors. The machine refines an abstract specification of workflows
  and checkpoints: a workflow appears unfinished, moves along the status graph, keeps its outcome
  once it succeeded or failed, and keeps its checkpoints for as long as it exists.
\<close>

section \<open>The specification\<close>

type_synonym workflow_core = "WorkflowStatusType \<times> string option \<times> string option"
type_synonym spec_state = "(string \<Rightarrow> workflow_core option) \<times> (string \<times> int \<Rightarrow> op_row option)"

fun spec_workflow :: "workflow_core option \<Rightarrow> workflow_core option \<Rightarrow> bool" where
  "spec_workflow None None = True"
| "spec_workflow None (Some (st, out, err)) = (\<not> isTerminalStatus st \<and> out = None \<and> err = None)"
| "spec_workflow (Some x) None = True"
| "spec_workflow (Some (st, out, err)) (Some (st', out', err')) =
     (legal_transition st st' \<and> (has_outcome st \<longrightarrow> st' = st \<and> out' = out \<and> err' = err))"

definition spec_step :: "spec_state \<Rightarrow> spec_state \<Rightarrow> bool" where
  "spec_step a a' \<longleftrightarrow>
     (\<forall>wid. spec_workflow (fst a wid) (fst a' wid) \<and>
        (if fst a' wid = None then \<forall>fid. snd a' (wid, fid) = None
         else \<forall>fid r. snd a (wid, fid) = Some r \<longrightarrow> snd a' (wid, fid) = Some r))"

definition core :: "wf_row \<Rightarrow> workflow_core" where
  "core r = (ws_status r, ws_output r, ws_error r)"

definition abs_db :: "sysdb \<Rightarrow> spec_state" where
  "abs_db db = (\<lambda>wid. map_option core (find_wf wid db), \<lambda>(wid, fid). find_op wid fid db)"

lemma abs_db_sel [simp]:
  "fst (abs_db db) wid = map_option core (find_wf wid db)" "snd (abs_db db) (wid, fid) = find_op wid fid db"
  by (simp_all add: abs_db_def)

lemma spec_workflow_refl: "spec_workflow x x"
  by (cases x) auto

text \<open>Checkpoints belong to a workflow: that is the foreign key.\<close>

lemma orphan_free: "db_inv db \<Longrightarrow> find_wf wid db = None \<Longrightarrow> find_op wid fid db = None"
  by (force simp: db_inv_def fk_ok_def Let_def lookup_by_eq_None)

lemma spec_step_I:
  assumes "db_inv db'" and "\<And>wid. spec_workflow (map_option core (find_wf wid db)) (map_option core (find_wf wid db'))"
    and "\<And>wid fid r. find_wf wid db' \<noteq> None \<Longrightarrow> find_op wid fid db = Some r \<Longrightarrow> find_op wid fid db' = Some r"
  shows "spec_step (abs_db db) (abs_db db')"
  using assms orphan_free [OF assms(1)] by (auto simp: spec_step_def)

lemma spec_step_stutter:
  assumes "spec_step (abs_db db) (abs_db d1)" and "abs_db d2 = abs_db d1"
  shows "spec_step (abs_db db) (abs_db d2)"
  using assms by simp

lemma spec_step_refl: "db_inv db \<Longrightarrow> spec_step (abs_db db) (abs_db db)"
  by (rule spec_step_I) (simp_all add: spec_workflow_refl)

context row_update
begin

lemma abs_core:
  assumes "\<And>r. guard r \<Longrightarrow> core (upd r) = core r"
  shows "abs_db (update_wf guard upd db) = abs_db db"
proof -
  have "map_option core (find_wf wid (update_wf guard upd db)) = map_option core (find_wf wid db)" for wid
    using assms by (cases "find_wf wid db") (auto simp: find)
  then show ?thesis by (simp add: abs_db_def)
qed

end

context status_update
begin

lemma refines:
  assumes "db_inv db"
  shows "spec_step (abs_db db) (abs_db (update_wf guard upd db))"
proof (rule spec_step_I [OF preserves_inv [OF assms]])
  show "spec_workflow (map_option core (find_wf wid db)) (map_option core (find_wf wid (update_wf guard upd db)))" for wid
    using open_row legal by (cases "find_wf wid db") (auto simp: find core_def)
qed simp

end

lemma insert_refines:
  assumes "db_inv db" and "find_wf (ws_workflow_uuid row) db = None" and "db_inv (db\<lparr>workflow_status := workflow_status db @ [row]\<rparr>)"
    and "\<not> isTerminalStatus (ws_status row)" and "ws_output row = None" and "ws_error row = None"
  shows "spec_step (abs_db db) (abs_db (db\<lparr>workflow_status := workflow_status db @ [row]\<rparr>))"
proof (rule spec_step_I [OF assms(3)])
  show "spec_workflow (map_option core (find_wf wid db))
      (map_option core (find_wf wid (db\<lparr>workflow_status := workflow_status db @ [row]\<rparr>)))" for wid
    using assms(2,4-6) by (cases "find_wf wid db") (auto simp: lookup_by_append core_def spec_workflow_refl)
qed simp

lemma delete_refines:
  assumes "db_inv db"
  shows "spec_step (abs_db db) (abs_db (delete_wf p db))"
proof (rule spec_step_I [OF delete_wf_inv [OF assms]])
  show "spec_workflow (map_option core (find_wf wid db)) (map_option core (find_wf wid (delete_wf p db)))" for wid
    unfolding delete_wf_find [OF assms] by (cases "find_wf wid db") (auto simp: spec_workflow_refl)
  show "find_op wid fid (delete_wf p db) = Some r"
    if "find_wf wid (delete_wf p db) \<noteq> None" "find_op wid fid db = Some r" for wid fid r
  proof -
    have "wid \<notin> set (wf_ids (filter p (workflow_status db)))"
      using that(1) wf_row_unique [OF assms] unfolding delete_wf_find [OF assms]
      by (auto simp: find_wf_iff [OF assms] split: option.splits if_splits)
    moreover have "oo_workflow_uuid r = wid" using lookup_by_SomeD [OF that(2)] by simp
    moreover have "distinct (map op_key (operation_outputs db))" using assms by (simp add: db_inv_def pk_ok_def)
    ultimately show ?thesis using that(2) by (simp add: delete_wf_def Let_def lookup_by_delete_where)
  qed
qed

section \<open>The operations refine the specification\<close>

abbreviation ok_step :: "sysdb \<Rightarrow> sysdb \<Rightarrow> bool" where
  "ok_step db db' \<equiv> db_inv db' \<and> spec_step (abs_db db) (abs_db db')"

lemma ok_refl: "db_inv db \<Longrightarrow> ok_step db db"
  by (simp add: spec_step_refl)

lemma ok_update: "status_update g u \<Longrightarrow> db_inv db \<Longrightarrow> ok_step db (update_wf g u db)"
  by (simp add: status_update.refines inv_update.preserves_inv status_update.axioms(1))

lemma ok_stutter: "db_inv db \<Longrightarrow> db_inv db' \<Longrightarrow> abs_db db' = abs_db db \<Longrightarrow> ok_step db db'"
  using spec_step_refl [of db] by simp

lemma ok_then: "ok_step db d1 \<Longrightarrow> db_inv d2 \<Longrightarrow> abs_db d2 = abs_db d1 \<Longrightarrow> ok_step db d2"
  by simp

lemma ok_insert:
  assumes "db_inv db" and "insertable (in_Status inp)" and "InsertWorkflowStatus s now inp db = Inr (res, db')"
  shows "ok_step db db'"
  using assms(3)
proof (cases rule: InsertWorkflowStatus_cases)
  case fresh
  then show ?thesis
    using insert_refines [OF assms(1)] InsertWorkflowStatus_inv [OF assms] assms(2) by (simp add: insertable_def)
next
  case existing
  have "abs_db db' = abs_db db"
    unfolding existing(2) by (rule reinsert.abs_core) (simp add: core_def reinsert_set_def)
  then show ?thesis using ok_stutter [OF assms(1) InsertWorkflowStatus_inv [OF assms]] by simp
qed

lemma abs_wake: "abs_db (update_wf (wake_where ids) (wake_set now) db) = abs_db db"
  by (rule wake.abs_core) (simp add: core_def wake_set_def)

lemma abs_waiters [simp]: "abs_db (db\<lparr>workflow_waiters := ws\<rparr>) = abs_db db"
  by (simp add: abs_db_def)

lemma abs_WakeWorkflowWaiters [simp]: "abs_db (WakeWorkflowWaiters now tx wid db) = abs_db db"
  by (simp add: WakeWorkflowWaiters_def Let_def abs_wake)

lemma abs_notify [simp]: "abs_db (notifyWorkflowWaiters now wid db) = abs_db db"
  by (simp add: notifyWorkflowWaiters_def abs_wake)

lemma ok_outcome:
  assumes "db_inv db" and "isTerminalStatus st" and "UpdateWorkflowOutcome now tx wid st out err db = (landed, db')"
  shows "ok_step db db'"
proof -
  have db': "db' = WakeWorkflowWaiters now tx wid (update_wf (suspend_where wid) (outcome_set now st out err) db)"
    using assms(3) by (simp add: UpdateWorkflowOutcome_def Let_def)
  have "ok_step db (update_wf (suspend_where wid) (outcome_set now st out err) db)"
    by (rule ok_update [OF outcome_status_update [OF assms(2)] assms(1)])
  then show ?thesis using WakeWorkflowWaiters_inv by (simp add: db')
qed

lemma ok_wakes:
  assumes "db_inv db"
  shows "ok_step db (WakeWorkflowWaiters now tx wid db)" and "ok_step db (notifyWorkflowWaiters now wid db)"
    and "ok_step db (WakeSuspendedWorkflow now wid db)" and "ok_step db (wake_receiver now wid db)"
  using ok_stutter [OF assms WakeWorkflowWaiters_inv [OF assms]] ok_update [OF wake.status_update_axioms assms]
    ok_update [OF wake_rcv.status_update_axioms assms]
  by (simp_all add: notifyWorkflowWaiters_def WakeSuspendedWorkflow_def wake_receiver_def)

lemma ok_suspend:
  assumes "db_inv db"
  shows "SuspendWorkflowForSleep now wid until db = Inr (b, db') \<Longrightarrow> ok_step db db'"
    and "SuspendWorkflowForResult now wid awaited until db = Inr (b, db') \<Longrightarrow> ok_step db db'"
    and "ok_step db (ResetWorkflowRecoveryAttempts now wid db)"
proof -
  have susp: "ok_step db (update_wf (suspend_where wid) (suspend_set now until) db)"
    by (rule ok_update [OF suspend.status_update_axioms assms])
  then show "ok_step db db'" if "SuspendWorkflowForSleep now wid until db = Inr (b, db')"
    using that by (auto simp: SuspendWorkflowForSleep_def suspendWorkflowToDelayed_def Let_def split: if_splits)
  show "ok_step db db'" if r: "SuspendWorkflowForResult now wid awaited until db = Inr (b, db')"
    using ok_then [OF susp SuspendWorkflowForResult_inv [OF assms r]] ok_refl [OF assms] r
    by (auto simp: SuspendWorkflowForResult_def suspendWorkflowToDelayed_def Let_def split: if_splits)
  show "ok_step db (ResetWorkflowRecoveryAttempts now wid db)"
    unfolding ResetWorkflowRecoveryAttempts_def by (rule ok_update [OF reset_attempts.status_update_axioms assms])
qed

lemma ok_attributes:
  assumes "db_inv db" and "SetWorkflowAttributes now wid attrs db = Inr ((), db')"
  shows "ok_step db db'"
proof -
  have db': "db' = update_wf (\<lambda>r. ws_workflow_uuid r = wid) (attributes_set now attrs) db"
    using assms(2) by (simp add: SetWorkflowAttributes_def split: if_splits)
  have "abs_db db' = abs_db db" unfolding db' by (rule attributes.abs_core) (simp add: core_def attributes_set_def)
  then show ?thesis using ok_stutter [OF assms(1)] attributes.preserves_inv [OF assms(1)] db' by blast
qed

lemma ok_cancel_resume:
  assumes "db_inv db"
  shows "CancelWorkflows s now children ids db = Some (Inr (found, db')) \<Longrightarrow> ok_step db db'"
    and "CancelAllBefore s now cutoff db = Some (Inr ((), db')) \<Longrightarrow> ok_step db db'"
    and "ResumeWorkflows s now q ids db = (found, db') \<Longrightarrow> ok_step db db'"
    and "DeleteWorkflows s children ids db = Some (Inr ((), db')) \<Longrightarrow> ok_step db db'"
proof -
  note cancel = ok_update [OF cancel.status_update_axioms assms] and resume = ok_update [OF resume.status_update_axioms assms]
  show c: "ok_step db db'" if "CancelWorkflows s now children ids db = Some (Inr (found, db'))" for children ids found
    using that cancel ok_refl [OF assms]
    by (auto simp: CancelWorkflows_def Let_def split: if_splits option.splits sum.splits)
  show "ok_step db db'" if "CancelAllBefore s now cutoff db = Some (Inr ((), db'))"
    using that c ok_refl [OF assms]
    by (auto simp: CancelAllBefore_def split: if_splits option.splits sum.splits)
  show "ok_step db db'" if "ResumeWorkflows s now q ids db = (found, db')"
    using that resume ok_refl [OF assms] by (auto simp: ResumeWorkflows_def Let_def split: if_splits)
  show "ok_step db db'" if "DeleteWorkflows s children ids db = Some (Inr ((), db'))"
    using that delete_refines [OF assms] delete_wf_inv [OF assms]
    by (auto simp: DeleteWorkflows_def split: option.splits sum.splits)
qed

lemma ok_queues:
  assumes "db_inv db"
  shows "ok_step db (SetWorkflowDelay now wid until db)"
    and "ok_step db (TransitionDelayedWorkflows s now db)"
    and "ok_step db (snd (debounceDelayedWorkflowInternal s now inp db))"
    and "DequeueWorkflows s now claimNow locked dq db = Inr (ids, db') \<Longrightarrow> ok_step db db'"
    and "ok_step db (DeadLetterWorkflows now wids n db)"
    and "q \<noteq> [] \<Longrightarrow> ReenqueueForRecovery s now ex v q db = Inr (ids, db') \<Longrightarrow> ok_step db db'"
proof -
  show "ok_step db (SetWorkflowDelay now wid until db)"
    unfolding SetWorkflowDelay_def by (rule ok_update [OF delay.status_update_axioms assms])
  show "ok_step db (TransitionDelayedWorkflows s now db)"
    unfolding TransitionDelayedWorkflows_def by (rule ok_update [OF due.status_update_axioms assms])
  show "ok_step db (snd (debounceDelayedWorkflowInternal s now inp db))"
    using ok_update [OF bounce.status_update_axioms assms] ok_refl [OF assms]
    by (auto simp: debounceDelayedWorkflowInternal_def split: list.splits)
  show "ok_step db db'" if "DequeueWorkflows s now claimNow locked dq db = Inr (ids, db')"
    using that ok_update [OF claim.status_update_axioms assms] ok_refl [OF assms]
    by (cases rule: DequeueWorkflows_cases) auto
  show "ok_step db (DeadLetterWorkflows now wids n db)"
    using ok_update [OF dead.status_update_axioms assms] ok_refl [OF assms] by (simp add: DeadLetterWorkflows_def)
  show "ok_step db db'" if "q \<noteq> []" "ReenqueueForRecovery s now ex v q db = Inr (ids, db')"
    using that ok_update [OF recover_status_update assms] ok_refl [OF assms]
    by (auto simp: ReenqueueForRecovery_def Let_def split: if_splits)
qed

text \<open>Operations that leave the status table alone, or touch only the executor of a row, and add checkpoints.\<close>

lemma ok_ops:
  assumes "db_inv db" and "db_inv db'" and "\<And>wid. map_option core (find_wf wid db') = map_option core (find_wf wid db)"
    and "\<And>wid fid r. find_op wid fid db = Some r \<Longrightarrow> find_op wid fid db' = Some r"
  shows "ok_step db db'"
  using assms(2) spec_step_I [of db' db] assms(3,4) by (simp add: spec_workflow_refl)

lemma core_refresh [simp]:
  "map_option core (find_wf w (refreshExecutorID wid ex db)) = map_option core (find_wf w db)"
  by (cases "find_wf w db") (auto simp: refreshExecutorID_def refresh.find core_def)

lemma ok_steps:
  assumes "db_inv db"
  shows "RecordOperationResult s inp db = Inr ((), db') \<Longrightarrow> ok_step db db'"
    and "RecordChildWorkflow s cinp db = Inr ((), db') \<Longrightarrow> ok_step db db'"
    and "Patch wid fid name db = Inr (b, db') \<Longrightarrow> ok_step db db'"
proof -
  show "ok_step db db'" if r: "RecordOperationResult s inp db = Inr ((), db')"
  proof (rule ok_ops [OF assms RecordOperationResult_inv [OF assms r]])
    show "map_option core (find_wf w db') = map_option core (find_wf w db)" for w
      using r by (auto simp: RecordOperationResult_def map_sum_def split: option.splits if_splits sum.splits)
    show "find_op w f db' = Some x" if "find_op w f db = Some x" for w f x
      using results.first_write_wins [OF r, of "(w, f)"] that by simp
  qed
  show "ok_step db db'" if r: "RecordChildWorkflow s cinp db = Inr ((), db')"
  proof (rule ok_ops [OF assms RecordChildWorkflow_inv [OF assms r]])
    show "map_option core (find_wf w db') = map_option core (find_wf w db)" for w
      using r by (auto simp: RecordChildWorkflow_def split: option.splits if_splits)
    show "find_op w f db' = Some x" if "find_op w f db = Some x" for w f x
      using children.first_write_wins [OF r, of "(w, f)"] that by simp
  qed
  show "ok_step db db'" if r: "Patch wid fid name db = Inr (b, db')"
    using r by (intro ok_ops [OF assms Patch_inv [OF assms r]])
      (auto simp: Patch_def find_op_append split: option.splits if_splits)
qed

lemma WriteStream_db_inv:
  assumes "db_inv db" and "WriteStream inp db = Inr ((), db')"
  shows "db_inv db'"
proof -
  let ?rows = "stream_rows (wi_WorkflowID inp) (wi_Key inp) db"
  obtain new where db': "db' = db\<lparr>streams := streams db @ [new]\<rparr>" "find_wf (wi_WorkflowID inp) db \<noteq> None"
    and new: "st_workflow_uuid new = wi_WorkflowID inp" "st_key new = wi_Key inp" "st_offset new = next_offset ?rows"
    using assms(2) by (auto simp: WriteStream_def Let_def split: option.splits if_splits)
  have "st_offset r < next_offset ?rows" if "r \<in> set ?rows" for r
    using that fold_max_ge by (cases ?rows) (fastforce simp: next_offset_def)+
  then have "stream_key new \<notin> stream_key ` set (streams db)" using new by (fastforce simp: stream_rows_def)
  then show ?thesis unfolding db'(1) using assms(1) db'(2) new
    by (simp add: db_inv_def pk_ok_def fk_ok_def Let_def lookup_by_eq_None)
qed

lemma abs_other [simp]:
  "abs_db (db\<lparr>notifications := ns\<rparr>) = abs_db db" "abs_db (db\<lparr>streams := ss\<rparr>) = abs_db db"
  "abs_db (db\<lparr>workflow_events := es\<rparr>) = abs_db db" "abs_db (db\<lparr>workflow_events_history := hs\<rparr>) = abs_db db"
  "abs_db (db\<lparr>application_versions := vs\<rparr>) = abs_db db"
  by (simp_all add: abs_db_def)

lemma abs_wake_receiver [simp]: "abs_db (wake_receiver now wid db) = abs_db db"
  unfolding wake_receiver_def by (rule wake_rcv.abs_core) (simp add: core_def wake_set_def)

lemma db_inv_versions [simp]: "db_inv (db\<lparr>application_versions := vs\<rparr>) = db_inv db"
  by (simp add: db_inv_def pk_ok_def fk_ok_def)

lemma ok_comms:
  assumes "db_inv db"
  shows "Send now wakeNow uuid sinp db = Inr ((), db') \<Longrightarrow> ok_step db db'"
    and "ConsumeMessageWithUUID dest topic db = (res, db') \<Longrightarrow> ok_step db db'"
    and "SetEvent now einp db = Inr ((), db') \<Longrightarrow> ok_step db db'"
    and "WriteStream winp db = Inr ((), db') \<Longrightarrow> ok_step db db'"
proof -
  show "ok_step db db'" if r: "Send now wakeNow uuid sinp db = Inr ((), db')"
    using r by (intro ok_stutter [OF assms Send_inv [OF assms r]])
      (auto simp: Send_def Let_def split: option.splits if_splits)
  show "ok_step db db'" if r: "ConsumeMessageWithUUID dest topic db = (res, db')"
    using r by (intro ok_stutter [OF assms ConsumeMessageWithUUID_inv [OF assms r]])
      (auto simp: ConsumeMessageWithUUID_def split: list.splits)
  show "ok_step db db'" if r: "SetEvent now einp db = Inr ((), db')"
    using r by (intro ok_stutter [OF assms SetEvent_inv [OF assms r]])
      (auto simp: SetEvent_def Let_def split: option.splits if_splits)
  show "ok_step db db'" if r: "WriteStream winp db = Inr ((), db')"
    using r by (intro ok_stutter [OF assms WriteStream_db_inv [OF assms r]])
      (auto simp: WriteStream_def Let_def split: option.splits if_splits)
qed

lemma ok_versions:
  assumes "db_inv db"
  shows "CreateApplicationVersion now uuid name own db = Inr ((), db') \<Longrightarrow> ok_step db db'"
    and "UpdateApplicationVersionTimestamp name ts own db = Inr ((), db') \<Longrightarrow> ok_step db db'"
proof -
  show "ok_step db db'" if "CreateApplicationVersion now uuid name own db = Inr ((), db')"
    using that assms by (intro ok_stutter) (auto simp: CreateApplicationVersion_def Let_def split: sum.splits if_splits)
  show "ok_step db db'" if "UpdateApplicationVersionTimestamp name ts own db = Inr ((), db')"
    using that assms by (intro ok_stutter) (auto simp: UpdateApplicationVersionTimestamp_def split: sum.splits)
qed

lemma batches_delete: "\<exists>p. snd (garbageCollectInBatches (\<lambda>_ d. d) s cutoff n k wm cnt db) = delete_wf p db"
proof (induction "\<lambda>_ :: nat. \<lambda>d :: sysdb. d" s cutoff n k wm cnt db rule: garbageCollectInBatches.induct)
  case (1 s cutoff n k wm cnt db)
  show ?case
  proof (cases "batch_step s cutoff n wm db")
    case None
    then show ?thesis by (subst garbageCollectInBatches.simps) auto
  next
    case (Some c)
    then show ?thesis using 1 [OF Some refl] by (subst garbageCollectInBatches.simps) (auto simp: Let_def delete_wf_fuse)
  qed
qed

lemma ok_gc:
  assumes "db_inv db" and "GarbageCollectWorkflows (\<lambda>_ d. d) s inp db = Inr ((), db')"
  shows "ok_step db db'"
proof -
  have "db' = db \<or> (\<exists>p. db' = delete_wf p db)"
    using assms(2) batches_delete by (auto simp: GarbageCollectWorkflows_def Let_def split: if_splits option.splits)
  then show ?thesis using ok_refl [OF assms(1)] delete_refines [OF assms(1)] delete_wf_inv [OF assms(1)] by auto
qed

lemma forked_status:
  assumes "length ids = length (f_OriginalWorkflowIDs inp)" and "wid \<notin> set ids"
  shows "map_option core (find_wf wid (forked_db s now inp ids db)) = map_option core (find_wf wid db)"
proof -
  have "lookup_by ws_workflow_uuid wid (fork_rows s now db ids inp) = None"
    using fork_ids_of(1) [OF assms(1), of s now db] assms(2) by (metis lookup_by_eq_None set_map)
  then have "find_wf wid (forked_db s now inp ids db) =
      map_option (\<lambda>r. if ws_workflow_uuid r \<in> set (f_OriginalWorkflowIDs inp) then r\<lparr>ws_was_forked_from := True\<rparr> else r) (find_wf wid db)"
    by (cases "find_wf wid db") (simp_all add: forked_db_def Let_def lookup_by_update_where lookup_by_append)
  then show ?thesis by (cases "find_wf wid db") (simp_all add: core_def)
qed

lemma ok_fork:
  assumes "db_inv db" and "ForkWorkflows uuids s now inp db = Inr (ids, db')"
  shows "ok_step db db'"
proof (cases "f_OriginalWorkflowIDs inp = []")
  case True
  then have "db' = db" using assms(2) by (simp add: ForkWorkflows_def)
  then show ?thesis using ok_refl [OF assms(1)] by simp
next
  case False
  note D = ForkWorkflows_InrD [OF assms False]
  then have len: "length ids = length (f_OriginalWorkflowIDs inp)" and db': "db' = forked_db s now inp ids db" by auto
  have new: "find_wf wid db = None \<and> (\<exists>orig. find_wf wid db' = Some (fork_row s now inp wid orig))" if "wid \<in> set ids" for wid
    using that fork_copies_shape [OF assms] len by (metis in_set_conv_nth)
  have "spec_step (abs_db db) (abs_db db')"
  proof (rule spec_step_I [OF fork_keeps_inv [OF assms]])
    show "spec_workflow (map_option core (find_wf wid db)) (map_option core (find_wf wid db'))" for wid
    proof (cases "wid \<in> set ids")
      case True
      then show ?thesis using new [OF True] by (auto simp: core_def fork_row_def default_wf_row_def)
    next
      case False
      then show ?thesis using forked_status [OF len False, of s now db] by (simp add: db' spec_workflow_refl)
    qed
    show "find_op wid fid db' = Some r" if "find_op wid fid db = Some r" for wid fid r
    proof -
      have "wid \<notin> set ids" using new [of wid] orphan_free [OF assms(1), of wid fid] that by auto
      moreover have "0 < length (f_OriginalWorkflowIDs inp)" using False by simp
      ultimately show ?thesis using fork_copies_shape [OF assms, of 0] that by auto
    qed
  qed
  then show ?thesis using fork_keeps_inv [OF assms] by blast
qed

lemma ok_fork_from:
  assumes "db_inv db" and "ForkFrom uuids s now inp db = Inr (ids, db')"
  shows "ok_step db db'"
  using assms ok_fork ok_refl [OF assms(1)] by (auto simp: ForkFrom_def Let_def split: if_splits option.splits)

section \<open>The machine\<close>

text \<open>
  One rule per operation; contexts, clocks, inputs and locks are arbitrary. What the callers
  guarantee is a premise: new workflows are \<open>insertable\<close>, outcomes are terminal, recovery names a
  queue. Other transactions that run during a batched collection are steps of their own.
\<close>

inductive db_step :: "sysdb \<Rightarrow> sysdb \<Rightarrow> bool" where
  insert: "insertable (in_Status inp) \<Longrightarrow> InsertWorkflowStatus s now inp db = Inr (res, db') \<Longrightarrow> db_step db db'"
| outcome: "isTerminalStatus st \<Longrightarrow> UpdateWorkflowOutcome now tx wid st out err db = (landed, db') \<Longrightarrow> db_step db db'"
| wake_waiters: "db_step db (WakeWorkflowWaiters now tx wid db)"
| notify_waiters: "db_step db (notifyWorkflowWaiters now wid db)"
| wake_suspended: "db_step db (WakeSuspendedWorkflow now wid db)"
| suspend_sleep: "SuspendWorkflowForSleep now wid until db = Inr (b, db') \<Longrightarrow> db_step db db'"
| suspend_result: "SuspendWorkflowForResult now wid awaited until db = Inr (b, db') \<Longrightarrow> db_step db db'"
| reset_attempts: "db_step db (ResetWorkflowRecoveryAttempts now wid db)"
| attributes: "SetWorkflowAttributes now wid attrs db = Inr ((), db') \<Longrightarrow> db_step db db'"
| cancel: "CancelWorkflows s now children ids db = Some (Inr (found, db')) \<Longrightarrow> db_step db db'"
| cancel_before: "CancelAllBefore s now cutoff db = Some (Inr ((), db')) \<Longrightarrow> db_step db db'"
| resume: "ResumeWorkflows s now q ids db = (found, db') \<Longrightarrow> db_step db db'"
| delete: "DeleteWorkflows s children ids db = Some (Inr ((), db')) \<Longrightarrow> db_step db db'"
| collect: "GarbageCollectWorkflows (\<lambda>_ d. d) s gc db = Inr ((), db') \<Longrightarrow> db_step db db'"
| set_delay: "db_step db (SetWorkflowDelay now wid until db)"
| promote: "db_step db (TransitionDelayedWorkflows s now db)"
| debounce: "debounceDelayedWorkflowInternal s now bnc db = (bres, db') \<Longrightarrow> db_step db db'"
| dequeue: "DequeueWorkflows s now claimNow locked dq db = Inr (ids, db') \<Longrightarrow> db_step db db'"
| dead_letter: "db_step db (DeadLetterWorkflows now ids n db)"
| recover: "q \<noteq> [] \<Longrightarrow> ReenqueueForRecovery s now ex v q db = Inr (ids, db') \<Longrightarrow> db_step db db'"
| record_step: "RecordOperationResult s rinp db = Inr ((), db') \<Longrightarrow> db_step db db'"
| record_child: "RecordChildWorkflow s cinp db = Inr ((), db') \<Longrightarrow> db_step db db'"
| patch: "Patch wid fid name db = Inr (b, db') \<Longrightarrow> db_step db db'"
| send: "Send now wakeNow uuid sinp db = Inr ((), db') \<Longrightarrow> db_step db db'"
| consume: "ConsumeMessageWithUUID dest topic db = (msg, db') \<Longrightarrow> db_step db db'"
| set_event: "SetEvent now einp db = Inr ((), db') \<Longrightarrow> db_step db db'"
| write_stream: "WriteStream winp db = Inr ((), db') \<Longrightarrow> db_step db db'"
| create_version: "CreateApplicationVersion now uuid name own db = Inr ((), db') \<Longrightarrow> db_step db db'"
| promote_version: "UpdateApplicationVersionTimestamp name ts own db = Inr ((), db') \<Longrightarrow> db_step db db'"
| fork: "ForkWorkflows uuids s now finp db = Inr (ids, db') \<Longrightarrow> db_step db db'"
| fork_from: "ForkFrom uuids s now ffinp db = Inr (ids, db') \<Longrightarrow> db_step db db'"

lemmas ok_operations = ok_insert ok_outcome ok_wakes ok_suspend ok_attributes ok_cancel_resume ok_queues
  ok_steps ok_comms ok_versions ok_gc ok_fork ok_fork_from

lemma step_ok: "db_step db db' \<Longrightarrow> db_inv db \<Longrightarrow> ok_step db db'"
proof (induction rule: db_step.induct)
  case (debounce s now bnc db bres db')
  then show ?case using ok_queues(3) [of db s now bnc] by simp
qed (rule ok_operations; assumption)+


text \<open>A run, with the states it passes through.\<close>

inductive run :: "sysdb \<Rightarrow> sysdb list \<Rightarrow> sysdb \<Rightarrow> bool" where
  start: "run db [] db"
| more: "run db ds d \<Longrightarrow> db_step d d' \<Longrightarrow> run db (ds @ [d']) d'"

lemma run_inv: "run db ds d \<Longrightarrow> db_inv db \<Longrightarrow> db_inv d"
  by (induction rule: run.induct) (auto dest: step_ok)

text \<open>
  C3: in every run, of any length and any interleaving, a workflow that has succeeded or failed
  keeps its status, output and error, and any workflow keeps every checkpoint it has recorded, for
  as long as it is not deleted; the constraints of the schema hold throughout.
\<close>

theorem run_keeps_outcomes_and_checkpoints:
  assumes "run db ds d" and "db_inv db" and "\<forall>x \<in> set ds. find_wf wid x \<noteq> None" and "find_wf wid db = Some r"
  shows "\<exists>r'. db_inv d \<and> find_wf wid d = Some r' \<and>
    (has_outcome (ws_status r) \<longrightarrow> ws_status r' = ws_status r \<and> ws_output r' = ws_output r \<and> ws_error r' = ws_error r) \<and>
    (\<forall>fid x. find_op wid fid db = Some x \<longrightarrow> find_op wid fid d = Some x)"
  using assms
proof (induction rule: run.induct)
  case (more db ds d d')
  then obtain r1 where r1: "db_inv d" "find_wf wid d = Some r1"
    "has_outcome (ws_status r) \<longrightarrow> ws_status r1 = ws_status r \<and> ws_output r1 = ws_output r \<and> ws_error r1 = ws_error r"
    "\<forall>fid x. find_op wid fid db = Some x \<longrightarrow> find_op wid fid d = Some x" by auto
  have s: "db_inv d'" "spec_step (abs_db d) (abs_db d')" using step_ok [OF more.hyps(2) r1(1)] by simp_all
  obtain r2 where r2: "find_wf wid d' = Some r2" using more.prems(2) by auto
  then have "spec_workflow (Some (core r1)) (Some (core r2))"
    "\<forall>fid x. find_op wid fid d = Some x \<longrightarrow> find_op wid fid d' = Some x"
    using s(2) r1(2) by (auto simp: spec_step_def dest: spec [of _ wid])
  then show ?case using s(1) r1(3,4) r2 by (auto simp: core_def)
qed auto


theorem run_keeps_outcomes_and_checkpoints_witness:
  "\<exists>d r'. run sample_failed [d] d \<and> snd (ResumeWorkflows sample_sysdb_ctx 0 [] [''a''] sample_failed) = d \<and>
     find_wf ''a'' d = Some r' \<and> has_outcome (ws_status r') \<and> find_op ''a'' 0 d = find_op ''a'' 0 sample_failed"
proof -
  let ?d = "snd (ResumeWorkflows sample_sysdb_ctx 0 [] [''a''] sample_failed)"
  have run: "run sample_failed [?d] ?d"
    using more [OF start, of sample_failed ?d] resume [of sample_sysdb_ctx 0 "[]" "[''a'']" sample_failed] by (metis append_Nil prod.collapse)
  obtain r where r: "find_wf ''a'' sample_failed = Some r" "has_outcome (ws_status r)"
    by (simp add: sample_failed_def finished_row_def has_outcome_def)
  have "find_wf ''a'' ?d \<noteq> None" using r(1) by (simp add: ResumeWorkflows_eq resume.find)
  then obtain r' where r': "find_wf ''a'' ?d = Some r'" "has_outcome (ws_status r')"
    "\<forall>fid x. find_op ''a'' fid sample_failed = Some x \<longrightarrow> find_op ''a'' fid ?d = Some x"
    using run_keeps_outcomes_and_checkpoints [OF run sample_failed_inv _ r(1)] r(2) by auto
  obtain x where x: "find_op ''a'' 0 sample_failed = Some x" by (simp add: sample_failed_def sample_checkpoint_def)
  then have "find_op ''a'' 0 ?d = find_op ''a'' 0 sample_failed" using r'(3) by simp
  then show ?thesis using run r'(1,2) by blast
qed

end
