(* ===== verification/Serialization.thy ===== *)
theory Serialization
  imports Models
begin

text \<open>
  Encoding of workflow values and errors (\<^verbatim>\<open>src/dbos/serialization.go\<close>). Byte strings are
  \<^typ>\<open>string\<close>s. The base64 alphabet of \<^verbatim>\<open>encoding/base64\<close> is modelled; \<^verbatim>\<open>encoding/json\<close> and
  \<^verbatim>\<open>encoding/gob\<close> act on values of the user's types by reflection and stay parameters, collected in
  the record \<open>go_type\<close> for values and \<open>error_lib\<close> for errors.
\<close>

section \<open>Base64\<close>

definition b64_alphabet :: string where
  "b64_alphabet = ''ABCDEFGHIJKLMNOPQRSTUVWXYZabcdefghijklmnopqrstuvwxyz0123456789+/''"

definition b64_char :: "nat \<Rightarrow> char" where
  "b64_char n = b64_alphabet ! n"

definition b64_val :: "char \<Rightarrow> nat option" where
  "b64_val c = find (\<lambda>i. b64_alphabet ! i = c) [0..<64]"

abbreviation byte :: "char \<Rightarrow> nat" where
  "byte c \<equiv> of_char c"

fun EncodeToString :: "string \<Rightarrow> string" where
  "EncodeToString [] = []"
| "EncodeToString [a] =
     [b64_char (byte a div 4), b64_char (byte a mod 4 * 16), CHR ''='', CHR ''='']"
| "EncodeToString [a, b] =
     [b64_char (byte a div 4), b64_char (byte a mod 4 * 16 + byte b div 16), b64_char (byte b mod 16 * 4), CHR ''='']"
| "EncodeToString (a # b # c # bs) =
     b64_char (byte a div 4) # b64_char (byte a mod 4 * 16 + byte b div 16) #
     b64_char (byte b mod 16 * 4 + byte c div 64) # b64_char (byte c mod 64) # EncodeToString bs"

text \<open>
  One quantum of four characters: padding is only accepted at the end, trailing bits of a padded
  quantum are ignored.
\<close>

definition quantum :: "char \<Rightarrow> char \<Rightarrow> char \<Rightarrow> char \<Rightarrow> bool \<Rightarrow> string option" where
  "quantum w x y z final =
     (case (b64_val w, b64_val x) of
        (Some w', Some x') \<Rightarrow>
          let a = char_of (w' * 4 + x' div 16) in
          if final \<and> y = CHR ''='' \<and> z = CHR ''='' then Some [a]
          else (case b64_val y of
                  None \<Rightarrow> None
                | Some y' \<Rightarrow>
                    let b = char_of (x' mod 16 * 16 + y' div 4) in
                    if final \<and> z = CHR ''='' then Some [a, b]
                    else (case b64_val z of
                            None \<Rightarrow> None
                          | Some z' \<Rightarrow> Some [a, b, char_of (y' mod 4 * 64 + z')]))
      | _ \<Rightarrow> None)"

fun decode_quanta :: "string \<Rightarrow> string option" where
  "decode_quanta [] = Some []"
| "decode_quanta (w # x # y # z # s) =
     (case quantum w x y z (s = []) of
        None \<Rightarrow> None
      | Some bs \<Rightarrow> (case decode_quanta s of None \<Rightarrow> None | Some r \<Rightarrow> Some (bs @ r)))"
| "decode_quanta _ = None"

text \<open>\<^verbatim>\<open>DecodeString\<close> skips carriage returns and newlines.\<close>

definition DecodeString :: "string \<Rightarrow> string res" where
  "DecodeString s =
     (case decode_quanta (filter (\<lambda>c. c \<noteq> CHR 0x0A \<and> c \<noteq> CHR 0x0D) s) of
        None \<Rightarrow> Inl (ErrorText ''illegal base64 data'')
      | Some bs \<Rightarrow> Inr bs)"

lemma b64_table:
  "list_all (\<lambda>n. b64_val (b64_char n) = Some n \<and> b64_char n \<noteq> CHR ''='' \<and>
     b64_char n \<noteq> CHR 0x0A \<and> b64_char n \<noteq> CHR 0x0D \<and> b64_char n \<noteq> CHR ''_'') [0..<64]"
  by code_simp

lemma b64_char_simps [simp]:
  assumes "n < 64"
  shows "b64_val (b64_char n) = Some n" "b64_char n \<noteq> CHR ''=''" "b64_char n \<noteq> CHR 0x0A"
    "b64_char n \<noteq> CHR 0x0D" "b64_char n \<noteq> CHR ''_''"
  using b64_table assms by (auto simp: list_all_iff)

text \<open>The sextets of a quantum are below 64, and the octets are recovered from them.\<close>

lemma sextets [simp]:
  fixes a b :: nat
  shows "a < 256 \<Longrightarrow> a div 4 < 64" "b < 256 \<Longrightarrow> a mod 4 * 16 + b div 16 < 64"
    "b < 256 \<Longrightarrow> a mod 16 * 4 + b div 64 < 64" "a mod 64 < 64" "a mod 4 * 16 < 64" "a mod 16 * 4 < 64"
  using less_mult_imp_div_less [of a 64 4] less_mult_imp_div_less [of b 16 16] less_mult_imp_div_less [of b 4 64]
    mod_less_divisor [of 4 a] mod_less_divisor [of 16 a] mod_less_divisor [of 64 a] by linarith+

lemma octets [simp]:
  "byte b div 16 div 16 = (0 :: nat)" "byte b div 16 mod 16 = (byte b div 16 :: nat)"
  "byte c div 64 div 4 = (0 :: nat)" "byte c div 64 mod 4 = (byte c div 64 :: nat)"
  using less_mult_imp_div_less [of "byte b" 16 16] less_mult_imp_div_less [of "byte c" 4 64] by simp_all

lemma decode_encode: "decode_quanta (EncodeToString bs) = Some bs"
  by (induction bs rule: EncodeToString.induct) (simp_all add: quantum_def Let_def)

lemma EncodeToString_chars: "c \<in> set (EncodeToString bs) \<Longrightarrow> c \<noteq> CHR 0x0A \<and> c \<noteq> CHR 0x0D \<and> c \<noteq> CHR ''_''"
  by (induction bs rule: EncodeToString.induct) auto

lemma DecodeString_EncodeToString [simp]: "DecodeString (EncodeToString bs) = Inr bs"
proof -
  have "filter (\<lambda>c. c \<noteq> CHR 0x0A \<and> c \<noteq> CHR 0x0D) (EncodeToString bs) = EncodeToString bs"
    using EncodeToString_chars by (simp add: filter_id_conv)
  then show ?thesis by (simp add: DecodeString_def decode_encode)
qed

section \<open>Serializers\<close>

definition nilMarker :: string where
  "nilMarker = ''__DBOS_NIL''"

definition PortableSerializerName :: string where
  "PortableSerializerName = ''portable_json''"

text \<open>
  What reflection and the standard codecs know of a Go type \<^verbatim>\<open>T\<close>, as functions on dynamic values:
  \<^verbatim>\<open>reflect.ValueOf\<close> (invalid on the nil interface only), the type assertion to \<^verbatim>\<open>T\<close>, the zero value
  of \<^verbatim>\<open>T\<close>, and \<^verbatim>\<open>encoding/json\<close> and \<^verbatim>\<open>encoding/gob\<close> on it.
\<close>

datatype reflect_kind = Pointer | Slice | Map | Chan | Func | Interface | OtherKind

record 'v go_type =
  IsValid :: "'v \<Rightarrow> bool"
  Kind :: "'v \<Rightarrow> reflect_kind"
  IsNil :: "'v \<Rightarrow> bool"
  isOfType :: "'v \<Rightarrow> bool"
  ZeroValue :: 'v
  json_Marshal :: "'v \<Rightarrow> string res"
  json_Unmarshal :: "string \<Rightarrow> 'v res"
  gob_Encode :: "'v \<Rightarrow> string res"
  gob_Decode :: "string \<Rightarrow> 'v res"

definition isNilValue :: "'v go_type \<Rightarrow> 'v \<Rightarrow> bool" where
  "isNilValue t v = (if \<not> IsValid t v then True
     else if Kind t v \<in> {Pointer, Slice, Map, Chan, Func, Interface} then IsNil t v
     else False)"

text \<open>The nil of a pointer type is its zero value, so every branch returns the zero value.\<close>

definition getNilOrZeroValue :: "'v go_type \<Rightarrow> 'v" where
  "getNilOrZeroValue t =
     (let result = ZeroValue t in
      if \<not> IsValid t result then result
      else if Kind t result = Pointer then ZeroValue t
      else result)"

lemma getNilOrZeroValue_eq [simp]: "getNilOrZeroValue t = ZeroValue t"
  by (simp add: getNilOrZeroValue_def Let_def)

text \<open>\<^verbatim>\<open>type Serializer[T any] interface\<close>; \<open>None\<close> is the nil \<^verbatim>\<open>*string\<close>.\<close>

record 'v Serializer =
  Name :: string
  Encode :: "'v \<Rightarrow> string option res"
  Decode :: "string option \<Rightarrow> 'v res"

definition newJSONSerializer :: "'v go_type \<Rightarrow> 'v Serializer" where
  "newJSONSerializer t =
     \<lparr>Name = ''DBOS_JSON'',
      Encode = (\<lambda>data. if isNilValue t data then Inr (Some nilMarker)
                else (case json_Marshal t data of
                        Inl e \<Rightarrow> Inl (Errorf ''failed to encode data: '' e)
                      | Inr bs \<Rightarrow> Inr (Some (EncodeToString bs)))),
      Decode = (\<lambda>data. if data = None \<or> data = Some nilMarker then Inr (getNilOrZeroValue t)
                else (case DecodeString (the data) of
                        Inl e \<Rightarrow> Inl (Errorf ''failed to decode base64 data: '' e)
                      | Inr bs \<Rightarrow> (case json_Unmarshal t bs of
                                     Inl e \<Rightarrow> Inl (Errorf ''failed to decode json data: '' e)
                                   | Inr v \<Rightarrow> Inr v)))\<rparr>"

definition newPortableSerializer :: "'v go_type \<Rightarrow> 'v Serializer" where
  "newPortableSerializer t =
     \<lparr>Name = PortableSerializerName,
      Encode = (\<lambda>data. if isNilValue t data then Inr (Some ''null'')
                else (case json_Marshal t data of
                        Inl e \<Rightarrow> Inl (Errorf ''failed to encode data: '' e)
                      | Inr bs \<Rightarrow> Inr (Some bs))),
      Decode = (\<lambda>data. if data = None \<or> data = Some ''null'' then Inr (getNilOrZeroValue t)
                else (case json_Unmarshal t (the data) of
                        Inl e \<Rightarrow> Inl (Errorf ''failed to decode portable json data: '' e)
                      | Inr v \<Rightarrow> Inr v))\<rparr>"

text \<open>\<^verbatim>\<open>NewGobSerializer\<close> handles \<^verbatim>\<open>any\<close>: its zero value is the nil interface.\<close>

definition NewGobSerializer :: "'v go_type \<Rightarrow> 'v Serializer" where
  "NewGobSerializer t =
     \<lparr>Name = ''DBOS_GOB'',
      Encode = (\<lambda>data. if isNilValue t data then Inr (Some nilMarker)
                else (case gob_Encode t data of
                        Inl e \<Rightarrow> Inl (Errorf ''failed to gob encode data: '' e)
                      | Inr bs \<Rightarrow> Inr (Some (EncodeToString bs)))),
      Decode = (\<lambda>data. if data = None \<or> data = Some nilMarker then Inr (getNilOrZeroValue t)
                else (case DecodeString (the data) of
                        Inl e \<Rightarrow> Inl (Errorf ''failed to decode base64 data: '' e)
                      | Inr bs \<Rightarrow> (case gob_Decode t bs of
                                     Inl e \<Rightarrow> Inl (Errorf ''failed to gob decode data: '' e)
                                   | Inr v \<Rightarrow> Inr v)))\<rparr>"

definition typedCustomSerializerAdapter :: "'v go_type \<Rightarrow> 'v Serializer \<Rightarrow> 'v Serializer" where
  "typedCustomSerializerAdapter t inner =
     inner\<lparr>Decode := (\<lambda>data.
       case Decode inner data of
         Inl e \<Rightarrow> Inl e
       | Inr v \<Rightarrow> if \<not> IsValid t v then Inr (getNilOrZeroValue t)
                  else if isOfType t v then Inr v
                  else Inl (ErrorText ''custom serializer returned a value of another type''))\<rparr>"

text \<open>\<open>portable\<close> is \<^verbatim>\<open>isPortableWorkflow\<close> of the workflow in context, \<open>custom\<close> the configured serializer.\<close>

definition resolveEncoder :: "'v go_type \<Rightarrow> bool \<Rightarrow> 'v Serializer option \<Rightarrow> 'v Serializer" where
  "resolveEncoder t portable custom =
     (if portable then newPortableSerializer t
      else case custom of Some c \<Rightarrow> c | None \<Rightarrow> newJSONSerializer t)"

definition resolveDecoder :: "'v go_type \<Rightarrow> string \<Rightarrow> 'v Serializer option \<Rightarrow> 'v Serializer res" where
  "resolveDecoder t stored custom =
     (if stored = PortableSerializerName then Inr (newPortableSerializer t)
      else if (case custom of None \<Rightarrow> False | Some c \<Rightarrow> Name c = stored)
        then Inr (typedCustomSerializerAdapter t (the custom))
      else if stored = [] \<or> stored = ''DBOS_JSON'' then Inr (newJSONSerializer t)
      else Inl (ErrorText (''unknown serialization format '' @ [CHR 0x22] @ stored @ [CHR 0x22])))"

lemma serializer_names [simp]:
  "Name (newJSONSerializer t) = ''DBOS_JSON''" "Name (newPortableSerializer t) = PortableSerializerName"
  "Name (NewGobSerializer t) = ''DBOS_GOB''" "Name (typedCustomSerializerAdapter t c) = Name c"
  by (simp_all add: newJSONSerializer_def newPortableSerializer_def NewGobSerializer_def typedCustomSerializerAdapter_def)

text \<open>Base64 text contains no underscore, so the nil marker is never the encoding of a value.\<close>

lemma EncodeToString_not_marker [simp]: "EncodeToString bs \<noteq> nilMarker"
proof
  assume "EncodeToString bs = nilMarker"
  then have "CHR ''_'' \<in> set (EncodeToString bs)" by (simp add: nilMarker_def)
  then show False using EncodeToString_chars by blast
qed

section \<open>The serializer contract\<close>

text \<open>
  What the engine relies on: on the values the format represents faithfully, decoding what was
  encoded returns the value.
\<close>

locale lossless_serializer =
  fixes ser :: "'v Serializer" and faithful :: "'v \<Rightarrow> bool"
  assumes encoded: "faithful v \<Longrightarrow> Encode ser v = Inr d \<Longrightarrow> d \<noteq> None"
    and lossless: "faithful v \<Longrightarrow> Encode ser v = Inr d \<Longrightarrow> Decode ser d = Inr v"
begin

lemma encode_inj: "faithful v \<Longrightarrow> faithful w \<Longrightarrow> Encode ser v = Inr d \<Longrightarrow> Encode ser w = Inr d \<Longrightarrow> v = w"
  using lossless by (metis sum.inject(2))

end

text \<open>
  A value JSON represents faithfully: nil values are the type's nil-or-zero value, other values
  survive \<^verbatim>\<open>json.Unmarshal(json.Marshal(v))\<close> and their text is not \<^verbatim>\<open>null\<close>. Likewise for gob.
\<close>

definition json_faithful :: "'v go_type \<Rightarrow> 'v \<Rightarrow> bool" where
  "json_faithful t v = (if isNilValue t v then v = getNilOrZeroValue t
     else case json_Marshal t v of Inl e \<Rightarrow> True | Inr bs \<Rightarrow> bs \<noteq> ''null'' \<and> json_Unmarshal t bs = Inr v)"

definition gob_faithful :: "'v go_type \<Rightarrow> 'v \<Rightarrow> bool" where
  "gob_faithful t v = (if isNilValue t v then v = getNilOrZeroValue t
     else case gob_Encode t v of Inl e \<Rightarrow> True | Inr bs \<Rightarrow> gob_Decode t bs = Inr v)"

interpretation json: lossless_serializer "newJSONSerializer t" "json_faithful t" for t
  by unfold_locales (auto simp: newJSONSerializer_def json_faithful_def split: if_splits sum.splits)

interpretation portable: lossless_serializer "newPortableSerializer t" "json_faithful t" for t
  by unfold_locales (auto simp: newPortableSerializer_def json_faithful_def split: if_splits sum.splits)

interpretation gob: lossless_serializer "NewGobSerializer t" "gob_faithful t" for t
  by unfold_locales (auto simp: NewGobSerializer_def gob_faithful_def split: if_splits sum.splits)

lemma adapter_lossless:
  assumes "Encode c v = Inr d" and "Decode c d = Inr v"
    and "if \<not> IsValid t v then v = getNilOrZeroValue t else isOfType t v"
  shows "Decode (typedCustomSerializerAdapter t c) d = Inr v"
  using assms by (auto simp: typedCustomSerializerAdapter_def split: if_splits)

lemma resolved_roundtrip:
  assumes "Encode (resolveEncoder t portable custom) v = Inr d" and "json_faithful t v"
    and "if \<not> IsValid t v then v = getNilOrZeroValue t else isOfType t v"
    and "\<forall>c. custom = Some c \<longrightarrow> Name c \<noteq> PortableSerializerName \<and> (\<forall>w e. Encode c w = Inr e \<longrightarrow> Decode c e = Inr w)"
  shows "\<exists>dec. resolveDecoder t (Name (resolveEncoder t portable custom)) custom = Inr dec \<and> Decode dec d = Inr v"
proof (cases "portable \<or> custom = None")
  case True
  then show ?thesis using assms(1,2) json.lossless portable.lossless
    by (auto simp: resolveEncoder_def resolveDecoder_def PortableSerializerName_def split: option.splits)
next
  case False
  then obtain c where "custom = Some c" "\<not> portable" by blast
  then show ?thesis using assms adapter_lossless [of c v d t]
    by (auto simp: resolveEncoder_def resolveDecoder_def)
qed

text \<open>
  C28: whatever serializer the engine picks for a value, the decoder it later resolves from the
  stored format name returns that value. A configured serializer is only assumed to honour the
  documented contract and not to claim the name of the portable format.
\<close>

theorem serialized_value_roundtrip:
  assumes "Encode (resolveEncoder t portable custom) v = Inr d" and "json_faithful t v"
    and "if \<not> IsValid t v then v = getNilOrZeroValue t else isOfType t v"
    and "\<forall>c. custom = Some c \<longrightarrow> Name c \<noteq> PortableSerializerName \<and> (\<forall>w e. Encode c w = Inr e \<longrightarrow> Decode c e = Inr w)"
  shows "\<exists>dec. resolveDecoder t (Name (resolveEncoder t portable custom)) custom = Inr dec \<and> Decode dec d = Inr v"
  by (rule resolved_roundtrip [OF assms])

text \<open>A toy instance of the codecs: booleans, written \<^verbatim>\<open>true\<close> and \<^verbatim>\<open>false\<close>.\<close>

definition bool_type :: "bool go_type" where
  "bool_type = \<lparr>IsValid = (\<lambda>_. True), Kind = (\<lambda>_. OtherKind), IsNil = (\<lambda>_. False), isOfType = (\<lambda>_. True), ZeroValue = False,
     json_Marshal = (\<lambda>b. Inr (if b then ''true'' else ''false'')),
     json_Unmarshal = (\<lambda>s. if s = ''true'' then Inr True else if s = ''false'' then Inr False else Inl (ErrorText ''invalid'')),
     gob_Encode = (\<lambda>_. Inl (ErrorText ''unregistered'')), gob_Decode = (\<lambda>_. Inl (ErrorText ''unregistered''))\<rparr>"

theorem serialized_value_roundtrip_witness:
  "\<exists>d dec. Encode (resolveEncoder bool_type False None) True = Inr d \<and>
     resolveDecoder bool_type ''DBOS_JSON'' None = Inr dec \<and> Decode dec d = Inr True"
proof -
  have e: "Encode (resolveEncoder bool_type False None) True = Inr (Some (EncodeToString ''true''))"
    by (simp add: resolveEncoder_def newJSONSerializer_def bool_type_def isNilValue_def)
  have "\<exists>dec. resolveDecoder bool_type (Name (resolveEncoder bool_type False None)) None = Inr dec \<and>
      Decode dec (Some (EncodeToString ''true'')) = Inr True"
    by (rule serialized_value_roundtrip [OF e]) (simp_all add: json_faithful_def bool_type_def isNilValue_def)
  then show ?thesis using e by (auto simp: resolveEncoder_def)
qed

section \<open>Listings and portable arguments\<close>

text \<open>
  The value shown for a stored one in listings, with the error of a failed decoding beside it.
  \<open>any\<close> describes the empty interface, \<open>str\<close> is a string as a dynamic value.
\<close>

definition or_raw :: "(string \<Rightarrow> 'v) \<Rightarrow> string \<Rightarrow> 'v res \<Rightarrow> 'v \<times> go_error option" where
  "or_raw str encoded r = (case r of Inl e \<Rightarrow> (str encoded, Some e) | Inr v \<Rightarrow> (v, None))"

definition decodeListingValue ::
  "'v go_type \<Rightarrow> (string \<Rightarrow> 'v) \<Rightarrow> string option \<Rightarrow> string \<Rightarrow> 'v Serializer option \<Rightarrow> 'v \<times> go_error option" where
  "decodeListingValue any str encoded stored custom =
     (case encoded of
        None \<Rightarrow> (ZeroValue any, None)
      | Some enc \<Rightarrow>
          if stored = PortableSerializerName then or_raw str enc (json_Unmarshal any enc)
          else if (case custom of None \<Rightarrow> False | Some c \<Rightarrow> Name c = stored)
            then or_raw str enc (Decode (the custom) (Some enc))
          else if stored = ''DBOS_GOB'' then or_raw str enc (Decode (NewGobSerializer any) (Some enc))
          else if stored = [] \<or> stored = ''DBOS_JSON'' then
            if enc = nilMarker then (ZeroValue any, None)
            else or_raw str enc (map_sum id str (DecodeString enc))
          else (str enc, Some (ErrorText (''unknown serialization format '' @ [CHR 0x22] @ stored @ [CHR 0x22]))))"

text \<open>\<open>as_str\<close> is the type assertion to \<^verbatim>\<open>string\<close>, \<open>json_Valid\<close> the syntax check of \<^verbatim>\<open>encoding/json\<close>.\<close>

definition listingValueJSON ::
  "'v go_type \<Rightarrow> ('v \<Rightarrow> string option) \<Rightarrow> (string \<Rightarrow> bool) \<Rightarrow> 'v \<Rightarrow> string option" where
  "listingValueJSON any as_str json_Valid v =
     (if (case as_str v of None \<Rightarrow> False | Some s \<Rightarrow> json_Valid s) then as_str v
      else (case json_Marshal any v of Inl _ \<Rightarrow> None | Inr b \<Rightarrow> Some b))"

text \<open>The listing of a value stored by the default serializer is the JSON text of the value.\<close>

lemma listing_shows_json:
  assumes "Encode (newJSONSerializer any) v = Inr d" and "\<not> isNilValue any v"
    and "\<And>s. as_str (str s) = Some s" and "\<And>bs. json_Marshal any v = Inr bs \<Longrightarrow> json_Valid bs"
    and "\<forall>c. custom = Some c \<longrightarrow> Name c \<noteq> ''DBOS_JSON''"
  shows "\<exists>shown. decodeListingValue any str d ''DBOS_JSON'' custom = (shown, None) \<and>
    map_option Inr (listingValueJSON any as_str json_Valid shown) = Some (json_Marshal any v)"
proof -
  obtain bs where bs: "json_Marshal any v = Inr bs" "d = Some (EncodeToString bs)"
    using assms(1,2) by (auto simp: newJSONSerializer_def split: sum.splits)
  have "\<not> (case custom of None \<Rightarrow> False | Some c \<Rightarrow> Name c = ''DBOS_JSON'')" using assms(5) by (auto split: option.splits)
  then have "decodeListingValue any str d ''DBOS_JSON'' custom = (str bs, None)"
    by (simp add: decodeListingValue_def bs(2) or_raw_def PortableSerializerName_def)
  moreover have "listingValueJSON any as_str json_Valid (str bs) = Some bs"
    using assms(3,4) bs(1) by (simp add: listingValueJSON_def)
  ultimately show ?thesis using bs(1) by simp
qed

text \<open>
  The envelope of cross-language arguments, as \<^verbatim>\<open>json.Marshal\<close> writes \<^verbatim>\<open>portableArgsRaw\<close> with one raw
  positional argument. \<open>is_args\<close> is the type assertion to \<^verbatim>\<open>PortableWorkflowArgs\<close>.
\<close>

definition json_MarshalArgsRaw :: "string \<Rightarrow> string" where
  "json_MarshalArgsRaw arg =
     [CHR ''{'', CHR 0x22] @ ''positionalArgs'' @ [CHR 0x22] @ '':['' @ arg @ ''],'' @
     [CHR 0x22] @ ''namedArgs'' @ [CHR 0x22] @ '':{}}''"

definition encodePortableArgs :: "'v go_type \<Rightarrow> ('v \<Rightarrow> bool) \<Rightarrow> 'v \<Rightarrow> string option res" where
  "encodePortableArgs any is_args data =
     (if is_args data then Encode (newPortableSerializer any) data
      else (case json_Marshal any data of
              Inl e \<Rightarrow> Inl (Errorf ''failed to marshal portable arg: '' e)
            | Inr argBytes \<Rightarrow> Inr (Some (json_MarshalArgsRaw argBytes))))"

text \<open>
  \<open>is_envelope\<close> tells whether \<^verbatim>\<open>T\<close> is \<^verbatim>\<open>PortableWorkflowArgs\<close>; \<open>unmarshal_raw\<close> is \<^verbatim>\<open>json.Unmarshal\<close> into
  \<^verbatim>\<open>portableArgsRaw\<close>, of which only the positional arguments are used.
\<close>

definition decodePortableArgs ::
  "'v go_type \<Rightarrow> bool \<Rightarrow> (string \<Rightarrow> string list res) \<Rightarrow> string option \<Rightarrow> 'v res" where
  "decodePortableArgs t is_envelope unmarshal_raw data =
     (case data of
        None \<Rightarrow> Inr (getNilOrZeroValue t)
      | Some d \<Rightarrow>
          if d = ''null'' then Inr (getNilOrZeroValue t)
          else if is_envelope then
            (case json_Unmarshal t d of Inl e \<Rightarrow> Inl (Errorf ''failed to decode portable args envelope: '' e) | Inr v \<Rightarrow> Inr v)
          else (case unmarshal_raw d of
                  Inl e \<Rightarrow> Inl (Errorf ''failed to unmarshal portable args envelope: '' e)
                | Inr [] \<Rightarrow> Inr (getNilOrZeroValue t)
                | Inr (arg # _) \<Rightarrow> (case json_Unmarshal t arg of
                     Inl e \<Rightarrow> Inl (Errorf ''failed to unmarshal portable arg: '' e)
                   | Inr v \<Rightarrow> Inr v)))"

lemma portable_args_roundtrip:
  assumes "json_Marshal t v = Inr arg" and "json_Unmarshal t arg = Inr v"
    and "unmarshal_raw (json_MarshalArgsRaw arg) = Inr [arg]"
  shows "\<exists>d. encodePortableArgs t (\<lambda>_. False) v = Inr d \<and> decodePortableArgs t False unmarshal_raw d = Inr v"
  using assms by (auto simp: encodePortableArgs_def decodePortableArgs_def json_MarshalArgsRaw_def)

section \<open>Errors\<close>

text \<open>
  The codecs on errors: gob on the error interface (an error whose concrete type is not
  registered does not encode; an unexported wrapped error is not part of the encoding) and JSON
  on the portable envelope.
\<close>

record error_lib =
  gob_EncodeError :: "go_error \<Rightarrow> string res"
  gob_DecodeError :: "string \<Rightarrow> go_error res"
  json_MarshalPortable :: "portable_error \<Rightarrow> string res"
  json_UnmarshalPortable :: "string \<Rightarrow> portable_error res"

text \<open>\<^verbatim>\<open>errors.As\<close>: the first error of the tree the selector accepts.\<close>

fun errors_As :: "(go_error \<Rightarrow> 'a option) \<Rightarrow> go_error \<Rightarrow> 'a option"
  and errors_As_list :: "(go_error \<Rightarrow> 'a option) \<Rightarrow> go_error list \<Rightarrow> 'a option" where
  "errors_As sel (Errorf t e) = coalesce (sel (Errorf t e)) (errors_As sel e)"
| "errors_As sel (Join es) = coalesce (sel (Join es)) (errors_As_list sel es)"
| "errors_As sel (Error i (Some e)) = coalesce (sel (Error i (Some e))) (errors_As sel e)"
| "errors_As sel e = sel e"
| "errors_As_list sel [] = None"
| "errors_As_list sel (e # es) = coalesce (errors_As sel e) (errors_As_list sel es)"

definition as_portable :: "go_error \<Rightarrow> portable_error option" where
  "as_portable e = (case e of PortableWorkflowError p \<Rightarrow> Some p | _ \<Rightarrow> None)"

definition as_dbos :: "go_error \<Rightarrow> error_info option" where
  "as_dbos e = (case e of Error i _ \<Rightarrow> Some i | _ \<Rightarrow> None)"

definition putStr :: "string \<Rightarrow> string \<Rightarrow> (string \<times> json_value) list" where
  "putStr k v = (if v \<noteq> [] then [(k, JString v)] else [])"

definition putInt :: "string \<Rightarrow> int \<Rightarrow> (string \<times> json_value) list" where
  "putInt k v = (if v \<noteq> 0 then [(k, JNumber v)] else [])"

definition portableFromDBOSError :: "error_info \<Rightarrow> portable_error" where
  "portableFromDBOSError i =
     (let data = putStr ''workflowID'' (e_WorkflowID i) @ putStr ''destinationID'' (e_DestinationID i) @
        putStr ''stepName'' (e_StepName i) @ putStr ''queueName'' (e_QueueName i) @
        putStr ''deduplicationID'' (e_DeduplicationID i) @ putStr ''expectedName'' (e_ExpectedName i) @
        putStr ''recordedName'' (e_RecordedName i) @ putStr ''causeKind'' (CauseKind i) @
        putInt ''stepID'' (e_StepID i) @ putInt ''maxRetries'' (e_MaxRetries i)
      in \<lparr>p_Name = ErrorCode_String (Code i), p_Message = error_text (Error i None),
          p_Code = Some (JNumber (Code i)), p_Data = (if data = [] then None else Some (JObject data))\<rparr>)"

definition portable_of :: "go_error \<Rightarrow> portable_error" where
  "portable_of e =
     (case errors_As as_portable e of
        Some p \<Rightarrow> p
      | None \<Rightarrow>
          (case errors_As as_dbos e of
             Some i \<Rightarrow> portableFromDBOSError i
           | None \<Rightarrow> \<lparr>p_Name = ''Portable Error'', p_Message = error_text e, p_Code = None, p_Data = None\<rparr>))"

definition serializeWorkflowError :: "error_lib \<Rightarrow> go_error option \<Rightarrow> string \<Rightarrow> string" where
  "serializeWorkflowError lib err serialization =
     (case err of
        None \<Rightarrow> []
      | Some e \<Rightarrow>
          if serialization \<noteq> PortableSerializerName then
            (case gob_EncodeError lib e of Inr bs \<Rightarrow> EncodeToString bs | Inl _ \<Rightarrow> error_text e)
          else (case json_MarshalPortable lib (portable_of e) of Inr s \<Rightarrow> s | Inl _ \<Rightarrow> error_text e))"

definition decode_gob_error :: "error_lib \<Rightarrow> string \<Rightarrow> go_error option" where
  "decode_gob_error lib s =
     (if s = nilMarker then None
      else case DecodeString s of
        Inl _ \<Rightarrow> None
      | Inr bs \<Rightarrow> (case gob_DecodeError lib bs of
                     Inl _ \<Rightarrow> None
                   | Inr (Error i w) \<Rightarrow> Some (RestoreWrappedCause i w)
                   | Inr e \<Rightarrow> Some e))"

definition deserializeWorkflowError :: "error_lib \<Rightarrow> string option \<Rightarrow> go_error option" where
  "deserializeWorkflowError lib errStr =
     (case errStr of
        None \<Rightarrow> None
      | Some s \<Rightarrow>
          if s = [] then None
          else (case decode_gob_error lib s of
                  Some e \<Rightarrow> Some e
                | None \<Rightarrow>
                    (case json_UnmarshalPortable lib s of
                       Inr p \<Rightarrow> if p_Name p \<noteq> [] \<or> p_Message p \<noteq> [] then Some (PortableWorkflowError p) else Some (ErrorText s)
                     | Inl _ \<Rightarrow> Some (ErrorText s))))"

lemma b64_val_brace: "b64_val CHR ''{'' = None"
  by code_simp

lemma DecodeString_brace: "\<exists>e. DecodeString (CHR ''{'' # s) = Inl e"
proof -
  have "decode_quanta (CHR ''{'' # r) = None" for r
    by (cases "CHR ''{'' # r" rule: decode_quanta.cases) (auto simp: quantum_def b64_val_brace)
  then show ?thesis by (simp add: DecodeString_def)
qed

lemma errors_Is_restored: "errors_Is c (RestoreWrappedCause i None) \<longleftrightarrow> c \<noteq> 0 \<and> Code i = c"
  by (auto simp: RestoreWrappedCause_def errors_Is_def Error_Is_def Portable_Is_def)

text \<open>
  The error code of a structured error survives storage in both formats: the error read back
  answers \<^verbatim>\<open>errors.Is\<close> for exactly the code it was stored with. The codecs are assumed to behave as
  documented on it: gob drops the unexported cause, the JSON envelope is an object and reads back
  unchanged.
\<close>

theorem error_code_roundtrip:
  assumes "1 \<le> Code i" and "Code i < errorCodeSentinel"
    and "\<exists>bs. gob_EncodeError lib (Error i w) = Inr bs \<and> bs \<noteq> [] \<and> gob_DecodeError lib bs = Inr (Error i None)"
    and "case w of None \<Rightarrow> True | Some e \<Rightarrow> errors_As as_portable e = None"
    and "\<exists>s. json_MarshalPortable lib (portableFromDBOSError i) = Inr (CHR ''{'' # s) \<and>
      json_UnmarshalPortable lib (CHR ''{'' # s) = Inr (portableFromDBOSError i)"
  shows "\<exists>e. deserializeWorkflowError lib (Some (serializeWorkflowError lib (Some (Error i w)) serialization)) = Some e \<and>
    (\<forall>c. 1 \<le> c \<and> c < errorCodeSentinel \<longrightarrow> errors_Is c e = (c = Code i))"
proof (cases "serialization = PortableSerializerName")
  case False
  obtain bs where bs: "gob_EncodeError lib (Error i w) = Inr bs" "bs \<noteq> []" "gob_DecodeError lib bs = Inr (Error i None)"
    using assms(3) by blast
  have "EncodeToString bs \<noteq> []" using bs(2) by (cases bs rule: EncodeToString.cases) auto
  then have "deserializeWorkflowError lib (Some (serializeWorkflowError lib (Some (Error i w)) serialization)) =
      Some (RestoreWrappedCause i None)"
    using False bs by (simp add: serializeWorkflowError_def deserializeWorkflowError_def decode_gob_error_def)
  then show ?thesis using errors_Is_restored by auto
next
  case True
  let ?p = "portableFromDBOSError i"
  obtain s where s: "json_MarshalPortable lib ?p = Inr (CHR ''{'' # s)" "json_UnmarshalPortable lib (CHR ''{'' # s) = Inr ?p"
    using assms(5) by blast
  have p: "portable_of (Error i w) = ?p"
    using assms(4) by (cases w) (simp_all add: portable_of_def as_portable_def as_dbos_def)
  have name: "p_Name ?p = ErrorCode_String (Code i)" "p_Message ?p \<noteq> []"
    by (simp_all add: portableFromDBOSError_def Let_def)
  obtain e where "DecodeString (CHR ''{'' # s) = Inl e" using DecodeString_brace by blast
  then have "deserializeWorkflowError lib (Some (serializeWorkflowError lib (Some (Error i w)) serialization)) =
      Some (PortableWorkflowError ?p)"
    using True s name(2) p
    by (simp add: serializeWorkflowError_def deserializeWorkflowError_def decode_gob_error_def nilMarker_def)
  moreover have "errors_Is c (PortableWorkflowError ?p) = (c = Code i)" if "1 \<le> c" "c < errorCodeSentinel" for c
    using that assms(1,2) name(1) ErrorCode_String_inj [of c "Code i"]
    by (auto simp: errors_Is_def Error_Is_def Portable_Is_def)
  ultimately show ?thesis by blast
qed

definition sample_error :: error_info where
  "sample_error = zero_error\<lparr>Message := ''late'', Code := 16\<rparr>"

definition sample_error_lib :: error_lib where
  "sample_error_lib = \<lparr>gob_EncodeError = (\<lambda>_. Inr ''x''), gob_DecodeError = (\<lambda>_. Inr (Error sample_error None)),
     json_MarshalPortable = (\<lambda>_. Inr ''{}''), json_UnmarshalPortable = (\<lambda>_. Inr (portableFromDBOSError sample_error))\<rparr>"

theorem error_code_roundtrip_witness:
  "\<exists>e. deserializeWorkflowError sample_error_lib
      (Some (serializeWorkflowError sample_error_lib (Some (Error sample_error (Some DeadlineExceeded))) PortableSerializerName)) = Some e \<and>
    errors_Is 16 e \<and> \<not> errors_Is 5 e"
proof -
  have "\<exists>e. deserializeWorkflowError sample_error_lib
      (Some (serializeWorkflowError sample_error_lib (Some (Error sample_error (Some DeadlineExceeded))) PortableSerializerName)) = Some e \<and>
    (\<forall>c. 1 \<le> c \<and> c < errorCodeSentinel \<longrightarrow> errors_Is c e = (c = Code sample_error))"
    by (rule error_code_roundtrip) (auto simp: sample_error_lib_def sample_error_def as_portable_def)
  then show ?thesis by (auto simp: sample_error_def)
qed

end
