(* ===== verification/Exec.thy ===== *)
theory Exec
  imports Steps Serialization Complex_Main
begin

text \<open>
  Durable step execution (\<^verbatim>\<open>src/dbos/workflow.go\<close>: \<^verbatim>\<open>prepareStepExecution\<close>, \<^verbatim>\<open>executeStepWithRetry\<close>,
  \<^verbatim>\<open>RunAsStep\<close>, \<^verbatim>\<open>runAsTxn\<close>, \<^verbatim>\<open>convertStepResult\<close>) over the retry loop of
  \<^verbatim>\<open>src/dbos/internal/sysdb/retry.go\<close>. A step body is a function of the whole state, the system
  database and a world \<open>'w\<close> that stands for everything else a body can touch. Time, context
  cancellation and waiting are functions of that state (\<open>env\<close>). The retries of single database
  statements on lost connections are not visible here: a statement of the model always runs.

  Shown: the retry loop of a step ends within its budget; a checkpointed step is never executed
  again and returns its recorded result; a program that crashed after any number of
  checkpointed steps replays them without touching the world and arrives at the same
  continuation. That a transactional step commits its writes together with its checkpoint or not at
  all is shown in \<open>Txn\<close>.
\<close>

section \<open>Backoff\<close>

record BackoffSchedule =
  b_Base :: duration
  b_Max :: duration
  b_Factor :: real
  b_JitterMin :: real
  b_JitterMax :: real

text \<open>
  The arithmetic is over the reals instead of \<^verbatim>\<open>float64\<close>; \<open>rand n\<close> is the random number drawn for
  attempt \<open>n\<close>.
\<close>

definition DelayFor :: "BackoffSchedule \<Rightarrow> (int \<Rightarrow> real) \<Rightarrow> int \<Rightarrow> duration" where
  "DelayFor b rand attempt =
     (let d = of_int (b_Base b) * b_Factor b ^ nat (attempt - 1);
          d = min d (of_int (b_Max b));
          d = (if 0 < b_JitterMax b then d * (b_JitterMin b + rand attempt * (b_JitterMax b - b_JitterMin b)) else d)
      in Duration d)"

lemma DelayFor_bounds:
  assumes "0 \<le> b_Base b" and "0 \<le> b_Max b" and "0 \<le> b_Factor b" and "0 \<le> b_JitterMin b"
    and "b_JitterMin b \<le> b_JitterMax b" and "0 < b_JitterMax b" and "0 \<le> rand n" and "rand n \<le> 1"
  shows "0 \<le> DelayFor b rand n" and "DelayFor b rand n \<le> of_int (b_Max b) * b_JitterMax b"
proof -
  let ?d = "min (of_int (b_Base b) * b_Factor b ^ nat (n - 1)) (of_int (b_Max b) :: real)"
  let ?j = "b_JitterMin b + rand n * (b_JitterMax b - b_JitterMin b)"
  have d: "0 \<le> ?d" "?d \<le> of_int (b_Max b)" using assms(1-3) by simp_all
  have "rand n * (b_JitterMax b - b_JitterMin b) \<le> 1 * (b_JitterMax b - b_JitterMin b)"
    using assms(5,8) by (intro mult_right_mono) simp_all
  then have j: "0 \<le> ?j" "?j \<le> b_JitterMax b" using assms(4,5,7) by simp_all
  have eq: "DelayFor b rand n = \<lfloor>?d * ?j\<rfloor>"
    using assms(6) mult_nonneg_nonneg [OF d(1) j(1)] by (simp add: DelayFor_def Duration_def Let_def)
  show "0 \<le> DelayFor b rand n" unfolding eq using mult_nonneg_nonneg [OF d(1) j(1)] by simp
  have "?d * ?j \<le> of_int (b_Max b) * b_JitterMax b" using d j assms(2) by (intro mult_mono) simp_all
  then show "DelayFor b rand n \<le> of_int (b_Max b) * b_JitterMax b" unfolding eq by linarith
qed

section \<open>The retry loop\<close>

text \<open>
  \<open>work\<close>, \<open>decide\<close> and \<open>wait\<close> act on a state that holds the variables their closures capture.
  \<open>wait\<close> answers False when the context is cancelled first. The loop, or the work it does, may run
  forever; then the result is \<open>None\<close>.
\<close>

partial_function (option) RetryLoop ::
  "(int \<Rightarrow> duration) \<Rightarrow> ('s \<Rightarrow> (go_error option \<times> 's) option) \<Rightarrow>
   (go_error \<Rightarrow> int \<Rightarrow> 's \<Rightarrow> (bool \<times> go_error option) \<times> 's) \<Rightarrow>
   (duration \<Rightarrow> 's \<Rightarrow> bool \<times> 's) \<Rightarrow> ('s \<Rightarrow> go_error option) \<Rightarrow> int \<Rightarrow> 's \<Rightarrow> (go_error option \<times> 's) option" where
  "RetryLoop delay work decide wait onCancel runs s =
     (case work s of
        None \<Rightarrow> None
      | Some (None, s1) \<Rightarrow> Some (None, s1)
      | Some (Some err, s1) \<Rightarrow>
          (case decide err (runs + 1) s1 of
             ((retry, finalErr), s2) \<Rightarrow>
               if \<not> retry then Some (finalErr, s2)
               else (case wait (delay (runs + 1)) s2 of
                       (proceed, s3) \<Rightarrow>
                         if \<not> proceed then Some (onCancel s3, s3)
                         else RetryLoop delay work decide wait onCancel (runs + 1) s3)))"

text \<open>
  A loop that returns keeps an invariant of its state: \<open>I runs\<close> holds before run number \<open>runs + 1\<close>,
  and \<open>P\<close> of whatever the loop returns.
\<close>

lemma RetryLoop_invariant:
  assumes "RetryLoop delay work decide wait onCancel runs s = Some res" and "I runs s"
    and "\<And>runs s s1. I runs s \<Longrightarrow> work s = Some (None, s1) \<Longrightarrow> P (None, s1)"
    and "\<And>runs s err s1 r s2. I runs s \<Longrightarrow> work s = Some (Some err, s1) \<Longrightarrow> decide err (runs + 1) s1 = (r, s2) \<Longrightarrow>
      \<not> fst r \<Longrightarrow> P (snd r, s2)"
    and "\<And>runs s err s1 r s2 s3. I runs s \<Longrightarrow> work s = Some (Some err, s1) \<Longrightarrow> decide err (runs + 1) s1 = (r, s2) \<Longrightarrow>
      fst r \<Longrightarrow> wait (delay (runs + 1)) s2 = (False, s3) \<Longrightarrow> P (onCancel s3, s3)"
    and "\<And>runs s err s1 r s2 s3. I runs s \<Longrightarrow> work s = Some (Some err, s1) \<Longrightarrow> decide err (runs + 1) s1 = (r, s2) \<Longrightarrow>
      fst r \<Longrightarrow> wait (delay (runs + 1)) s2 = (True, s3) \<Longrightarrow> I (runs + 1) s3"
  shows "P res"
proof -
  let ?Q = "\<lambda>d w de wa oc runs s res. d = delay \<and> w = work \<and> de = decide \<and> wa = wait \<and> oc = onCancel \<longrightarrow> I runs s \<longrightarrow> P res"
  have "?Q delay work decide wait onCancel runs s res"
  proof (rule RetryLoop.raw_induct [where P = ?Q, OF _ assms(1)], intro impI, elim conjE)
    fix loop d w de wa oc runs s res
    assume IH: "\<And>d w de wa oc runs s res. loop d w de wa oc runs s = Some res \<Longrightarrow> ?Q d w de wa oc runs s res"
    assume eqs: "d = delay" "w = work" "de = decide" "wa = wait" "oc = onCancel" and I: "I runs s"
    assume "(case w s of None \<Rightarrow> None | Some (None, s1) \<Rightarrow> Some (None, s1)
        | Some (Some err, s1) \<Rightarrow> (case de err (runs + 1) s1 of ((retry, finalErr), s2) \<Rightarrow>
            if \<not> retry then Some (finalErr, s2)
            else (case wa (d (runs + 1)) s2 of (proceed, s3) \<Rightarrow>
                    if \<not> proceed then Some (oc s3, s3) else loop d w de wa oc (runs + 1) s3))) = Some res"
    moreover have "P res" if "loop delay work decide wait onCancel (runs + 1) s3 = Some res" "I (runs + 1) s3" for s3
      using IH [OF that(1)] that(2) by simp
    ultimately show "P res" unfolding eqs using assms(3-6) [OF I]
      by (auto split: option.splits prod.splits if_splits)
  qed
  with assms(2) show ?thesis by blast
qed

text \<open>With a budget the loop returns.\<close>

lemma RetryLoop_returns:
  assumes "\<And>s. \<exists>r. work s = Some r" and "\<And>err runs s. budget < runs \<Longrightarrow> \<not> fst (fst (decide err runs s))"
  shows "\<exists>res. RetryLoop delay work decide wait onCancel runs s = Some res"
proof (induction "nat (budget + 1 - runs)" arbitrary: runs s rule: less_induct)
  case less
  obtain o1 s1 where w: "work s = Some (o1, s1)" using assms(1) by fastforce
  show ?case
  proof (cases "\<exists>err fin s2. o1 = Some err \<and> decide err (runs + 1) s1 = ((True, fin), s2)")
    case False
    then show ?thesis using w by (subst RetryLoop.simps) (auto split: option.splits prod.splits)
  next
    case True
    then obtain err fin s2 where d: "o1 = Some err" "decide err (runs + 1) s1 = ((True, fin), s2)" by blast
    then have "runs + 1 \<le> budget" using assms(2) [of "runs + 1" err s1] by force
    then show ?thesis using less [of "runs + 1"] w d by (subst RetryLoop.simps) (auto split: prod.splits)
  qed
qed

section \<open>Step options\<close>

type_synonym 'w state = "sysdb \<times> 'w"

text \<open>
  The isolation level of a transactional step is left out: transactions of the model are serial. The
  post-step function reads and writes the variables its closure captures, so it acts on the world too.
\<close>

record 'w stepOptions =
  maxRetries :: int
  backoffFactor :: real
  baseInterval :: duration
  maxInterval :: duration
  stepName :: string
  preGeneratedStepID :: "int option"
  retryPredicate :: "(go_error \<Rightarrow> bool) option"
  postStepInTxn :: "('w state \<Rightarrow> (unit \<times> 'w state) res) option"
  completedAt :: "instant option"
  outputIsChildID :: bool

type_synonym 'w StepOption = "'w stepOptions \<Rightarrow> 'w stepOptions"

definition zero_stepOptions :: "'w stepOptions" where
  "zero_stepOptions = \<lparr>maxRetries = 0, backoffFactor = 0, baseInterval = 0, maxInterval = 0, stepName = [],
     preGeneratedStepID = None, retryPredicate = None, postStepInTxn = None, completedAt = None, outputIsChildID = False\<rparr>"

definition setDefaults :: "'w stepOptions \<Rightarrow> 'w stepOptions" where
  "setDefaults opts =
     (let usesDefaultMaxInterval = maxInterval opts = 0;
          opts = (if backoffFactor opts = 0 then opts\<lparr>backoffFactor := 2\<rparr> else opts);
          opts = (if baseInterval opts = 0 then opts\<lparr>baseInterval := 100000000\<rparr> else opts);
          opts = (if maxInterval opts = 0 then opts\<lparr>maxInterval := 5000000000\<rparr> else opts)
      in if usesDefaultMaxInterval \<and> maxInterval opts < baseInterval opts
         then opts\<lparr>maxInterval := baseInterval opts\<rparr> else opts)"

definition WithStepName :: "string \<Rightarrow> 'w StepOption" where
  "WithStepName name opts = (if stepName opts = [] then opts\<lparr>stepName := name\<rparr> else opts)"

definition WithStepMaxRetries :: "int \<Rightarrow> 'w StepOption" where
  "WithStepMaxRetries n opts = opts\<lparr>maxRetries := n\<rparr>"

definition WithStepBackoffFactor :: "real \<Rightarrow> 'w StepOption" where
  "WithStepBackoffFactor f opts = opts\<lparr>backoffFactor := f\<rparr>"

definition WithStepBaseInterval :: "duration \<Rightarrow> 'w StepOption" where
  "WithStepBaseInterval d opts = opts\<lparr>baseInterval := d\<rparr>"

definition WithStepMaxInterval :: "duration \<Rightarrow> 'w StepOption" where
  "WithStepMaxInterval d opts = opts\<lparr>maxInterval := d\<rparr>"

definition WithStepRetryPredicate :: "(go_error \<Rightarrow> bool) option \<Rightarrow> 'w StepOption" where
  "WithStepRetryPredicate p opts = opts\<lparr>retryPredicate := p\<rparr>"

definition withNextStepID :: "int \<Rightarrow> 'w StepOption" where
  "withNextStepID i opts = opts\<lparr>preGeneratedStepID := Some i\<rparr>"

definition withCompletedAt :: "instant \<Rightarrow> 'w StepOption" where
  "withCompletedAt t opts = opts\<lparr>completedAt := Some t\<rparr>"

definition withPostStepInTxn :: "('w state \<Rightarrow> (unit \<times> 'w state) res) option \<Rightarrow> 'w StepOption" where
  "withPostStepInTxn f opts = opts\<lparr>postStepInTxn := f\<rparr>"

definition withChildWorkflowIDOutput :: "'w StepOption" where
  "withChildWorkflowIDOutput opts = opts\<lparr>outputIsChildID := True\<rparr>"

text \<open>The defaults always leave a schedule whose cap is not below its base.\<close>

lemma setDefaults_intervals:
  "maxInterval opts = 0 \<Longrightarrow> baseInterval (setDefaults opts) \<le> maxInterval (setDefaults opts)"
  by (simp add: setDefaults_def Let_def)

section \<open>Contexts\<close>

record 'w workflowState =
  workflowID :: string
  stepID :: int
  isWithinStep :: bool
  isWithinTransaction :: bool
  isPortableWorkflow :: bool
  authenticatedUser :: string
  assumedRole :: string
  authenticatedRoles :: "string list"
  workflowCtx :: "('w state \<Rightarrow> go_error option) option"

definition nextStepID :: "'w workflowState \<Rightarrow> int \<times> 'w workflowState" where
  "nextStepID ws = (stepID ws + 1, ws\<lparr>stepID := stepID ws + 1\<rparr>)"

text \<open>
  What a step uses of its \<^verbatim>\<open>dbosContext\<close>, and of the runtime: \<open>c_any\<close> is the empty interface,
  \<open>c_Err\<close> and \<open>c_Cause\<close> the error of the context and its cause, \<open>c_wait\<close> answers False when the context is cancelled within the
  given time, \<open>c_typeName\<close> is the verb \<^verbatim>\<open>%T\<close>, \<open>c_asRaw\<close> and \<open>c_asString\<close> are the type assertions to
  \<^verbatim>\<open>rawStepOutput\<close> and \<^verbatim>\<open>string\<close>.
\<close>

record ('v, 'w) dbosContext =
  c_systemDB :: SysDB
  c_executorID :: string
  c_serializer :: "'v Serializer option"
  c_any :: "'v go_type"
  c_codecs :: error_lib
  c_typeName :: "'v \<Rightarrow> string"
  c_asRaw :: "'v \<Rightarrow> (string option \<times> string) option"
  c_asString :: "'v \<Rightarrow> string option"
  c_now :: "'w state \<Rightarrow> instant"
  c_Err :: "'w state \<Rightarrow> go_error option"
  c_Cause :: "'w state \<Rightarrow> go_error option"
  c_wait :: "duration \<Rightarrow> 'w state \<Rightarrow> bool \<times> 'w state"
  c_rand :: "int \<Rightarrow> real"

type_synonym ('v, 'w) body = "'w state \<Rightarrow> ('v \<times> go_error option) \<times> 'w state"

section \<open>Executing a step body\<close>

definition join_errors :: "go_error option \<Rightarrow> go_error \<Rightarrow> go_error" where
  "join_errors joined err = (case joined of None \<Rightarrow> Join [err] | Some j \<Rightarrow> Join [j, err])"

text \<open>The captured variables: \<^verbatim>\<open>stepOutput\<close>, \<^verbatim>\<open>stepError\<close>, \<^verbatim>\<open>joinedErrors\<close>, and the state.\<close>

type_synonym ('v, 'w) step_vars = "'v \<times> go_error option \<times> go_error option \<times> 'w state"

definition step_work :: "('v, 'w) body \<Rightarrow> ('v, 'w) step_vars \<Rightarrow> (go_error option \<times> ('v, 'w) step_vars) option" where
  "step_work runOnce = (\<lambda>(_, _, joined, st). case runOnce st of ((out, err), st') \<Rightarrow> Some (err, (out, err, joined, st')))"

definition step_decide ::
  "string \<Rightarrow> 'w stepOptions \<Rightarrow> go_error \<Rightarrow> int \<Rightarrow> ('v, 'w) step_vars \<Rightarrow> (bool \<times> go_error option) \<times> ('v, 'w) step_vars" where
  "step_decide wid opts err runs = (\<lambda>(out, serr, joined, st).
     let joined' = join_errors joined err in
     (if maxRetries opts < runs then
        if maxRetries opts \<le> 0 then (False, Some err)
        else (False, Some (NewMaxStepRetriesExceededError wid (stepName opts) (maxRetries opts) joined'))
      else if (case retryPredicate opts of None \<Rightarrow> False | Some p \<Rightarrow> \<not> p err) then (False, Some err)
      else (True, None),
      (out, serr, Some joined', st)))"

definition step_wait ::
  "('v, 'w) dbosContext \<Rightarrow> duration \<Rightarrow> ('v, 'w) step_vars \<Rightarrow> bool \<times> ('v, 'w) step_vars" where
  "step_wait c d = (\<lambda>(out, serr, joined, st). case c_wait c d st of (ok, st') \<Rightarrow> (ok, (out, serr, joined, st')))"

definition step_onCancel :: "('v, 'w) dbosContext \<Rightarrow> string \<Rightarrow> 'w stepOptions \<Rightarrow> ('v, 'w) step_vars \<Rightarrow> go_error option" where
  "step_onCancel c wid opts = (\<lambda>(out, serr, joined, st). Some (NewStepExecutionError wid (stepName opts)
     (case c_Err c st of
        Some e \<Rightarrow> Errorf ''context cancelled during retry: '' e
      | None \<Rightarrow> ErrorText ''context cancelled during retry: %!w(<nil>)'')))"

definition step_schedule :: "'w stepOptions \<Rightarrow> BackoffSchedule" where
  "step_schedule opts = \<lparr>b_Base = baseInterval opts, b_Max = maxInterval opts, b_Factor = backoffFactor opts,
     b_JitterMin = 0.95, b_JitterMax = 1.05\<rparr>"

definition executeStepWithRetry ::
  "('v, 'w) dbosContext \<Rightarrow> string \<Rightarrow> 'w stepOptions \<Rightarrow> ('v, 'w) body \<Rightarrow> 'w state \<Rightarrow>
   (('v \<times> go_error option) \<times> 'w state) option" where
  "executeStepWithRetry c wid opts runOnce st =
     map_option (\<lambda>(err, (out, serr, _, st')). ((out, coalesce err serr), st'))
       (RetryLoop (DelayFor (step_schedule opts) (c_rand c)) (step_work runOnce) (step_decide wid opts)
          (step_wait c) (step_onCancel c wid opts) 0 (ZeroValue (c_any c), None, None, st))"

section \<open>Running a step\<close>

text \<open>What the type-erased \<^verbatim>\<open>RunAsStep\<close> returns as \<^verbatim>\<open>any\<close>: nil, a value, or a recorded encoding.\<close>

datatype 'v step_result =
    NilResult
  | Direct 'v
  | CheckpointedOutcome "string option" string

record 'w preparedStep =
  ps_WorkflowID :: string
  ps_StepOpts :: "'w stepOptions"
  ps_StepState :: "'w workflowState option"
  ps_IsWithinStep :: bool

definition parse_options :: "'w StepOption list \<Rightarrow> 'w stepOptions" where
  "parse_options opts = setDefaults (fold (\<lambda>opt. opt) opts zero_stepOptions)"

text \<open>The state is that of the workflow, whose step counter moves; \<open>None\<close> is a context without one.\<close>

definition prepareStepExecution ::
  "'w workflowState option \<Rightarrow> 'w StepOption list \<Rightarrow> ('w preparedStep \<times> 'w workflowState) res" where
  "prepareStepExecution wfState opts =
     (let stepOpts = parse_options opts in
      case wfState of
        None \<Rightarrow> Inl (NewStepExecutionError [] (stepName stepOpts)
          (ErrorText ''workflow state not found in context: are you running this step within a workflow?''))
      | Some ws \<Rightarrow>
          if isWithinStep ws then
            Inr (\<lparr>ps_WorkflowID = workflowID ws, ps_StepOpts = stepOpts, ps_StepState = None, ps_IsWithinStep = True\<rparr>, ws)
          else
            (case (case preGeneratedStepID stepOpts of Some i \<Rightarrow> (i, ws) | None \<Rightarrow> nextStepID ws) of
               (sid, ws') \<Rightarrow>
                 Inr (\<lparr>ps_WorkflowID = workflowID ws, ps_StepOpts = stepOpts,
                       ps_StepState = Some \<lparr>workflowID = workflowID ws, stepID = sid, isWithinStep = True,
                         isWithinTransaction = False, isPortableWorkflow = False, authenticatedUser = [],
                         assumedRole = [], authenticatedRoles = [], workflowCtx = workflowCtx ws\<rparr>,
                       ps_IsWithinStep = False\<rparr>, ws')))"

definition checkStepContext :: "'w workflowState option \<Rightarrow> string \<Rightarrow> string \<Rightarrow> go_error option" where
  "checkStepContext wfState wid name =
     (if (case wfState of None \<Rightarrow> True | Some ws \<Rightarrow> \<not> isWithinStep ws)
      then Some (NewStepExecutionError wid name
        (ErrorText ''step must use the context.Context received from its dbos.Func closure.''))
      else None)"

definition isCancellationError :: "go_error \<Rightarrow> bool" where
  "isCancellationError err = (is_canceled err \<or> is_deadline err \<or>
     errors_Is ErrorCodeWorkflowCancelled err \<or> errors_Is ErrorCodeAwaitedWorkflowCancelled err)"

definition isWorkflowCtxCancelled :: "'w workflowState \<Rightarrow> 'w state \<Rightarrow> bool" where
  "isWorkflowCtxCancelled stepState st = (case workflowCtx stepState of None \<Rightarrow> False | Some ctxErr \<Rightarrow> ctxErr st \<noteq> None)"

definition interruptedStepError :: "'w workflowState \<Rightarrow> go_error option \<Rightarrow> 'w state \<Rightarrow> go_error" where
  "interruptedStepError stepState stepError st =
     NewWorkflowCancelledError (workflowID stepState)
       (case stepError of
          Some e \<Rightarrow> Some e
        | None \<Rightarrow> (case workflowCtx stepState of None \<Rightarrow> None | Some ctxErr \<Rightarrow> ctxErr st))"

text \<open>The recorded error of a step: \<^verbatim>\<open>nil\<close> stays \<^verbatim>\<open>NULL\<close>, any error is stored as text.\<close>

definition serialized_error :: "error_lib \<Rightarrow> go_error option \<Rightarrow> string \<Rightarrow> string option" where
  "serialized_error lib err serialization =
     (case err of None \<Rightarrow> None | Some e \<Rightarrow> Some (serializeWorkflowError lib (Some e) serialization))"

text \<open>
  The end of \<^verbatim>\<open>RunAsStep\<close>: the outcome of the body is serialized and recorded. \<open>portable\<close> is the
  format of the workflow in context, \<open>st\<close> the state after the body.
\<close>

definition checkpoint_step ::
  "('v, 'w) dbosContext \<Rightarrow> bool \<Rightarrow> 'w workflowState \<Rightarrow> 'w stepOptions \<Rightarrow> instant \<Rightarrow> 'v \<Rightarrow> go_error option \<Rightarrow> 'w state \<Rightarrow>
   ('v step_result \<times> go_error option) \<times> 'w state" where
  "checkpoint_step c portable stepState opts stepStartTime stepOutput stepError st =
     (if isWorkflowCtxCancelled stepState st
      then ((Direct stepOutput, Some (interruptedStepError stepState stepError st)), st)
      else
        let ser = resolveEncoder (c_any c) portable (c_serializer c);
            fail = (\<lambda>e. (NilResult, Some (NewStepExecutionError (workflowID stepState) (stepName opts) e)))
        in case Encode ser stepOutput of
             Inl serErr \<Rightarrow> (fail (Errorf ''failed to serialize step output: '' serErr), st)
           | Inr encodedStepOutput \<Rightarrow>
               (case RecordOperationResult (c_systemDB c)
                  \<lparr>ro_WorkflowID = workflowID stepState, ro_ChildWorkflowID = [], ro_StepID = stepID stepState,
                   ro_StepName = stepName opts, ro_Output = encodedStepOutput,
                   ro_ErrStr = serialized_error (c_codecs c) stepError (Name ser), ro_StartedAt = Some stepStartTime,
                   ro_CompletedAt = Some (case completedAt opts of None \<Rightarrow> c_now c st | Some t \<Rightarrow> t),
                   ro_Serialization = Name ser, ro_ExecutorID = c_executorID c\<rparr> (fst st) of
                  Inl recErr \<Rightarrow> (fail recErr, st)
                | Inr (_, db') \<Rightarrow> ((Direct stepOutput, stepError), (db', snd st))))"

text \<open>
  The type-erased \<^verbatim>\<open>RunAsStep\<close> of \<^verbatim>\<open>dbosContext\<close>; \<open>None\<close> as a function is nil. The result carries the
  workflow state with its step counter.
\<close>

definition dbosContext_RunAsStep ::
  "('v, 'w) dbosContext \<Rightarrow> 'w workflowState option \<Rightarrow> ('v, 'w) body option \<Rightarrow> 'w StepOption list \<Rightarrow> 'w state \<Rightarrow>
   (('v step_result \<times> go_error option) \<times> 'w workflowState option \<times> 'w state) option" where
  "dbosContext_RunAsStep c wfState fn opts st =
     (case prepareStepExecution wfState opts of
        Inl err \<Rightarrow> Some ((NilResult, Some err), wfState, st)
      | Inr (prep, ws) \<Rightarrow>
          (case fn of
             None \<Rightarrow> Some ((NilResult, Some (NewStepExecutionError (ps_WorkflowID prep) (stepName (ps_StepOpts prep))
                       (ErrorText ''step function cannot be nil''))), Some ws, st)
           | Some body \<Rightarrow>
               (case ps_StepState prep of
                  None \<Rightarrow> (case body st of ((out, err), st') \<Rightarrow> Some ((Direct out, err), Some ws, st'))
                | Some stepState \<Rightarrow>
                    let stepOpts = ps_StepOpts prep; stepStartTime = c_now c st in
                    (case CheckOperationExecution (workflowID stepState) (stepID stepState) (stepName stepOpts) (fst st) of
                       Inl err \<Rightarrow> Some ((NilResult, Some (NewStepExecutionError (workflowID stepState) (stepName stepOpts)
                                   (Errorf ''checking operation execution: '' err))), Some ws, st)
                     | Inr (Some recorded) \<Rightarrow>
                         Some ((CheckpointedOutcome (rr_Output recorded) (rr_Serialization recorded),
                                deserializeWorkflowError (c_codecs c) (rr_ErrStr recorded)), Some ws, st)
                     | Inr None \<Rightarrow>
                         map_option (\<lambda>((stepOutput, stepError), st').
                             (case checkpoint_step c (isPortableWorkflow ws) stepState stepOpts stepStartTime stepOutput stepError st' of
                                (res, st'') \<Rightarrow> (res, Some ws, st'')))
                           (executeStepWithRetry c (workflowID stepState) stepOpts
                             (\<lambda>s. case checkStepContext (Some stepState) (workflowID stepState) (stepName stepOpts) of
                                    Some err \<Rightarrow> ((ZeroValue (c_any c), Some err), s)
                                  | None \<Rightarrow> body s) st)))))"

text \<open>\<open>wid\<close> is \<^verbatim>\<open>GetWorkflowID(ctx)\<close>; the context is a real one, not a mock.\<close>

definition convertStepResult :: "('v, 'w) dbosContext \<Rightarrow> 'v go_type \<Rightarrow> string \<Rightarrow> 'v step_result \<Rightarrow> 'v res" where
  "convertStepResult c t wid result =
     (case result of
        CheckpointedOutcome encodedOutput serialization \<Rightarrow>
          (case resolveDecoder t serialization (c_serializer c) of
             Inl resolveErr \<Rightarrow> Inl (NewWorkflowExecutionError wid resolveErr)
           | Inr stepDecoder \<Rightarrow>
               (case Decode stepDecoder encodedOutput of
                  Inl decodeErr \<Rightarrow> Inl (NewWorkflowExecutionError wid
                    (Errorf (''decoding step result to expected type '' @ c_typeName c (ZeroValue t) @ '': '') decodeErr))
                | Inr v \<Rightarrow> Inr v))
      | Direct v \<Rightarrow>
          if isOfType t v then Inr v
          else Inl (NewWorkflowUnexpectedResultType wid (c_typeName c (ZeroValue t)) (c_typeName c v))
      | NilResult \<Rightarrow> Inl (NewWorkflowUnexpectedResultType wid (c_typeName c (ZeroValue t)) ''<nil>''))"

definition typed_result ::
  "('v, 'w) dbosContext \<Rightarrow> 'v go_type \<Rightarrow> 'w workflowState option \<Rightarrow> 'v step_result \<times> go_error option \<Rightarrow> 'v \<times> go_error option" where
  "typed_result c t ws = (\<lambda>(result, err).
     if (case result of NilResult \<Rightarrow> True | Direct v \<Rightarrow> \<not> IsValid t v | _ \<Rightarrow> False) then (ZeroValue t, err)
     else (case convertStepResult c t (case ws of None \<Rightarrow> [] | Some w \<Rightarrow> workflowID w) result of
             Inl convertErr \<Rightarrow> (ZeroValue t, Some convertErr)
           | Inr v \<Rightarrow> (v, err)))"

text \<open>The typed \<^verbatim>\<open>RunAsStep\<close>: \<open>funcName\<close> is the name the runtime knows the function under.\<close>

definition RunAsStep ::
  "('v, 'w) dbosContext \<Rightarrow> 'v go_type \<Rightarrow> string \<Rightarrow> 'w workflowState option \<Rightarrow> ('v, 'w) body option \<Rightarrow> 'w StepOption list \<Rightarrow>
   'w state \<Rightarrow> (('v \<times> go_error option) \<times> 'w workflowState option \<times> 'w state) option" where
  "RunAsStep c t funcName wfState fn opts st =
     (case fn of
        None \<Rightarrow> Some ((ZeroValue t, Some (NewStepExecutionError [] [] (ErrorText ''step function cannot be nil''))), wfState, st)
      | Some _ \<Rightarrow> map_option (\<lambda>(r, ws, st'). (typed_result c t ws r, ws, st'))
          (dbosContext_RunAsStep c wfState fn (opts @ [WithStepName funcName]) st))"

section \<open>Transactional steps\<close>

text \<open>
  \<^verbatim>\<open>Retry\<close> with its defaults: no bound on the number of runs; \<open>retryable\<close> is the chain of conditions,
  which looks at the driver's error codes. The result of the last run is kept.
\<close>

definition retry_schedule :: BackoffSchedule where
  "retry_schedule = \<lparr>b_Base = 100000000, b_Max = 30000000000, b_Factor = 2, b_JitterMin = 0.95, b_JitterMax = 1.05\<rparr>"

definition retry_decide ::
  "(go_error \<Rightarrow> bool) \<Rightarrow> int \<Rightarrow> go_error \<Rightarrow> int \<Rightarrow> 's \<Rightarrow> (bool \<times> go_error option) \<times> 's" where
  "retry_decide retryable max_retries err runs s =
     (if \<not> retryable err then (False, Some err)
      else if 0 \<le> max_retries \<and> max_retries < runs then (False, Some err)
      else (True, None), s)"

definition RetryWithResult ::
  "('v, 'w) dbosContext \<Rightarrow> (go_error \<Rightarrow> bool) \<Rightarrow> 'r \<Rightarrow> ('w state \<Rightarrow> (('r \<times> go_error option) \<times> 'w state) option) \<Rightarrow> 'w state \<Rightarrow>
   (('r \<times> go_error option) \<times> 'w state) option" where
  "RetryWithResult c retryable zero fn st =
     map_option (\<lambda>(err, (result, st')). ((result, err), st'))
       (RetryLoop (DelayFor retry_schedule (c_rand c))
          (\<lambda>(_, st). map_option (\<lambda>((result, err), st'). (err, (result, st'))) (fn st))
          (retry_decide retryable (- 1))
          (\<lambda>d (result, st). case c_wait c d st of (ok, st') \<Rightarrow> (ok, (result, st')))
          (\<lambda>(_, st). map_option (\<lambda>e. contextInterruptionError e (c_Cause c st) [] ''retried operation interrupted'') (c_Err c st))
          0 (zero, st))"

text \<open>The body of a transactional step runs under a savepoint: an error discards its writes.\<close>

definition in_savepoint :: "('v, 'w) body \<Rightarrow> ('v, 'w) body" where
  "in_savepoint fn st = (case fn st of
     ((out, err), st') \<Rightarrow> ((out, err), if err = None then st' else (fst st, snd st')))"

text \<open>
  The part of one transaction after the body: post-step writes, encoding, checkpoint, commit.
  \<open>st\<close> is the state when the transaction began, to which every early return rolls the database
  back; \<open>st'\<close> the state after the body.
\<close>

definition txn_input ::
  "('v, 'w) dbosContext \<Rightarrow> 'w workflowState \<Rightarrow> 'w stepOptions \<Rightarrow> instant \<Rightarrow> 'v \<Rightarrow> string option \<Rightarrow> string option \<Rightarrow> string \<Rightarrow>
   'w state \<Rightarrow> RecordOperationResultDBInput" where
  "txn_input c stepState opts stepStartTime stepOutput encoded errStr serialization st =
     \<lparr>ro_WorkflowID = workflowID stepState,
      ro_ChildWorkflowID = (if outputIsChildID opts then derefStr (c_asString c stepOutput) else []),
      ro_StepID = stepID stepState, ro_StepName = stepName opts, ro_Output = encoded, ro_ErrStr = errStr,
      ro_StartedAt = Some stepStartTime,
      ro_CompletedAt = Some (case completedAt opts of None \<Rightarrow> c_now c st | Some t \<Rightarrow> t),
      ro_Serialization = serialization, ro_ExecutorID = c_executorID c\<rparr>"

definition txn_encode ::
  "('v, 'w) dbosContext \<Rightarrow> 'v Serializer \<Rightarrow> 'v \<Rightarrow> (string option \<times> string) res" where
  "txn_encode c txnSer stepOutput =
     (case c_asRaw c stepOutput of
        Some (value, serialization) \<Rightarrow> Inr (value, serialization)
      | None \<Rightarrow> map_sum id (\<lambda>enc. (enc, Name txnSer)) (Encode txnSer stepOutput))"

definition commit_step ::
  "('v, 'w) dbosContext \<Rightarrow> bool \<Rightarrow> 'w workflowState \<Rightarrow> 'w stepOptions \<Rightarrow> instant \<Rightarrow> 'v \<Rightarrow> go_error option \<Rightarrow> 'w state \<Rightarrow> 'w state \<Rightarrow>
   ('v step_result \<times> go_error option) \<times> 'w state" where
  "commit_step c portable stepState opts stepStartTime stepOutput stepError st st' =
     (let rolledBack = (fst st, snd st');
          fail = (\<lambda>e. ((NilResult, Some (NewStepExecutionError (workflowID stepState) (stepName opts) e)), rolledBack));
          txnSer = resolveEncoder (c_any c) portable (c_serializer c)
      in if isWorkflowCtxCancelled stepState st'
         then ((Direct stepOutput, Some (interruptedStepError stepState stepError st')), rolledBack)
         else
           (case (case postStepInTxn opts of None \<Rightarrow> Inr ((), st') | Some post \<Rightarrow> post st') of
              Inl postErr \<Rightarrow> fail postErr
            | Inr (_, db1, w1) \<Rightarrow>
                (case txn_encode c txnSer stepOutput of
                   Inl serErr \<Rightarrow> fail (Errorf ''failed to serialize step output: '' serErr)
                 | Inr (encoded, serialization) \<Rightarrow>
                     (case RecordOperationResult (c_systemDB c)
                        (txn_input c stepState opts stepStartTime stepOutput encoded
                          (serialized_error (c_codecs c) stepError (Name txnSer)) serialization (db1, w1)) db1 of
                        Inl recErr \<Rightarrow> fail (case stepError of None \<Rightarrow> recErr | Some e \<Rightarrow> Join [recErr, e])
                      | Inr (_, db2) \<Rightarrow> ((Direct stepOutput, stepError), (db2, w1))))))"

definition txn_attempt ::
  "('v, 'w) dbosContext \<Rightarrow> bool \<Rightarrow> 'w workflowState \<Rightarrow> 'w stepOptions \<Rightarrow> instant \<Rightarrow> ('v, 'w) body \<Rightarrow> 'w state \<Rightarrow>
   (('v step_result \<times> go_error option) \<times> 'w state) option" where
  "txn_attempt c portable stepState opts stepStartTime fn st =
     (case CheckOperationExecution (workflowID stepState) (stepID stepState) (stepName opts) (fst st) of
        Inl err \<Rightarrow> Some ((NilResult, Some (NewStepExecutionError (workflowID stepState) (stepName opts)
                    (Errorf ''checking operation execution: '' err))), st)
      | Inr (Some recorded) \<Rightarrow>
          Some ((CheckpointedOutcome (rr_Output recorded) (rr_Serialization recorded),
                 deserializeWorkflowError (c_codecs c) (rr_ErrStr recorded)), st)
      | Inr None \<Rightarrow>
          map_option (\<lambda>((stepOutput, stepError), st').
              commit_step c portable stepState opts stepStartTime stepOutput stepError st st')
            (executeStepWithRetry c (workflowID stepState) opts (in_savepoint fn) st))"

definition dbosContext_runAsTxn ::
  "('v, 'w) dbosContext \<Rightarrow> (go_error \<Rightarrow> bool) \<Rightarrow> 'w workflowState option \<Rightarrow> ('v, 'w) body option \<Rightarrow> 'w StepOption list \<Rightarrow>
   'w state \<Rightarrow> (('v step_result \<times> go_error option) \<times> 'w workflowState option \<times> 'w state) option" where
  "dbosContext_runAsTxn c retryable wfState fn opts st =
     (case prepareStepExecution wfState opts of
        Inl err \<Rightarrow> Some ((NilResult, Some err), wfState, st)
      | Inr (prep, ws) \<Rightarrow>
          let fail = (\<lambda>e. Some ((NilResult, Some (NewStepExecutionError (ps_WorkflowID prep) (stepName (ps_StepOpts prep)) e)),
                Some ws, st))
          in case fn of
               None \<Rightarrow> fail (ErrorText ''step function cannot be nil'')
             | Some body \<Rightarrow>
                 (case ps_StepState prep of
                    None \<Rightarrow> fail (ErrorText (''cannot call '' @ stepName (ps_StepOpts prep) @ '' within a step''))
                  | Some stepState \<Rightarrow>
                      map_option (\<lambda>(r, st'). (r, Some ws, st'))
                        (RetryWithResult c retryable NilResult
                          (txn_attempt c (isPortableWorkflow ws) (stepState\<lparr>isWithinTransaction := True\<rparr>) (ps_StepOpts prep)
                            (c_now c st) body) st)))"

definition runAsTxn ::
  "('v, 'w) dbosContext \<Rightarrow> (go_error \<Rightarrow> bool) \<Rightarrow> 'v go_type \<Rightarrow> string \<Rightarrow> 'w workflowState option \<Rightarrow> ('v, 'w) body option \<Rightarrow>
   'w StepOption list \<Rightarrow> 'w state \<Rightarrow> (('v \<times> go_error option) \<times> 'w workflowState option \<times> 'w state) option" where
  "runAsTxn c retryable t funcName wfState fn opts st =
     (case fn of
        None \<Rightarrow> Some ((ZeroValue t, Some (NewStepExecutionError [] [] (ErrorText ''step function cannot be nil''))), wfState, st)
      | Some _ \<Rightarrow> map_option (\<lambda>(r, ws, st'). (typed_result c t ws r, ws, st'))
          (dbosContext_runAsTxn c retryable wfState fn (opts @ [WithStepName funcName]) st))"

section \<open>The budget of a step\<close>

lemma execute_returns: "\<exists>r. executeStepWithRetry c wid opts runOnce st = Some r"
proof -
  have "\<exists>r. RetryLoop delay (step_work runOnce) (step_decide wid opts) wait oc 0 s = Some r"
    for delay wait oc and s :: "('a, 'b) step_vars"
    by (rule RetryLoop_returns [where budget = "maxRetries opts"])
      (auto simp: step_work_def step_decide_def Let_def split: prod.splits)
  from this [of "DelayFor (step_schedule opts) (c_rand c)" "step_wait c" "step_onCancel c wid opts" "(ZeroValue (c_any c), None, None, st)"]
  show ?thesis by (auto simp: executeStepWithRetry_def)
qed

text \<open>
  The rule for a step body: \<open>I\<close> is kept by failing runs and by waiting, a successful run establishes
  \<open>Q\<close> of its output.
\<close>

lemma execute_invariant:
  fixes c :: "('v, 'w) dbosContext"
  assumes "executeStepWithRetry c wid opts runOnce st = Some ((out, err), st')" and "I st"
    and fails: "\<And>s v e s'. I s \<Longrightarrow> runOnce s = ((v, Some e), s') \<Longrightarrow> I s'"
    and succeeds: "\<And>s v s'. I s \<Longrightarrow> runOnce s = ((v, None), s') \<Longrightarrow> Q v s'"
    and waits: "\<And>d s ok s'. I s \<Longrightarrow> c_wait c d s = (ok, s') \<Longrightarrow> I s'"
  shows "if err = None then Q out st' else I st'"
proof -
  let ?I = "\<lambda>(_ :: 'v, _ :: go_error option, _ :: go_error option, s). I s"
  let ?P = "\<lambda>(err :: go_error option, (out, serr :: go_error option, joined :: go_error option, s)).
      if err = None then serr = None \<and> Q out s else I s"
  obtain e serr joined where run: "RetryLoop (DelayFor (step_schedule opts) (c_rand c)) (step_work runOnce)
      (step_decide wid opts) (step_wait c) (step_onCancel c wid opts) 0 (ZeroValue (c_any c), None, None, st) =
      Some (e, (out, serr, joined, st'))" and err: "err = coalesce e serr"
    using assms(1) by (auto simp: executeStepWithRetry_def)
  have "?P (e, (out, serr, joined, st'))"
  proof (rule RetryLoop_invariant [OF run, where I = "\<lambda>_. ?I"])
    fix s s1 s2 s3 :: "('v, 'w) step_vars" and err and r :: "bool \<times> go_error option" and runs :: int
    assume I: "?I s"
    show "?P (None, s1)" if "step_work runOnce s = Some (None, s1)"
      using I that succeeds by (auto simp: step_work_def split: prod.splits)
    assume "step_work runOnce s = Some (Some err, s1)" and d: "step_decide wid opts err (runs + 1) s1 = (r, s2)"
    then have s2: "?I s2" using I fails by (auto simp: step_work_def step_decide_def Let_def split: prod.splits)
    show "?P (snd r, s2)" if "\<not> fst r"
      using s2 d that by (auto simp: step_decide_def Let_def split: if_splits prod.splits)
    show "?P (step_onCancel c wid opts s3, s3)" if "step_wait c (DelayFor (step_schedule opts) (c_rand c) (runs + 1)) s2 = (False, s3)"
      using s2 that waits by (auto simp: step_wait_def step_onCancel_def split: prod.splits)
    show "?I s3" if "step_wait c (DelayFor (step_schedule opts) (c_rand c) (runs + 1)) s2 = (True, s3)"
      using s2 that waits by (auto simp: step_wait_def split: prod.splits)
  qed (simp add: assms(2))
  then show ?thesis using err by (cases e) auto
qed

lemma errors_Is_code [simp]:
  "errors_Is ErrorCodeMaxStepRetriesExceeded (NewMaxStepRetriesExceededError wid name n e)"
  "errors_Is ErrorCodeStepExecution (NewStepExecutionError wid name e)"
  "errors_Is ErrorCodeWorkflowCancelled (NewWorkflowCancelledError wid cause)"
  by (simp_all add: NewMaxStepRetriesExceededError_def NewStepExecutionError_def NewWorkflowCancelledError_def
      errors_Is_withCause)

lemma errors_Is_Errorf [simp]: "errors_Is c (Errorf t e) = errors_Is c e"
  by (simp add: errors_Is_def Error_Is_def Portable_Is_def)

lemma errors_Is_wrapped:
  "errors_Is c e \<Longrightarrow> errors_Is c (NewStepExecutionError wid name (Errorf t e))"
  "errors_Is ErrorCodeUnexpectedStep (NewUnexpectedStepError wid fid name recorded)"
  by (simp_all add: NewStepExecutionError_def NewUnexpectedStepError_def)

text \<open>
  C7: A step always returns, after at least one and at most \<^verbatim>\<open>maxRetries\<close> + 1 runs of its body. It
  reports no error only if its last run succeeded, with that run's output; if the last of a positive
  number of retries fails, it reports \<^verbatim>\<open>MaxStepRetriesExceeded\<close>. \<open>n\<close> counts the runs of the body.
\<close>

theorem step_retries_bounded:
  fixes n :: "'w state \<Rightarrow> int"
  assumes "\<And>s. n (snd (runOnce s)) = n s + 1" and "\<And>d s. n (snd (c_wait c d s)) = n s"
  shows "\<exists>out err st'. executeStepWithRetry c wid opts runOnce st = Some ((out, err), st') \<and>
    n st + 1 \<le> n st' \<and> n st' \<le> n st + 1 + max 0 (maxRetries opts) \<and>
    (err = None \<longrightarrow> (\<exists>s. runOnce s = ((out, None), st'))) \<and>
    (\<forall>e. err = Some e \<and> 0 < maxRetries opts \<and> n st' = n st + 1 + maxRetries opts \<longrightarrow>
       errors_Is ErrorCodeMaxStepRetriesExceeded e)"
proof -
  define ended where "ended r s' = (\<exists>s. runOnce s = (r, s'))" for r s'
  let ?start = "(ZeroValue (c_any c), None, None, st)"
  let ?loop = "RetryLoop (DelayFor (step_schedule opts) (c_rand c)) (step_work runOnce) (step_decide wid opts)
      (step_wait c) (step_onCancel c wid opts) 0 ?start"
  let ?I = "\<lambda>runs (out, serr, joined, s). n s = n st + runs \<and> 0 \<le> runs \<and> runs \<le> max 0 (maxRetries opts)"
  let ?P = "\<lambda>(err, (out, serr, joined, s)). n st + 1 \<le> n s \<and> n s \<le> n st + 1 + max 0 (maxRetries opts) \<and>
      (err = None \<longrightarrow> serr = None \<and> ended (out, None) s) \<and>
      (\<forall>e. err = Some e \<and> 0 < maxRetries opts \<and> n s = n st + 1 + maxRetries opts \<longrightarrow>
         errors_Is ErrorCodeMaxStepRetriesExceeded e)"
  have count: "n s' = n s + 1 \<and> ended r s'" if "runOnce s = (r, s')" for s r s'
    using assms(1) [of s] that unfolding ended_def by (intro conjI exI [of _ s]) simp_all
  have waits: "n s' = n s" if "c_wait c d s = (ok, s')" for d s ok s' using assms(2) [of d s] that by simp
  obtain err out serr joined st' where run: "?loop = Some (err, (out, serr, joined, st'))"
    using execute_returns [of c wid opts runOnce st] by (auto simp: executeStepWithRetry_def)
  have "?P (err, (out, serr, joined, st'))"
    by (rule RetryLoop_invariant [OF run, where I = ?I])
      (auto simp: step_work_def step_decide_def step_wait_def step_onCancel_def Let_def
        dest!: count waits split: prod.splits if_splits option.splits)
  then show ?thesis using run unfolding ended_def [symmetric] by (cases err) (auto simp: executeStepWithRetry_def)
qed

definition sample_context :: "error_lib \<Rightarrow> (bool, int) dbosContext" where
  "sample_context lib = \<lparr>c_systemDB = sample_sysdb_ctx, c_executorID = ''e'', c_serializer = None, c_any = bool_type,
     c_codecs = lib, c_typeName = (\<lambda>_. ''bool''), c_asRaw = (\<lambda>_. None), c_asString = (\<lambda>_. None),
     c_now = (\<lambda>_. 0), c_Err = (\<lambda>_. None), c_Cause = (\<lambda>_. None), c_wait = (\<lambda>_ st. (True, st)), c_rand = (\<lambda>_. 0)\<rparr>"

theorem step_retries_bounded_witness:
  "\<exists>out err db' k. executeStepWithRetry (sample_context sample_error_lib) ''w'' (zero_stepOptions\<lparr>maxRetries := 2\<rparr>)
      (\<lambda>(db, k). ((False, Some (ErrorText ''down'')), (db, k + 1))) (empty_sysdb, 0) = Some ((out, err), (db', k)) \<and>
    1 \<le> k \<and> k \<le> 3"
  using step_retries_bounded [of "snd" "\<lambda>(db, k). ((False, Some (ErrorText ''down'')), (db, k + 1))" "sample_context sample_error_lib"
      "''w''" "zero_stepOptions\<lparr>maxRetries := 2\<rparr>" "(empty_sysdb, 0)"]
  by (fastforce simp: sample_context_def zero_stepOptions_def)

section \<open>Checkpointed steps are not executed again\<close>

definition step_id :: "'w workflowState \<Rightarrow> 'w stepOptions \<Rightarrow> int" where
  "step_id ws opts = (case preGeneratedStepID opts of Some i \<Rightarrow> i | None \<Rightarrow> stepID ws + 1)"

definition step_counted :: "'w workflowState \<Rightarrow> 'w stepOptions \<Rightarrow> 'w workflowState" where
  "step_counted ws opts = (case preGeneratedStepID opts of Some i \<Rightarrow> ws | None \<Rightarrow> ws\<lparr>stepID := stepID ws + 1\<rparr>)"

definition step_state :: "'w workflowState \<Rightarrow> 'w stepOptions \<Rightarrow> 'w workflowState" where
  "step_state ws opts = \<lparr>workflowID = workflowID ws, stepID = step_id ws opts, isWithinStep = True,
     isWithinTransaction = False, isPortableWorkflow = False, authenticatedUser = [],
     assumedRole = [], authenticatedRoles = [], workflowCtx = workflowCtx ws\<rparr>"

lemma step_state_sel [simp]:
  "workflowID (step_state ws opts) = workflowID ws" "stepID (step_state ws opts) = step_id ws opts"
  "workflowCtx (step_state ws opts) = workflowCtx ws" "isWithinStep (step_state ws opts)"
  "workflowID (step_counted ws opts) = workflowID ws" "isWithinStep (step_counted ws opts) = isWithinStep ws"
  "isPortableWorkflow (step_counted ws opts) = isPortableWorkflow ws" "workflowCtx (step_counted ws opts) = workflowCtx ws"
  by (simp_all add: step_state_def step_counted_def split: option.splits)

lemma prepare_in_workflow:
  "\<not> isWithinStep ws \<Longrightarrow> prepareStepExecution (Some ws) opts =
     Inr (\<lparr>ps_WorkflowID = workflowID ws, ps_StepOpts = parse_options opts,
           ps_StepState = Some (step_state ws (parse_options opts)), ps_IsWithinStep = False\<rparr>, step_counted ws (parse_options opts))"
  by (simp add: prepareStepExecution_def Let_def step_state_def step_id_def step_counted_def nextStepID_def split: option.splits)

lemma RunAsStep_in_workflow:
  assumes "\<not> isWithinStep ws" and "so = parse_options opts" and "ws' = step_counted ws so"
  shows "dbosContext_RunAsStep c (Some ws) (Some body) opts st =
    (case CheckOperationExecution (workflowID ws) (step_id ws so) (stepName so) (fst st) of
       Inl err \<Rightarrow> Some ((NilResult, Some (NewStepExecutionError (workflowID ws) (stepName so)
                   (Errorf ''checking operation execution: '' err))), Some ws', st)
     | Inr (Some recorded) \<Rightarrow>
         Some ((CheckpointedOutcome (rr_Output recorded) (rr_Serialization recorded),
                deserializeWorkflowError (c_codecs c) (rr_ErrStr recorded)), Some ws', st)
     | Inr None \<Rightarrow>
         map_option (\<lambda>((stepOutput, stepError), st').
             (case checkpoint_step c (isPortableWorkflow ws) (step_state ws so) so (c_now c st) stepOutput stepError st' of
                (res, st'') \<Rightarrow> (res, Some ws', st'')))
           (executeStepWithRetry c (workflowID ws) so body st))"
  using assms
  by (simp add: dbosContext_RunAsStep_def prepare_in_workflow checkStepContext_def Let_def split: sum.split option.split)

text \<open>A workflow that can run its steps: present and not cancelled.\<close>

definition runnable :: "string \<Rightarrow> sysdb \<Rightarrow> bool" where
  "runnable wid db = (case find_wf wid db of None \<Rightarrow> False | Some r \<Rightarrow> ws_status r \<noteq> WorkflowStatusCancelled)"

lemma check_recorded:
  assumes "runnable wid db" and "find_op wid fid db = Some r" and "oo_function_name r = name"
  shows "CheckOperationExecution wid fid name db =
    Inr (Some \<lparr>rr_Output = oo_output r, rr_ErrStr = nullif_empty (oo_error r), rr_Serialization = derefStr (oo_serialization r)\<rparr>)"
  using assms by (auto simp: CheckOperationExecution_def runnable_def split: option.splits)

lemma check_fresh:
  "CheckOperationExecution wid fid name db = Inr None \<longleftrightarrow> runnable wid db \<and> find_op wid fid db = None"
  by (auto simp: CheckOperationExecution_def runnable_def split: option.splits)

lemma check_replayed:
  assumes "CheckOperationExecution wid fid name db = Inr (Some rec)" and "runnable wid db2"
    and "\<And>r. find_op wid fid db = Some r \<Longrightarrow> find_op wid fid db2 = Some r"
  shows "CheckOperationExecution wid fid name db2 = Inr (Some rec)"
  using assms by (auto simp: CheckOperationExecution_def runnable_def split: option.splits if_splits)

text \<open>
  C6: A step whose result is recorded is not executed: whatever its body, \<^verbatim>\<open>RunAsStep\<close> returns the
  recorded output and error and leaves the database and the world untouched; a step recorded under
  another name is refused.
\<close>

theorem recorded_step_not_executed:
  assumes "\<not> isWithinStep ws" and "so = parse_options opts" and "runnable (workflowID ws) (fst st)"
    and "find_op (workflowID ws) (step_id ws so) (fst st) = Some r"
  shows "\<exists>res err. dbosContext_RunAsStep c (Some ws) (Some body) opts st = Some ((res, err), Some (step_counted ws so), st) \<and>
    (if oo_function_name r = stepName so
     then res = CheckpointedOutcome (oo_output r) (derefStr (oo_serialization r)) \<and>
          err = deserializeWorkflowError (c_codecs c) (nullif_empty (oo_error r))
     else res = NilResult \<and> (\<exists>e. err = Some e \<and> errors_Is ErrorCodeUnexpectedStep e))"
proof (cases "oo_function_name r = stepName so")
  case True
  then show ?thesis using check_recorded [OF assms(3,4) True] by (simp add: RunAsStep_in_workflow [OF assms(1,2)])
next
  case False
  then have "CheckOperationExecution (workflowID ws) (step_id ws so) (stepName so) (fst st) =
      Inl (NewUnexpectedStepError (workflowID ws) (step_id ws so) (stepName so) (oo_function_name r))"
    using assms(3,4) by (auto simp: CheckOperationExecution_def runnable_def split: option.splits)
  then show ?thesis using False
    by (simp add: RunAsStep_in_workflow [OF assms(1,2)] errors_Is_wrapped)
qed

definition sample_body :: "go_error option \<Rightarrow> (bool, int) body" where
  "sample_body err = (\<lambda>(db, k). ((True, err), (db, k + 1)))"

definition sample_workflow :: "int workflowState" where
  "sample_workflow = \<lparr>workflowID = ''a'', stepID = - 1, isWithinStep = False, isWithinTransaction = False,
     isPortableWorkflow = False, authenticatedUser = [], assumedRole = [], authenticatedRoles = [], workflowCtx = None\<rparr>"

definition sample_pending :: sysdb where
  "sample_pending = empty_sysdb\<lparr>workflow_status := [default_wf_row ''a'' WorkflowStatusPending 0]\<rparr>"

lemma sample_pending_find [simp]:
  "find_wf ''a'' sample_pending = Some (default_wf_row ''a'' WorkflowStatusPending 0)" "find_op wid fid sample_pending = None"
  by (simp_all add: sample_pending_def empty_sysdb_def)

lemma parse_name [simp]:
  "stepName (parse_options [WithStepName name]) = name" "preGeneratedStepID (parse_options [WithStepName name]) = None"
  "completedAt (parse_options [WithStepName name]) = None" "postStepInTxn (parse_options [WithStepName name]) = None"
  "outputIsChildID (parse_options [WithStepName name]) = False" "maxRetries (parse_options [WithStepName name]) = 0"
  by (simp_all add: parse_options_def WithStepName_def zero_stepOptions_def setDefaults_def Let_def)

theorem recorded_step_not_executed_witness:
  "\<exists>err. dbosContext_RunAsStep (sample_context sample_error_lib) (Some sample_workflow) (Some (sample_body None))
      [WithStepName ''f''] (sample_pending\<lparr>operation_outputs := [patch_row ''a'' 0 ''f'']\<rparr>, 5) =
    Some ((CheckpointedOutcome None [], err), Some (sample_workflow\<lparr>stepID := 0\<rparr>),
      (sample_pending\<lparr>operation_outputs := [patch_row ''a'' 0 ''f'']\<rparr>, 5))"
  using recorded_step_not_executed [of sample_workflow "parse_options [WithStepName ''f'']" "[WithStepName ''f'']"
      "(sample_pending\<lparr>operation_outputs := [patch_row ''a'' 0 ''f'']\<rparr>, 5)" "patch_row ''a'' 0 ''f''"
      "sample_context sample_error_lib" "sample_body None"]
  by (simp add: sample_workflow_def step_id_def step_counted_def runnable_def patch_row_def sample_pending_def)

section \<open>Replay\<close>

text \<open>
  Step bodies and waiting leave the checkpoints of the running workflow alone: only the engine
  writes them.
\<close>

definition keeps_ops :: "string \<Rightarrow> ('w state \<Rightarrow> 'w state) \<Rightarrow> bool" where
  "keeps_ops wid f = (\<forall>s fid. find_op wid fid (fst (f s)) = find_op wid fid (fst s))"

lemma execute_keeps_ops:
  assumes "executeStepWithRetry c w opts body st = Some (r, st')" and "keeps_ops wid (\<lambda>s. snd (body s))"
    and "\<And>d. keeps_ops wid (\<lambda>s. snd (c_wait c d s))"
  shows "find_op wid fid (fst st') = find_op wid fid (fst st)"
proof (cases r)
  case (Pair out err)
  have "if err = None then find_op wid fid (fst st') = find_op wid fid (fst st) else find_op wid fid (fst st') = find_op wid fid (fst st)"
  proof (rule execute_invariant [OF assms(1) [unfolded Pair], where I = "\<lambda>s. find_op wid fid (fst s) = find_op wid fid (fst st)"])
    have "find_op wid fid (fst s') = find_op wid fid (fst s)" if "body s = (x, s')" for s x s'
      using assms(2) that unfolding keeps_ops_def by (metis snd_conv)
    then show "find_op wid fid (fst s') = find_op wid fid (fst st)"
      if "find_op wid fid (fst s) = find_op wid fid (fst st)" "body s = ((v, Some e), s')" for s v e s' using that by simp
    show "find_op wid fid (fst s') = find_op wid fid (fst st)"
      if "find_op wid fid (fst s) = find_op wid fid (fst st)" "body s = ((v, None), s')" for s v s'
      using assms(2) that unfolding keeps_ops_def by (metis snd_conv)
    show "find_op wid fid (fst s') = find_op wid fid (fst st)"
      if "find_op wid fid (fst s) = find_op wid fid (fst st)" "c_wait c d s = (ok, s')" for d s ok s'
      using assms(3) that unfolding keeps_ops_def by (metis snd_conv)
  qed simp
  then show ?thesis by simp
qed

text \<open>What a successful checkpoint stores.\<close>

lemma checkpoint_step_recorded:
  assumes "checkpoint_step c portable ss so t0 out err st = ((Direct v, err'), st')"
    and "\<not> isWorkflowCtxCancelled ss st" and "find_op (workflowID ss) (stepID ss) (fst st) = None"
    and "ser = resolveEncoder (c_any c) portable (c_serializer c)"
  shows "v = out \<and> err' = err \<and> snd st' = snd st \<and> (\<exists>enc r. Encode ser out = Inr enc \<and>
    find_op (workflowID ss) (stepID ss) (fst st') = Some r \<and> oo_function_name r = stepName so \<and> oo_output r = enc \<and>
    oo_error r = serialized_error (c_codecs c) err (Name ser) \<and> oo_serialization r = Some (Name ser)) \<and>
    (\<forall>wid fid r. find_op wid fid (fst st) = Some r \<longrightarrow> find_op wid fid (fst st') = Some r)"
proof -
  let ?inp = "\<lambda>enc. \<lparr>ro_WorkflowID = workflowID ss, ro_ChildWorkflowID = [], ro_StepID = stepID ss,
     ro_StepName = stepName so, ro_Output = enc, ro_ErrStr = serialized_error (c_codecs c) err (Name ser),
     ro_StartedAt = Some t0, ro_CompletedAt = Some (case completedAt so of None \<Rightarrow> c_now c st | Some t \<Rightarrow> t),
     ro_Serialization = Name ser, ro_ExecutorID = c_executorID c\<rparr>"
  obtain enc db' where enc: "Encode ser out = Inr enc"
    and rec: "RecordOperationResult (c_systemDB c) (?inp enc) (fst st) = Inr ((), db')"
    and res: "v = out" "err' = err" "st' = (db', snd st)"
    using assms(1,2,4) by (auto simp: checkpoint_step_def Let_def split: sum.splits)
  have "find_op (workflowID ss) (stepID ss) db' = Some (result_row (c_systemDB c) (?inp enc))"
    using results.put_free [OF _ rec] assms(3) by simp
  moreover have "find_op wid fid db' = Some r" if "find_op wid fid (fst st) = Some r" for wid fid r
    using results.first_write_wins [OF rec, of "(wid, fid)" r] that by simp
  ultimately show ?thesis using enc res by (simp add: result_row_def)
qed

text \<open>
  The dynamic values of a Go program: every type reads the same \<^verbatim>\<open>reflect.ValueOf\<close> and
  \<^verbatim>\<open>json.Marshal\<close>, they differ in the assertion, the zero value and the decoder.
\<close>

definition same_universe :: "'v go_type \<Rightarrow> 'v go_type \<Rightarrow> bool" where
  "same_universe any t = (IsValid any = IsValid t \<and> Kind any = Kind t \<and> IsNil any = IsNil t \<and> json_Marshal any = json_Marshal t)"

lemma same_universe_encoder:
  assumes "same_universe any t"
  shows "Encode (resolveEncoder any portable custom) v = Encode (resolveEncoder t portable custom) v"
    and "Name (resolveEncoder any portable custom) = Name (resolveEncoder t portable custom)"
proof -
  have "isNilValue any v = isNilValue t v" using assms by (simp add: isNilValue_def same_universe_def)
  then show "Encode (resolveEncoder any portable custom) v = Encode (resolveEncoder t portable custom) v"
    using assms by (auto simp: resolveEncoder_def newJSONSerializer_def newPortableSerializer_def same_universe_def
        split: option.splits)
  show "Name (resolveEncoder any portable custom) = Name (resolveEncoder t portable custom)"
    by (auto simp: resolveEncoder_def split: option.splits)
qed

text \<open>A value or an error that storage reproduces (see \<open>serialized_value_roundtrip\<close>).\<close>

definition value_survives :: "'v go_type \<Rightarrow> 'v \<Rightarrow> bool" where
  "value_survives t v = (json_faithful t v \<and> (if \<not> IsValid t v then v = getNilOrZeroValue t else isOfType t v))"

definition error_survives :: "error_lib \<Rightarrow> string \<Rightarrow> go_error option \<Rightarrow> bool" where
  "error_survives lib serialization err =
     (deserializeWorkflowError lib (nullif_empty (serialized_error lib err serialization)) = err)"

definition custom_contract :: "'v Serializer option \<Rightarrow> bool" where
  "custom_contract custom = (\<forall>c. custom = Some c \<longrightarrow>
     Name c \<noteq> PortableSerializerName \<and> (\<forall>w e. Encode c w = Inr e \<longrightarrow> Decode c e = Inr w))"

text \<open>A step that left a checkpoint, or found one, with an outcome that storage reproduces.\<close>

definition durable_step ::
  "('v, 'w) dbosContext \<Rightarrow> 'v go_type \<Rightarrow> 'w workflowState \<Rightarrow> 'w StepOption list \<Rightarrow> ('v, 'w) body \<Rightarrow> 'w state \<Rightarrow> bool" where
  "durable_step c t ws opts body st =
     (case dbosContext_RunAsStep c (Some ws) (Some body) opts st of
        None \<Rightarrow> False
      | Some ((res, err), _, st') \<Rightarrow>
          (case res of
             NilResult \<Rightarrow> False
           | CheckpointedOutcome _ _ \<Rightarrow> True
           | Direct v \<Rightarrow> \<not> isWorkflowCtxCancelled ws st' \<and> value_survives t v \<and>
               error_survives (c_codecs c) (Name (resolveEncoder (c_any c) (isPortableWorkflow ws) (c_serializer c))) err) \<and>
          same_universe (c_any c) t \<and> keeps_ops (workflowID ws) (\<lambda>s. snd (body s)))"

text \<open>The same application in another process: other clock, executor and waiting, same codecs.\<close>

definition same_deployment :: "('v, 'w) dbosContext \<Rightarrow> ('v, 'w) dbosContext \<Rightarrow> bool" where
  "same_deployment c c' = (c_serializer c = c_serializer c' \<and> c_any c = c_any c' \<and> c_codecs c = c_codecs c' \<and>
     c_typeName c = c_typeName c')"

lemma typed_result_deployment: "same_deployment c c' \<Longrightarrow> typed_result c' = typed_result c"
proof -
  assume "same_deployment c c'"
  then have "c_serializer c' = c_serializer c" "c_typeName c' = c_typeName c" by (simp_all add: same_deployment_def)
  then show ?thesis unfolding typed_result_def convertStepResult_def by presburger
qed

lemma decoded_result:
  assumes "Encode (resolveEncoder (c_any c) portable (c_serializer c)) v = Inr enc" and "same_universe (c_any c) t"
    and "value_survives t v" and "custom_contract (c_serializer c)"
  shows "typed_result c t ws (CheckpointedOutcome enc (Name (resolveEncoder (c_any c) portable (c_serializer c))), err) =
    typed_result c t ws (Direct v, err)"
proof -
  obtain dec where dec: "resolveDecoder t (Name (resolveEncoder t portable (c_serializer c))) (c_serializer c) = Inr dec"
    "Decode dec enc = Inr v"
    using resolved_roundtrip [of t portable "c_serializer c" v enc] assms(1,3,4) same_universe_encoder [OF assms(2)]
    by (auto simp: value_survives_def custom_contract_def)
  show ?thesis using dec assms(3)
    by (auto simp: typed_result_def convertStepResult_def same_universe_encoder(2) [OF assms(2)] value_survives_def)
qed

lemma checkpoint_step_result [simp]:
  "checkpoint_step c portable ss so t0 out err st \<noteq> ((CheckpointedOutcome x y, e), st')"
  by (auto simp: checkpoint_step_def Let_def split: sum.splits)

text \<open>A step that runs its body and is not interrupted leaves this checkpoint.\<close>

lemma fresh_step_recorded:
  assumes "\<not> isWithinStep ws" and "so = parse_options opts" and "ser = resolveEncoder (c_any c) (isPortableWorkflow ws) (c_serializer c)"
    and "dbosContext_RunAsStep c (Some ws) (Some body) opts st = Some ((Direct v, err), wso, st')"
    and "\<not> isWorkflowCtxCancelled ws st'" and "keeps_ops (workflowID ws) (\<lambda>s. snd (body s))"
    and "\<And>d. keeps_ops (workflowID ws) (\<lambda>s. snd (c_wait c d s))"
  obtains enc r where "Encode ser v = Inr enc" "find_op (workflowID ws) (step_id ws so) (fst st') = Some r"
    "oo_function_name r = stepName so" "oo_output r = enc" "oo_error r = serialized_error (c_codecs c) err (Name ser)"
    "oo_serialization r = Some (Name ser)" "wso = Some (step_counted ws so)"
proof -
  obtain out serr st1 where ex: "executeStepWithRetry c (workflowID ws) so body st = Some ((out, serr), st1)"
    using execute_returns by (metis prod.exhaust)
  have new: "CheckOperationExecution (workflowID ws) (step_id ws so) (stepName so) (fst st) = Inr None"
    using assms(4) unfolding RunAsStep_in_workflow [OF assms(1,2) refl] by (auto split: sum.splits option.splits)
  then have cp: "checkpoint_step c (isPortableWorkflow ws) (step_state ws so) so (c_now c st) out serr st1 = ((Direct v, err), st')"
    and wso: "wso = Some (step_counted ws so)"
    using assms(4) ex unfolding RunAsStep_in_workflow [OF assms(1,2) refl] by (auto split: prod.splits)
  have none: "find_op (workflowID ws) (step_id ws so) (fst st1) = None"
    using execute_keeps_ops [OF ex assms(6,7)] new by (simp add: check_fresh)
  have live: "\<not> isWorkflowCtxCancelled (step_state ws so) st1"
    using assms(5) cp by (auto simp: checkpoint_step_def isWorkflowCtxCancelled_def)
  show thesis using checkpoint_step_recorded [OF cp live _ assms(3)] none wso that by auto
qed

lemma step_replay:
  assumes "\<not> isWithinStep ws" and "dbosContext_RunAsStep c (Some ws) (Some body) opts st = Some ((res, err), wso, st')"
    and "durable_step c t ws opts body st" and "\<And>d. keeps_ops (workflowID ws) (\<lambda>s. snd (c_wait c d s))"
    and "custom_contract (c_serializer c)" and "same_deployment c c'" and "runnable (workflowID ws) db2"
    and "\<And>fid r. find_op (workflowID ws) fid (fst st') = Some r \<Longrightarrow> find_op (workflowID ws) fid db2 = Some r"
  shows "\<exists>res2. dbosContext_RunAsStep c' (Some ws) (Some body2) opts (db2, w2) = Some (res2, wso, (db2, w2)) \<and>
    typed_result c' t wso res2 = typed_result c t wso (res, err)"
proof -
  define so where "so = parse_options opts"
  note unf = RunAsStep_in_workflow [OF assms(1) so_def refl]
  note dep = typed_result_deployment [OF assms(6)]
  let ?ser = "resolveEncoder (c_any c) (isPortableWorkflow ws) (c_serializer c)"
  consider (old) rec where "CheckOperationExecution (workflowID ws) (step_id ws so) (stepName so) (fst st) = Inr (Some rec)"
    | (new) "CheckOperationExecution (workflowID ws) (step_id ws so) (stepName so) (fst st) = Inr None"
    using assms(2,3) unfolding unf durable_step_def by (auto split: sum.splits option.splits)
  then show ?thesis
  proof cases
    case old
    then have "st' = st" using assms(2) unfolding unf by simp
    then have "CheckOperationExecution (workflowID ws) (step_id ws so) (stepName so) db2 = Inr (Some rec)"
      using check_replayed [OF old assms(7)] assms(8) by blast
    then show ?thesis using old assms(2,6) unfolding unf dep by (auto simp: same_deployment_def)
  next
    case new
    obtain v where v: "res = Direct v" "\<not> isWorkflowCtxCancelled ws st'" "value_survives t v"
      "error_survives (c_codecs c) (Name ?ser) err" "same_universe (c_any c) t" "keeps_ops (workflowID ws) (\<lambda>s. snd (body s))"
      using assms(2,3) new by (cases res) (auto simp: durable_step_def unf split: option.splits prod.splits)
    obtain enc r where enc: "Encode ?ser v = Inr enc"
      and r: "find_op (workflowID ws) (step_id ws so) (fst st') = Some r" "oo_function_name r = stepName so" "oo_output r = enc"
        "oo_error r = serialized_error (c_codecs c) err (Name ?ser)" "oo_serialization r = Some (Name ?ser)"
      and wso: "wso = Some (step_counted ws so)"
      by (rule fresh_step_recorded [OF assms(1) so_def refl assms(2) [unfolded v(1)] v(2,6) assms(4)])
    have "CheckOperationExecution (workflowID ws) (step_id ws so) (stepName so) db2 =
        Inr (Some \<lparr>rr_Output = enc, rr_ErrStr = nullif_empty (oo_error r), rr_Serialization = derefStr (oo_serialization r)\<rparr>)"
      using check_recorded [OF assms(7) assms(8) [OF r(1)] r(2)] r(3) by simp
    then show ?thesis using decoded_result [OF enc v(5,3) assms(5)] v(1,4) r(4,5) assms(6) wso
      unfolding unf dep by (simp add: error_survives_def same_deployment_def)
  qed
qed

lemma checkpoint_step_mono:
  assumes "checkpoint_step c portable ss so t0 out err st = (res, st')" and "find_op wid fid (fst st) = Some r"
  shows "find_op wid fid (fst st') = Some r"
proof -
  have "find_op wid fid db' = Some r" if "RecordOperationResult s inp (fst st) = Inr (u, db')" for s inp u db'
    using results.first_write_wins [of s inp "fst st" db' "(wid, fid)" r] that assms(2) by simp
  then show ?thesis using assms by (auto simp: checkpoint_step_def Let_def split: if_splits sum.splits)
qed

lemma step_keeps_ops:
  assumes "\<not> isWithinStep ws" and "dbosContext_RunAsStep c (Some ws) (Some body) opts st = Some (res, wso, st')"
    and "keeps_ops (workflowID ws) (\<lambda>s. snd (body s))" and "\<And>d. keeps_ops (workflowID ws) (\<lambda>s. snd (c_wait c d s))"
  shows "wso = Some (step_counted ws (parse_options opts))"
    and "find_op (workflowID ws) fid (fst st) = Some r \<Longrightarrow> find_op (workflowID ws) fid (fst st') = Some r"
proof -
  let ?so = "parse_options opts"
  obtain out serr st1 where ex: "executeStepWithRetry c (workflowID ws) ?so body st = Some ((out, serr), st1)"
    using execute_returns by (metis prod.exhaust)
  obtain r2 st2 where cp: "checkpoint_step c (isPortableWorkflow ws) (step_state ws ?so) ?so (c_now c st) out serr st1 = (r2, st2)"
    by (rule prod.exhaust)
  have "wso = Some (step_counted ws ?so) \<and> (st' = st \<or> st' = st2)"
    using assms(2) ex cp unfolding RunAsStep_in_workflow [OF assms(1) refl refl] by (auto split: sum.splits option.splits)
  then show "wso = Some (step_counted ws ?so)"
    "find_op (workflowID ws) fid (fst st) = Some r \<Longrightarrow> find_op (workflowID ws) fid (fst st') = Some r"
    using execute_keeps_ops [OF ex assms(3,4)] checkpoint_step_mono [OF cp] by auto
qed

text \<open>
  A workflow function as the engine sees it: a deterministic continuation that either returns or
  runs a step and goes on with its outcome. \<open>run_steps n\<close> executes its first \<open>n\<close> steps.
\<close>

datatype ('v, 'w) prog =
    Done "'v \<times> go_error option"
  | DoStep "'v go_type" string "'w StepOption list" "('v, 'w) body" "'v \<times> go_error option \<Rightarrow> ('v, 'w) prog"

fun run_steps ::
  "nat \<Rightarrow> ('v, 'w) dbosContext \<Rightarrow> 'w workflowState \<Rightarrow> ('v, 'w) prog \<Rightarrow> 'w state \<Rightarrow>
   (('v, 'w) prog \<times> 'w workflowState \<times> 'w state) option" where
  "run_steps 0 c ws p st = Some (p, ws, st)"
| "run_steps (Suc n) c ws (Done r) st = Some (Done r, ws, st)"
| "run_steps (Suc n) c ws (DoStep t name opts body k) st =
     (case RunAsStep c t name (Some ws) (Some body) opts st of
        Some (r, Some ws', st') \<Rightarrow> run_steps n c ws' (k r) st'
      | _ \<Rightarrow> None)"

fun durable_run :: "nat \<Rightarrow> ('v, 'w) dbosContext \<Rightarrow> 'w workflowState \<Rightarrow> ('v, 'w) prog \<Rightarrow> 'w state \<Rightarrow> bool" where
  "durable_run 0 c ws p st = True"
| "durable_run (Suc n) c ws (Done r) st = True"
| "durable_run (Suc n) c ws (DoStep t name opts body k) st =
     (durable_step c t ws (opts @ [WithStepName name]) body st \<and>
      (case RunAsStep c t name (Some ws) (Some body) opts st of
         Some (r, Some ws', st') \<Rightarrow> durable_run n c ws' (k r) st'
       | _ \<Rightarrow> False))"

lemma durable_run_step:
  assumes "\<not> isWithinStep ws" and "durable_run (Suc n) c ws (DoStep t name opts body k) st"
    and "\<And>d. keeps_ops (workflowID ws) (\<lambda>s. snd (c_wait c d s))" and "ws' = step_counted ws (parse_options (opts @ [WithStepName name]))"
  obtains res st1 where "dbosContext_RunAsStep c (Some ws) (Some body) (opts @ [WithStepName name]) st = Some (res, Some ws', st1)"
    and "durable_run n c ws' (k (typed_result c t (Some ws') res)) st1"
    and "run_steps (Suc n) c ws (DoStep t name opts body k) st = run_steps n c ws' (k (typed_result c t (Some ws') res)) st1"
    and "\<And>fid r. find_op (workflowID ws) fid (fst st) = Some r \<Longrightarrow> find_op (workflowID ws) fid (fst st1) = Some r"
proof -
  obtain res wso st1 where run: "dbosContext_RunAsStep c (Some ws) (Some body) (opts @ [WithStepName name]) st = Some (res, wso, st1)"
    and k: "keeps_ops (workflowID ws) (\<lambda>s. snd (body s))"
    using assms(2) by (auto simp: durable_step_def split: option.splits)
  note keep = step_keeps_ops [OF assms(1) run k assms(3)]
  show thesis using that [of res st1] run keep assms(2,4) by (auto simp: RunAsStep_def)
qed

lemma run_steps_keeps_ops:
  "\<not> isWithinStep ws \<Longrightarrow> durable_run n c ws p st \<Longrightarrow> run_steps n c ws p st = Some (p', ws', st') \<Longrightarrow>
   (\<And>d. keeps_ops (workflowID ws) (\<lambda>s. snd (c_wait c d s))) \<Longrightarrow>
   find_op (workflowID ws) fid (fst st) = Some r \<Longrightarrow> find_op (workflowID ws) fid (fst st') = Some r"
proof (induction n arbitrary: ws p st)
  case (Suc n)
  show ?case
  proof (cases p)
    case (DoStep t name opts body k)
    define ws1 where "ws1 = step_counted ws (parse_options (opts @ [WithStepName name]))"
    obtain res st1 where "dbosContext_RunAsStep c (Some ws) (Some body) (opts @ [WithStepName name]) st = Some (res, Some ws1, st1)"
      and s: "durable_run n c ws1 (k (typed_result c t (Some ws1) res)) st1"
      "run_steps (Suc n) c ws (DoStep t name opts body k) st = run_steps n c ws1 (k (typed_result c t (Some ws1) res)) st1"
      "\<And>fid r. find_op (workflowID ws) fid (fst st) = Some r \<Longrightarrow> find_op (workflowID ws) fid (fst st1) = Some r"
      by (rule durable_run_step [OF Suc.prems(1) Suc.prems(2) [unfolded DoStep] Suc.prems(4) ws1_def]) (rule that)
    show ?thesis using Suc.IH [OF _ s(1) s(2) [symmetric, folded DoStep, unfolded Suc.prems(3)]] Suc.prems(1,4) s(3) [OF Suc.prems(5)]
      by (simp add: ws1_def)
  qed (use Suc.prems in auto)
qed simp


text \<open>
  C1: Recovery replays. After a workflow ran \<open>n\<close> durable steps, any process of the same deployment
  that runs the workflow function from its start over a database that still holds those checkpoints
  (and in which the workflow is not cancelled) reaches the same continuation with the same step
  counter in \<open>n\<close> steps, and neither the database nor the world changes on the way: no step body is
  executed a second time.
\<close>

theorem replay_reaches_same_point:
  assumes "\<not> isWithinStep ws" and "durable_run n c ws p st" and "run_steps n c ws p st = Some (p', ws', st')"
    and "\<And>d. keeps_ops (workflowID ws) (\<lambda>s. snd (c_wait c d s))"
    and "custom_contract (c_serializer c)" and "same_deployment c c'" and "runnable (workflowID ws) db2"
    and "\<And>fid r. find_op (workflowID ws) fid (fst st') = Some r \<Longrightarrow> find_op (workflowID ws) fid db2 = Some r"
  shows "run_steps n c' ws p (db2, w2) = Some (p', ws', (db2, w2))"
  using assms(1-4,7,8)
proof (induction n arbitrary: ws p st)
  case (Suc n)
  show ?case
  proof (cases p)
    case (DoStep t name opts body k)
    let ?opts = "opts @ [WithStepName name]"
    define ws1 where "ws1 = step_counted ws (parse_options ?opts)"
    obtain res st1 where run: "dbosContext_RunAsStep c (Some ws) (Some body) ?opts st = Some (res, Some ws1, st1)"
      and s: "durable_run n c ws1 (k (typed_result c t (Some ws1) res)) st1"
      "run_steps (Suc n) c ws (DoStep t name opts body k) st = run_steps n c ws1 (k (typed_result c t (Some ws1) res)) st1"
      "\<And>fid r. find_op (workflowID ws) fid (fst st) = Some r \<Longrightarrow> find_op (workflowID ws) fid (fst st1) = Some r"
      by (rule durable_run_step [OF Suc.prems(1) Suc.prems(2) [unfolded DoStep] Suc.prems(4) ws1_def]) (rule that)
    have ws1: "workflowID ws1 = workflowID ws" "\<not> isWithinStep ws1" using Suc.prems(1) by (simp_all add: ws1_def)
    have rest: "run_steps n c ws1 (k (typed_result c t (Some ws1) res)) st1 = Some (p', ws', st')" using s(2) Suc.prems(3) DoStep by simp
    have kept: "find_op (workflowID ws) fid db2 = Some r" if "find_op (workflowID ws) fid (fst st1) = Some r" for fid r
      using Suc.prems(6) run_steps_keeps_ops [OF ws1(2) s(1) rest] Suc.prems(4) that ws1(1) by simp
    have "durable_step c t ws ?opts body st" using Suc.prems(2) DoStep by simp
    then obtain res2 where "dbosContext_RunAsStep c' (Some ws) (Some body) ?opts (db2, w2) = Some (res2, Some ws1, (db2, w2))"
      and "typed_result c' t (Some ws1) res2 = typed_result c t (Some ws1) res"
      using step_replay [OF Suc.prems(1) _ _ Suc.prems(4) assms(5,6) Suc.prems(5) kept] run by (cases res) blast
    then have "run_steps (Suc n) c' ws p (db2, w2) = run_steps n c' ws1 (k (typed_result c t (Some ws1) res)) (db2, w2)"
      by (simp add: DoStep RunAsStep_def)
    also have "\<dots> = Some (p', ws', (db2, w2))"
      using Suc.IH [OF ws1(2) s(1) rest] Suc.prems(4-6) ws1(1) by simp
    finally show ?thesis .
  qed (use Suc.prems in auto)
qed simp

lemma execute_once:
  assumes "runOnce st = ((v, err), st')" and "maxRetries opts \<le> 0"
  shows "executeStepWithRetry c wid opts runOnce st = Some ((v, err), st')"
  using assms by (cases st'; cases err; simp add: executeStepWithRetry_def; subst RetryLoop.simps)
    (simp_all add: step_work_def step_decide_def Let_def)

definition sample_prog :: "(bool, int) prog" where
  "sample_prog = DoStep bool_type ''f'' [] (sample_body None) Done"

lemma sample_step:
  "\<exists>db1. dbosContext_RunAsStep (sample_context lib) (Some sample_workflow) (Some (sample_body err))
      [WithStepName ''f''] (sample_pending, 0) =
    Some ((Direct True, err), Some (sample_workflow\<lparr>stepID := 0\<rparr>), (db1, 1)) \<and> runnable ''a'' db1"
proof -
  let ?so = "parse_options [WithStepName ''f'']" and ?c = "sample_context lib"
  have w: "\<not> isWithinStep sample_workflow" by (simp add: sample_workflow_def)
  have sel: "workflowID sample_workflow = ''a''" "step_id sample_workflow ?so = 0" "isPortableWorkflow sample_workflow = False"
    "step_counted sample_workflow ?so = sample_workflow\<lparr>stepID := 0\<rparr>"
    by (simp_all add: sample_workflow_def step_id_def step_counted_def)
  have chk: "CheckOperationExecution ''a'' 0 ''f'' sample_pending = Inr None" by (simp add: check_fresh runnable_def)
  have ex: "executeStepWithRetry ?c ''a'' ?so (sample_body err) (sample_pending, 0) = Some ((True, err), (sample_pending, 1))"
    by (rule execute_once) (simp_all add: sample_body_def)
  have enc: "Encode (resolveEncoder (c_any ?c) False (c_serializer ?c)) True = Inr (Some (EncodeToString ''true''))"
    by (simp add: resolveEncoder_def newJSONSerializer_def sample_context_def bool_type_def isNilValue_def)
  have live: "\<not> isWorkflowCtxCancelled (step_state sample_workflow ?so) st" for st
    by (simp add: isWorkflowCtxCancelled_def sample_workflow_def)
  have "runnable ''a'' (refreshExecutorID wid e (db\<lparr>operation_outputs := ops\<rparr>))" if "runnable ''a'' db" for wid e db ops
    using that refreshExecutorID_status [of "''a''" wid e "db\<lparr>operation_outputs := ops\<rparr>"]
    by (auto simp: runnable_def split: option.splits)
  moreover have "runnable ''a'' sample_pending" using chk by (simp add: check_fresh)
  ultimately obtain db1 where "checkpoint_step ?c False (step_state sample_workflow ?so) ?so
      (c_now ?c (sample_pending, 0)) True err (sample_pending, 1) = ((Direct True, err), (db1, 1))" "runnable ''a'' db1"
    using live enc by (simp add: checkpoint_step_def RecordOperationResult_def sel Let_def)
  then show ?thesis unfolding RunAsStep_in_workflow [OF w refl refl] using chk ex by (simp add: sel)
qed

theorem replay_reaches_same_point_witness:
  "\<exists>db1. run_steps 1 (sample_context sample_error_lib) sample_workflow sample_prog (sample_pending, 0) =
      Some (Done (True, None), sample_workflow\<lparr>stepID := 0\<rparr>, (db1, 1)) \<and>
    run_steps 1 (sample_context sample_error_lib) sample_workflow sample_prog (db1, 7) =
      Some (Done (True, None), sample_workflow\<lparr>stepID := 0\<rparr>, (db1, 7))"
proof -
  obtain db1 where step: "dbosContext_RunAsStep (sample_context sample_error_lib) (Some sample_workflow) (Some (sample_body None))
      [WithStepName ''f''] (sample_pending, 0) = Some ((Direct True, None), Some (sample_workflow\<lparr>stepID := 0\<rparr>), (db1, 1))"
    and live: "runnable ''a'' db1" using sample_step by blast
  have typed: "typed_result (sample_context sample_error_lib) bool_type ws (Direct True, None) = (True, None)" for ws
    by (simp add: typed_result_def convertStepResult_def bool_type_def)
  have run: "run_steps 1 (sample_context sample_error_lib) sample_workflow sample_prog (sample_pending, 0) =
      Some (Done (True, None), sample_workflow\<lparr>stepID := 0\<rparr>, (db1, 1))"
    by (simp add: sample_prog_def RunAsStep_def step typed)
  have durable: "durable_run 1 (sample_context sample_error_lib) sample_workflow sample_prog (sample_pending, 0)"
    by (simp add: sample_prog_def RunAsStep_def step durable_step_def)
      (simp add: sample_body_def split_def keeps_ops_def same_universe_def sample_context_def sample_workflow_def isWorkflowCtxCancelled_def value_survives_def json_faithful_def
        isNilValue_def bool_type_def error_survives_def serialized_error_def nullif_empty_def deserializeWorkflowError_def)
  have "run_steps 1 (sample_context sample_error_lib) sample_workflow sample_prog (db1, 7) =
      Some (Done (True, None), sample_workflow\<lparr>stepID := 0\<rparr>, (db1, 7))"
    by (rule replay_reaches_same_point [OF _ durable run])
      (use live in \<open>simp_all add: sample_workflow_def keeps_ops_def sample_context_def custom_contract_def same_deployment_def\<close>)
  with run show ?thesis by blast
qed


end
