(* ===== verification/Txn.thy ===== *)
theory Txn
  imports Exec
begin

text \<open>
  Atomicity of transactional steps (\<^verbatim>\<open>runAsTxn\<close> of \<^verbatim>\<open>src/dbos/workflow.go\<close>, defined in \<open>Exec\<close>).
\<close>

section \<open>Transactional steps are atomic\<close>

text \<open>
  The only way a transactional step changes the database \<open>db\<close>: the writes of one successful run of
  its body from \<open>db\<close>, or none if the body failed with \<open>serr\<close>, then the post-step writes, then its
  checkpoint, which holds the encoded output and error.
\<close>

definition txn_encoder :: "('v, 'w) dbosContext \<Rightarrow> 'w workflowState \<Rightarrow> 'v Serializer" where
  "txn_encoder c ws = resolveEncoder (c_any c) (isPortableWorkflow ws) (c_serializer c)"

definition txn_effect ::
  "('v, 'w) dbosContext \<Rightarrow> 'w workflowState \<Rightarrow> 'w stepOptions \<Rightarrow> ('v, 'w) body \<Rightarrow> sysdb \<Rightarrow> 'w state \<Rightarrow> 'v \<Rightarrow> go_error option \<Rightarrow> bool" where
  "txn_effect c ws so body db st' out serr = (find_op (workflowID ws) (step_id ws so) db = None \<and> (\<exists>sb db1 inp.
     (if serr = None then \<exists>w. body (db, w) = ((out, None), sb) else fst sb = db) \<and>
     (case postStepInTxn so of None \<Rightarrow> Inr ((), sb) | Some post \<Rightarrow> post sb) = Inr ((), (db1, snd st')) \<and>
     txn_encode c (txn_encoder c ws) out = Inr (ro_Output inp, ro_Serialization inp) \<and>
     ro_WorkflowID inp = workflowID ws \<and> ro_StepID inp = step_id ws so \<and> ro_StepName inp = stepName so \<and>
     ro_ErrStr inp = serialized_error (c_codecs c) serr (Name (txn_encoder c ws)) \<and>
     RecordOperationResult (c_systemDB c) inp db1 = Inr ((), fst st')))"

lemma txn_effect_recorded:
  assumes "txn_effect c ws so body db st' out serr"
  shows "find_op (workflowID ws) (step_id ws so) (fst st') \<noteq> None"
proof -
  obtain inp db1 where inp: "ro_WorkflowID inp = workflowID ws" "ro_StepID inp = step_id ws so"
    and rec: "RecordOperationResult (c_systemDB c) inp db1 = Inr ((), fst st')"
    using assms by (auto simp: txn_effect_def)
  show ?thesis
    using results.put_free [OF _ rec] results.first_write_wins [OF rec, of "(workflowID ws, step_id ws so)"] inp
    by (cases "find_op (workflowID ws) (step_id ws so) db1") simp_all
qed

lemma savepoint_execution:
  assumes "executeStepWithRetry c wid so (in_savepoint body) st = Some ((out, serr), st')"
    and "\<And>d s. fst (snd (c_wait c d s)) = fst s"
  shows "if serr = None then \<exists>w. body (fst st, w) = ((out, None), st') else fst st' = fst st"
proof (rule execute_invariant [OF assms(1), where I = "\<lambda>s. fst s = fst st"])
  show "fst s' = fst st" if "fst s = fst st" "in_savepoint body s = ((v, Some e), s')" for s v e s'
    using that by (auto simp: in_savepoint_def split: prod.splits)
  show "\<exists>w. body (fst st, w) = ((v, None), s')" if "fst s = fst st" "in_savepoint body s = ((v, None), s')" for s v s'
    using that by (cases s) (auto simp: in_savepoint_def split: prod.splits)
  show "fst s' = fst st" if "fst s = fst st" "c_wait c d s = (ok, s')" for d s ok s'
    using assms(2) [of d s] that by simp
qed simp

lemma commit_step_effect:
  assumes "commit_step c (isPortableWorkflow ws) (step_state ws so\<lparr>isWithinTransaction := True\<rparr>) so t0 out serr st st1 = ((res, err), st')"
    and "if serr = None then \<exists>w. body (fst st, w) = ((out, None), st1) else fst st1 = fst st"
    and "find_op (workflowID ws) (step_id ws so) (fst st) = None"
  shows "fst st' = fst st \<and> (\<forall>v. res = Direct v \<longrightarrow> err \<noteq> None) \<or>
    res = Direct out \<and> err = serr \<and> txn_effect c ws so body (fst st) st' out serr"
proof (cases "fst st' = fst st \<and> (\<forall>v. res = Direct v \<longrightarrow> err \<noteq> None)")
  case False
  let ?ser = "txn_encoder c ws"
  let ?inp = "\<lambda>enc s sp. txn_input c (step_state ws so\<lparr>isWithinTransaction := True\<rparr>) so t0 out enc
      (serialized_error (c_codecs c) serr (Name ?ser)) s sp"
  obtain db1 enc s where "(case postStepInTxn so of None \<Rightarrow> Inr ((), st1) | Some post \<Rightarrow> post st1) = Inr ((), (db1, snd st'))"
    and "txn_encode c ?ser out = Inr (enc, s)" and "res = Direct out" "err = serr"
    and "RecordOperationResult (c_systemDB c) (?inp enc s (db1, snd st')) db1 = Inr ((), fst st')"
    using assms(1) False
    by (simp add: commit_step_def txn_encoder_def Let_def split: if_splits sum.splits prod.splits) auto
  then show ?thesis using assms(2,3) unfolding txn_effect_def
    by (intro disjI2 conjI exI [of _ st1] exI [of _ db1] exI [of _ "?inp enc s (db1, snd st')"])
      (simp_all add: txn_input_def)
qed simp

lemma txn_attempt_effect:
  assumes "txn_attempt c (isPortableWorkflow ws) (step_state ws so\<lparr>isWithinTransaction := True\<rparr>) so t0 body st = Some ((res, err), st')"
    and "\<And>d s. fst (snd (c_wait c d s)) = fst s"
  shows "fst st' = fst st \<and> (\<forall>v. res = Direct v \<longrightarrow> err \<noteq> None) \<or>
    (\<exists>out. res = Direct out \<and> txn_effect c ws so body (fst st) st' out err)"
proof (cases "CheckOperationExecution (workflowID ws) (step_id ws so) (stepName so) (fst st) = Inr None")
  case True
  obtain out serr st1 where ex: "executeStepWithRetry c (workflowID ws) so (in_savepoint body) st = Some ((out, serr), st1)"
    using execute_returns by (metis prod.exhaust)
  then have "commit_step c (isPortableWorkflow ws) (step_state ws so\<lparr>isWithinTransaction := True\<rparr>) so t0 out serr st st1 = ((res, err), st')"
    using assms(1) True by (simp add: txn_attempt_def)
  from commit_step_effect [OF this savepoint_execution [OF ex assms(2)]] True show ?thesis by (auto simp: check_fresh)
next
  case False
  then show ?thesis using assms(1) by (auto simp: txn_attempt_def split: sum.splits option.splits)
qed

text \<open>
  The transaction as a whole: a result that was computed now (\<open>Direct\<close>) is the one that was committed.
\<close>

lemma txn_step_effect:
  fixes c :: "('v, 'w) dbosContext"
  assumes "\<not> isWithinStep ws" and "so = parse_options opts"
    and "dbosContext_runAsTxn c retryable (Some ws) (Some body) opts st = Some ((res, err), wso, st')"
    and "\<And>d s. fst (snd (c_wait c d s)) = fst s" and "\<And>d s s'. c_wait c d s = (False, s') \<Longrightarrow> c_Err c s' \<noteq> None"
  shows "fst st' = fst st \<or> (\<exists>s out serr. fst s = fst st' \<and> txn_effect c ws so body (fst st) s out serr)"
    and "\<And>v. res = Direct v \<Longrightarrow> err = None \<Longrightarrow> txn_effect c ws so body (fst st) st' v None"
proof -
  let ?eff = "\<lambda>d. \<exists>s out serr. fst s = d \<and> txn_effect c ws so body (fst st) s out serr"
  let ?I = "\<lambda>(_ :: 'v step_result, s :: 'w state). fst s = fst st \<or> ?eff (fst s)"
  let ?P = "\<lambda>(err :: go_error option, (res :: 'v step_result, s :: 'w state)). (fst s = fst st \<or> ?eff (fst s)) \<and>
      (\<forall>v. res = Direct v \<and> err = None \<longrightarrow> txn_effect c ws so body (fst st) s v None)"
  let ?att = "txn_attempt c (isPortableWorkflow ws) (step_state ws so\<lparr>isWithinTransaction := True\<rparr>) so (c_now c st) body"
  have run: "RetryWithResult c retryable NilResult ?att st = Some ((res, err), st')"
    using assms(2,3) by (simp add: dbosContext_runAsTxn_def prepare_in_workflow [OF assms(1)] Let_def) auto
  have att: "(fst s' = fst st \<or> ?eff (fst s')) \<and> (\<forall>v. r = Direct v \<and> e = None \<longrightarrow> txn_effect c ws so body (fst st) s' v None)"
    if "?att s = Some ((r, e), s')" "fst s = fst st \<or> ?eff (fst s)" for s r e s'
    using txn_attempt_effect [OF that(1) assms(4)]
  proof (elim disjE conjE exE)
    assume "fst s' = fst s" "\<forall>v. r = Direct v \<longrightarrow> e \<noteq> None"
    then show ?thesis using that(2) by auto
  next
    fix out assume o: "r = Direct out" "txn_effect c ws so body (fst s) s' out e"
    then have "find_op (workflowID ws) (step_id ws so) (fst s) = None" by (simp add: txn_effect_def)
    then have "fst s = fst st" using that(2) txn_effect_recorded by fastforce
    then show ?thesis using o by (cases s') auto
  qed
  have loop: "RetryLoop (DelayFor retry_schedule (c_rand c))
        (\<lambda>(_, st). map_option (\<lambda>((result, err), st'). (err, (result, st'))) (?att st))
        (retry_decide retryable (- 1))
        (\<lambda>d (result, st). case c_wait c d st of (ok, st') \<Rightarrow> (ok, (result, st')))
        (\<lambda>(_, st). map_option (\<lambda>e. contextInterruptionError e (c_Cause c st) [] ''retried operation interrupted'') (c_Err c st))
        0 (NilResult, st) = Some (err, (res, st'))" (is "RetryLoop ?d ?w ?de ?wa ?oc 0 _ = _")
    using run by (auto simp: RetryWithResult_def)
  have "?P (err, (res, st'))"
  proof (rule RetryLoop_invariant [OF loop, where I = "\<lambda>_. ?I"])
    fix s s1 s2 s3 :: "'v step_result \<times> 'w state" and e and r :: "bool \<times> go_error option" and runs :: int
    assume I: "?I s"
    have work: "?att (snd s) = Some ((fst s1, eo), snd s1)" if "?w s = Some (eo, s1)" for eo
      using that by (cases s) auto
    have I': "fst (snd s) = fst st \<or> ?eff (fst (snd s))" using I by (cases s) simp
    show "?P (None, s1)" if "?w s = Some (None, s1)" using att [OF work [OF that] I'] by (cases s1) simp
    assume w: "?w s = Some (Some e, s1)" and d: "?de e (runs + 1) s1 = (r, s2)"
    then have s2: "?I s2" using att [OF work [OF w] I'] by (cases s2) (auto simp: retry_decide_def)
    show "?P (snd r, s2)" if "\<not> fst r" using d s2 that by (auto simp: retry_decide_def split: if_splits)
    show "?P (?oc s3, s3)" if "?wa (?d (runs + 1)) s2 = (False, s3)"
      using s2 that assms(4) [of "?d (runs + 1)" "snd s2"] assms(5) [of "?d (runs + 1)" "snd s2"] by (auto split: prod.splits)
    show "?I s3" if "?wa (?d (runs + 1)) s2 = (True, s3)"
      using s2 that assms(4) [of "?d (runs + 1)" "snd s2"] by (auto split: prod.splits)
  qed simp
  then show "fst st' = fst st \<or> ?eff (fst st')" and "\<And>v. res = Direct v \<Longrightarrow> err = None \<Longrightarrow> txn_effect c ws so body (fst st) st' v None"
    by simp_all
qed

text \<open>Whatever its body, a transactional step that is recorded returns what is recorded.\<close>

lemma txn_step_replayed:
  assumes "\<not> isWithinStep ws" and "so = parse_options opts"
    and "CheckOperationExecution (workflowID ws) (step_id ws so) (stepName so) (fst st) = Inr (Some recorded)"
    and "err = deserializeWorkflowError (c_codecs c) (rr_ErrStr recorded)" and "\<And>e. err = Some e \<Longrightarrow> \<not> retryable e"
  shows "dbosContext_runAsTxn c retryable (Some ws) (Some body) opts st =
    Some ((CheckpointedOutcome (rr_Output recorded) (rr_Serialization recorded), err), Some (step_counted ws so), st)"
proof -
  let ?att = "txn_attempt c (isPortableWorkflow ws) (step_state ws so\<lparr>isWithinTransaction := True\<rparr>) so (c_now c st) body"
  have "?att st = Some ((CheckpointedOutcome (rr_Output recorded) (rr_Serialization recorded), err), st)"
    using assms(3,4) by (simp add: txn_attempt_def)
  then have "RetryWithResult c retryable NilResult ?att st =
      Some ((CheckpointedOutcome (rr_Output recorded) (rr_Serialization recorded), err), st)"
    using assms(5) by (simp add: RetryWithResult_def) (subst RetryLoop.simps, cases err, auto simp: retry_decide_def intro!: exI [of _ "fst st"] exI [of _ "snd st"])
  then show ?thesis using assms(2) by (simp add: dbosContext_runAsTxn_def prepare_in_workflow [OF assms(1)] Let_def)
qed

text \<open>The checkpoint a transactional step leaves, if nothing in it records the step itself.\<close>

lemma txn_effect_row:
  assumes "txn_effect c ws so body db st' out None"
    and "\<And>w sb w1 db1. body (db, w) = ((out, None), sb) \<Longrightarrow>
      (case postStepInTxn so of None \<Rightarrow> Inr ((), sb) | Some post \<Rightarrow> post sb) = Inr ((), (db1, w1)) \<Longrightarrow>
      find_op (workflowID ws) (step_id ws so) db1 = None"
  obtains r enc ser where "find_op (workflowID ws) (step_id ws so) (fst st') = Some r" "oo_function_name r = stepName so"
    "txn_encode c (txn_encoder c ws) out = Inr (enc, ser)" "oo_output r = enc" "oo_serialization r = Some ser" "oo_error r = None"
proof -
  obtain sb db1 inp w where b: "body (db, w) = ((out, None), sb)"
    "(case postStepInTxn so of None \<Rightarrow> Inr ((), sb) | Some post \<Rightarrow> post sb) = Inr ((), (db1, snd st'))"
    "txn_encode c (txn_encoder c ws) out = Inr (ro_Output inp, ro_Serialization inp)"
    "ro_WorkflowID inp = workflowID ws" "ro_StepID inp = step_id ws so" "ro_StepName inp = stepName so" "ro_ErrStr inp = None"
    and rec: "RecordOperationResult (c_systemDB c) inp db1 = Inr ((), fst st')"
    using assms(1) by (auto simp: txn_effect_def serialized_error_def)
  have "find_op (workflowID ws) (step_id ws so) db1 = None" by (rule assms(2) [OF b(1,2)])
  then have "find_op (workflowID ws) (step_id ws so) (fst st') = Some (result_row (c_systemDB c) inp)"
    using results.put_free [OF _ rec] b(4,5) by simp
  then show thesis using that b(3,6,7) by (simp add: result_row_def)
qed

text \<open>
  A transactional step without retries of its own whose body fails only in ways the transaction is not repeated
  for: a success is the outcome of one run of the body on the database the step started from.
\<close>

lemma txn_single_run:
  fixes c :: "('v, 'w) dbosContext"
  assumes "\<not> isWithinStep ws" and "so = parse_options opts" and "maxRetries so \<le> 0"
    and "\<And>s v x s'. body s = ((v, Some x), s') \<Longrightarrow> \<not> retryable x"
    and "dbosContext_runAsTxn c retryable (Some ws) (Some body) opts st = Some ((res, None), wso, st')"
    and "\<And>d s. fst (snd (c_wait c d s)) = fst s" and "\<And>d s s'. c_wait c d s = (False, s') \<Longrightarrow> c_Err c s' \<noteq> None"
    and "find_op (workflowID ws) (step_id ws so) (fst st) = None"
  obtains s v sb where "fst s = fst st" "body s = ((v, None), sb)" "res = Direct v" "txn_effect c ws so body (fst st) st' v None"
proof -
  let ?I = "\<lambda>(_ :: 'v step_result, s :: 'w state). fst s = fst st"
  let ?ok = "\<lambda>r s. \<exists>s0 v sb. fst s0 = fst st \<and> body s0 = ((v, None), sb) \<and> r = Direct v \<and> txn_effect c ws so body (fst st) s v None"
  let ?P = "\<lambda>(err :: go_error option, (res :: 'v step_result, s :: 'w state)). err = None \<longrightarrow> ?ok res s"
  let ?att = "txn_attempt c (isPortableWorkflow ws) (step_state ws so\<lparr>isWithinTransaction := True\<rparr>) so (c_now c st) body"
  have "RetryWithResult c retryable NilResult ?att st = Some ((res, None), st')"
    using assms(2,5) by (simp add: dbosContext_runAsTxn_def prepare_in_workflow [OF assms(1)] Let_def) auto
  then have loop: "RetryLoop (DelayFor retry_schedule (c_rand c))
        (\<lambda>(_, st). map_option (\<lambda>((result, err), st'). (err, (result, st'))) (?att st))
        (retry_decide retryable (- 1))
        (\<lambda>d (result, st). case c_wait c d st of (ok, st') \<Rightarrow> (ok, (result, st')))
        (\<lambda>(_, st). map_option (\<lambda>e. contextInterruptionError e (c_Cause c st) [] ''retried operation interrupted'') (c_Err c st))
        0 (NilResult, st) = Some (None, (res, st'))" (is "RetryLoop ?d ?w ?de ?wa ?oc 0 _ = _")
    by (auto simp: RetryWithResult_def)
  have att: "case e of None \<Rightarrow> ?ok r s' | Some x \<Rightarrow> retryable x \<longrightarrow> fst s' = fst st"
    if a: "?att s = Some ((r, e), s')" "fst s = fst st" for s r e s'
  proof (cases "CheckOperationExecution (workflowID ws) (step_id ws so) (stepName so) (fst s)")
    case (Inl err)
    then show ?thesis using a by (auto simp: txn_attempt_def)
  next
    case (Inr recorded)
    have none: "find_op (workflowID ws) (step_id ws so) (fst s) = None" using assms(8) a(2) by simp
    then have "recorded = None" using Inr by (auto simp: CheckOperationExecution_def split: option.splits if_splits)
    obtain v eo sb where b: "body s = ((v, eo), sb)" by (cases "body s") auto
    let ?s1 = "if eo = None then sb else (fst s, snd sb)"
    have "in_savepoint body s = ((v, eo), ?s1)" by (simp add: in_savepoint_def b)
    from execute_once [where runOnce = "in_savepoint body", OF this assms(3)]
    have cs: "commit_step c (isPortableWorkflow ws) (step_state ws so\<lparr>isWithinTransaction := True\<rparr>) so (c_now c st) v eo s ?s1 = ((r, e), s')"
      using a(1) Inr \<open>recorded = None\<close> by (simp add: txn_attempt_def)
    then have "e = None \<Longrightarrow> \<exists>v. r = Direct v"
      by (auto simp: commit_step_def interruptedStepError_def Let_def split: if_splits sum.splits prod.splits option.splits)
    moreover have "fst s' = fst s \<and> (\<forall>v. r = Direct v \<longrightarrow> e \<noteq> None) \<or> r = Direct v \<and> e = eo \<and> txn_effect c ws so body (fst s) s' v eo"
      by (rule commit_step_effect [OF cs _ none]) (use b in \<open>auto intro: exI [of _ "snd s"]\<close>)
    ultimately show ?thesis using a(2) b assms(4) [of s v _ sb] by (cases s; cases sb; auto split: option.splits)
  qed
  have "?P (None, (res, st'))"
  proof (rule RetryLoop_invariant [OF loop, where I = "\<lambda>_. ?I"])
    fix s s1 s2 s3 :: "'v step_result \<times> 'w state" and e and r :: "bool \<times> go_error option" and runs :: int
    assume I: "?I s"
    have work: "?att (snd s) = Some ((fst s1, eo), snd s1)" if "?w s = Some (eo, s1)" for eo
      using that by (cases s) auto
    have I': "fst (snd s) = fst st" using I by (cases s) simp
    show "?P (None, s1)" if "?w s = Some (None, s1)" using att [OF work [OF that] I'] by (cases s1) simp
    assume w: "?w s = Some (Some e, s1)" and d: "?de e (runs + 1) s1 = (r, s2)"
    then have s2: "?I s2" if "fst r" using att [OF work [OF w] I'] that by (cases s2) (auto simp: retry_decide_def split: if_splits)
    show "?P (snd r, s2)" if "\<not> fst r" using d that by (cases s2) (auto simp: retry_decide_def split: if_splits)
    show "?P (?oc s3, s3)" if "?wa (?d (runs + 1)) s2 = (False, s3)"
      using that assms(7) [of "?d (runs + 1)" "snd s2"] by (auto split: prod.splits)
    show "?I s3" if "fst r" "?wa (?d (runs + 1)) s2 = (True, s3)"
      using s2 [OF that(1)] that(2) assms(6) [of "?d (runs + 1)" "snd s2"] by (auto split: prod.splits)
  qed simp
  then show thesis using that by auto
qed

text \<open>
  C4: a transactional step is atomic. However often its transaction is retried, the database ends
  either unchanged or with exactly the effect of one run of the body and its post-step writes
  together with the step's checkpoint; a body that fails leaves none of its own writes. When the
  step reports success it has committed. Waiting does not write to the database here, and is
  interrupted only by a cancelled context.
\<close>

theorem txn_step_atomic:
  assumes "\<not> isWithinStep ws" and "so = parse_options opts"
    and "dbosContext_runAsTxn c retryable (Some ws) (Some body) opts st = Some ((res, err), wso, st')"
    and "\<And>d s. fst (snd (c_wait c d s)) = fst s" and "\<And>d s s'. c_wait c d s = (False, s') \<Longrightarrow> c_Err c s' \<noteq> None"
  shows "(fst st' = fst st \<or> (\<exists>s out serr. fst s = fst st' \<and> txn_effect c ws so body (fst st) s out serr)) \<and>
    (\<forall>v. res = Direct v \<and> err = None \<longrightarrow> txn_effect c ws so body (fst st) st' v None)"
  by (intro conjI allI impI txn_step_effect(1) [OF assms(1-4)] txn_step_effect(2) [OF assms(1-4)]) (use assms(5) in blast)+

lemma sample_txn:
  "\<exists>db1. dbosContext_runAsTxn (sample_context lib) (\<lambda>_. False) (Some sample_workflow) (Some (sample_body None))
      [WithStepName ''f''] (sample_pending, 0) = Some ((Direct True, None), Some (sample_workflow\<lparr>stepID := 0\<rparr>), (db1, 1))"
proof -
  let ?so = "parse_options [WithStepName ''f'']" and ?c = "sample_context lib"
  let ?ss = "step_state sample_workflow ?so\<lparr>isWithinTransaction := True\<rparr>"
  have w: "\<not> isWithinStep sample_workflow" by (simp add: sample_workflow_def)
  have sel: "workflowID sample_workflow = ''a''" "step_id sample_workflow ?so = 0" "isPortableWorkflow sample_workflow = False"
    "step_counted sample_workflow ?so = sample_workflow\<lparr>stepID := 0\<rparr>"
    by (simp_all add: sample_workflow_def step_id_def step_counted_def)
  have chk: "CheckOperationExecution ''a'' 0 ''f'' sample_pending = Inr None" by (simp add: check_fresh runnable_def)
  have ex: "executeStepWithRetry ?c ''a'' ?so (in_savepoint (sample_body None)) (sample_pending, 0) = Some ((True, None), (sample_pending, 1))"
    by (rule execute_once) (simp_all add: sample_body_def in_savepoint_def)
  have enc: "txn_encode ?c (resolveEncoder (c_any ?c) False (c_serializer ?c)) True = Inr (Some (EncodeToString ''true''), ''DBOS_JSON'')"
    by (simp add: txn_encode_def resolveEncoder_def newJSONSerializer_def sample_context_def bool_type_def isNilValue_def)
  have "\<not> isWorkflowCtxCancelled ?ss st" for st by (simp add: isWorkflowCtxCancelled_def sample_workflow_def)
  then obtain db1 where cs: "commit_step ?c False ?ss ?so (c_now ?c (sample_pending, 0)) True None (sample_pending, 0) (sample_pending, 1) =
      ((Direct True, None), (db1, 1))"
    using enc by (simp add: commit_step_def RecordOperationResult_def txn_input_def sel Let_def)
  have "txn_attempt ?c False ?ss ?so (c_now ?c (sample_pending, 0)) (sample_body None) (sample_pending, 0) = Some ((Direct True, None), (db1, 1))"
    using chk ex cs by (simp add: txn_attempt_def sel)
  then have "RetryWithResult ?c (\<lambda>_. False) NilResult (txn_attempt ?c False ?ss ?so (c_now ?c (sample_pending, 0)) (sample_body None))
      (sample_pending, 0) = Some ((Direct True, None), (db1, 1))"
    by (simp add: RetryWithResult_def) (subst RetryLoop.simps, simp)
  then show ?thesis by (simp add: dbosContext_runAsTxn_def prepare_in_workflow [OF w] sel Let_def)
qed

theorem txn_step_atomic_witness:
  "\<exists>db1. dbosContext_runAsTxn (sample_context sample_error_lib) (\<lambda>_. False) (Some sample_workflow) (Some (sample_body None))
      [WithStepName ''f''] (sample_pending, 0) = Some ((Direct True, None), Some (sample_workflow\<lparr>stepID := 0\<rparr>), (db1, 1)) \<and>
    txn_effect (sample_context sample_error_lib) sample_workflow (parse_options [WithStepName ''f'']) (sample_body None) sample_pending (db1, 1) True None"
proof -
  obtain db1 where run: "dbosContext_runAsTxn (sample_context sample_error_lib) (\<lambda>_. False) (Some sample_workflow) (Some (sample_body None))
      [WithStepName ''f''] (sample_pending, 0) = Some ((Direct True, None), Some (sample_workflow\<lparr>stepID := 0\<rparr>), (db1, 1))"
    using sample_txn by blast
  have w: "\<not> isWithinStep sample_workflow" by (simp add: sample_workflow_def)
  have waits: "fst (snd (c_wait (sample_context lib) d s)) = fst s"
    "c_wait (sample_context lib) d s = (False, s') \<Longrightarrow> c_Err (sample_context lib) s' \<noteq> None" for lib d s s'
    by (simp_all add: sample_context_def)
  have "txn_effect (sample_context sample_error_lib) sample_workflow (parse_options [WithStepName ''f'']) (sample_body None)
      (fst (sample_pending, 0 :: int)) (db1, 1) True None"
    by (rule txn_step_atomic [THEN conjunct2, rule_format, OF w refl run]) (simp_all add: waits)
  with run show ?thesis by auto
qed

end
