(* ===== verification/Gates.thy ===== *)
theory Gates
  imports Comms
begin

text \<open>
  Gates and read audiences (\<^verbatim>\<open>src/dbos/internal/sysdb/gates.go\<close>). A gate is a receive with an open or
  closed state and an audience; a delivery is checked against both, recorded in an audit table and,
  if accepted, sent to the workflow as a message. The inbox queries and the read check match the
  same audience rows.

  A delivery runs at the default isolation level, so transactions of other executors may commit
  between its checks and its writes: \<open>env\<close> is what they do to the database in between. Generated
  ids, the clock and the hexadecimal SHA-256 digest are arguments.
\<close>

section \<open>Principals\<close>

definition GatePrincipalUser :: string where "GatePrincipalUser = ''user''"
definition GatePrincipalGroup :: string where "GatePrincipalGroup = ''group''"
definition GatePrincipalAll :: string where "GatePrincipalAll = ''all''"
definition GatePrincipalExcept :: string where "GatePrincipalExcept = ''except''"
definition GatePrincipalInitiator :: string where "GatePrincipalInitiator = ''initiator''"

lemmas principal_defs = GatePrincipalUser_def GatePrincipalGroup_def GatePrincipalAll_def
  GatePrincipalExcept_def GatePrincipalInitiator_def

record GatePrincipal =
  gp_Type :: string
  gp_Principal :: string

record GateSpec =
  gs_Name :: string
  gs_Org :: string
  gs_Audience :: "GatePrincipal list"
  gs_ExpiresAt :: gotime

definition GateTopic :: "string \<Rightarrow> string" where
  "GateTopic name = ''gate:'' @ name"

record 'v DeliverInput =
  di_WorkflowID :: string
  di_Gate :: string
  di_Subject :: string
  di_Org :: string
  di_Groups :: "string list"
  di_ClaimsJSON :: string
  di_Payload :: 'v

record OpenGateRow =
  og_WorkflowID :: string
  og_Gate :: string
  og_Org :: string
  og_OpenedAt :: instant
  og_ExpiresAt :: "instant option"

record DeliveryRow =
  dr_DeliveryID :: string
  dr_WorkflowID :: string
  dr_Gate :: string
  dr_BySubject :: string
  dr_Outcome :: GateOutcome
  dr_CreatedAt :: instant

section \<open>Opening and closing\<close>

definition gate_org :: "string \<Rightarrow> GateSpec \<Rightarrow> sysdb \<Rightarrow> string res" where
  "gate_org wid g db =
     (if gs_Org g \<noteq> [] then Inr (gs_Org g)
      else case find_wf wid db of
             None \<Rightarrow> Inl (Errorf ''failed to resolve gate org: '' (ErrorText ''no rows in result set''))
           | Some r \<Rightarrow> Inr (derefStr (ws_authenticated_user r)))"

definition audience_rows :: "string \<Rightarrow> string \<Rightarrow> GateSpec \<Rightarrow> gate_audience_row list" where
  "audience_rows wid org g =
     map (\<lambda>p. \<lparr>gu_workflow_uuid = wid, gu_gate = gs_Name g, gu_principal_type = gp_Type p,
               gu_principal = gp_Principal p, gu_org = Some org\<rparr>) (gs_Audience g)"

definition opened_gate :: "instant \<Rightarrow> string \<Rightarrow> int \<Rightarrow> GateSpec \<Rightarrow> string \<Rightarrow> gate_row" where
  "opened_gate now wid recvStepID g org =
     \<lparr>ga_workflow_uuid = wid, ga_gate = gs_Name g, ga_org = Some org, ga_open = True,
      ga_expires_at_epoch_ms = map_option UnixMilli (gs_ExpiresAt g), ga_opened_at_epoch_ms = UnixMilli now,
      ga_closed_at_epoch_ms = None, ga_recv_step_id = Some recvStepID\<rparr>"

definition reopen_set :: "gate_row \<Rightarrow> gate_row \<Rightarrow> gate_row" where
  "reopen_set excluded r =
     r\<lparr>ga_org := ga_org excluded, ga_open := True, ga_expires_at_epoch_ms := ga_expires_at_epoch_ms excluded,
       ga_opened_at_epoch_ms := ga_opened_at_epoch_ms excluded, ga_closed_at_epoch_ms := None,
       ga_recv_step_id := ga_recv_step_id excluded\<rparr>"

definition OpenGate :: "instant \<Rightarrow> string \<Rightarrow> int \<Rightarrow> GateSpec \<Rightarrow> sysdb \<Rightarrow> (unit \<times> sysdb) res" where
  "OpenGate now wid recvStepID g db =
     (case gate_org wid g db of
        Inl e \<Rightarrow> Inl e
      | Inr org \<Rightarrow>
          if find_wf wid db = None then Inl (Errorf ''failed to upsert gate: '' fk_violation)
          else
            let new = opened_gate now wid recvStepID g org;
                gates = upsert gate_key new (reopen_set new) (workflow_gates db);
                cleared = delete_where (\<lambda>r. gu_workflow_uuid r = wid \<and> gu_gate r = gs_Name g)
                  (workflow_gate_audience db)
            in case insert_all ''failed to insert gate audience row: '' gate_audience_key (audience_rows wid org g) cleared of
                 Inl e \<Rightarrow> Inl e
               | Inr audience \<Rightarrow> Inr ((), db\<lparr>workflow_gates := gates, workflow_gate_audience := audience\<rparr>))"

definition CloseGate :: "instant \<Rightarrow> string \<Rightarrow> string \<Rightarrow> string option \<Rightarrow> sysdb \<Rightarrow> string \<times> sysdb" where
  "CloseGate now wid gate messageUUID db =
     (let db' = db\<lparr>workflow_gates := update_where (\<lambda>r. ga_workflow_uuid r = wid \<and> ga_gate r = gate)
                  (\<lambda>r. r\<lparr>ga_open := False, ga_closed_at_epoch_ms := Some (UnixMilli now)\<rparr>) (workflow_gates db)\<rparr>
      in (case messageUUID of
            None \<Rightarrow> []
          | Some m \<Rightarrow>
              (case lookup_by gd_message_uuid (Some m) (workflow_gate_deliveries db') of
                 None \<Rightarrow> []
               | Some r \<Rightarrow> gd_delivery_uuid r), db'))"

section \<open>Delivery\<close>

definition admits :: "string \<Rightarrow> string list \<Rightarrow> gate_audience_row \<Rightarrow> bool" where
  "admits subject groups r =
     (gu_principal_type r = GatePrincipalAll \<or>
      (gu_principal_type r = GatePrincipalUser \<and> gu_principal r = subject) \<or>
      (gu_principal_type r = GatePrincipalGroup \<and> gu_principal r \<in> set groups))"

definition excludes :: "string \<Rightarrow> gate_audience_row \<Rightarrow> bool" where
  "excludes subject r = (gu_principal_type r = GatePrincipalExcept \<and> gu_principal r = subject)"

definition gate_audience :: "string \<Rightarrow> string \<Rightarrow> sysdb \<Rightarrow> gate_audience_row list" where
  "gate_audience wid gate db =
     filter (\<lambda>r. gu_workflow_uuid r = wid \<and> gu_gate r = gate) (workflow_gate_audience db)"

definition audienceMatches :: "'v DeliverInput \<Rightarrow> sysdb \<Rightarrow> bool" where
  "audienceMatches inp db =
     (let rows = gate_audience (di_WorkflowID inp) (di_Gate inp) db in
      exists_where (admits (di_Subject inp) (di_Groups inp)) rows \<and> \<not> exists_where (excludes (di_Subject inp)) rows)"

definition gate_check :: "int \<Rightarrow> WorkflowStatusType \<Rightarrow> gate_row option \<Rightarrow> GateOutcome" where
  "gate_check now wfStatus gate =
     (case gate of
        None \<Rightarrow> GateRejectedClosed
      | Some g \<Rightarrow>
          if \<not> ga_open g \<or> sql_le (ga_expires_at_epoch_ms g) now then GateRejectedClosed
          else if wfStatus \<noteq> WorkflowStatusPending \<and> wfStatus \<noteq> WorkflowStatusEnqueued \<and> wfStatus \<noteq> WorkflowStatusDelayed
          then GateRejectedClosed
          else GateDelivered)"

abbreviation find_gate :: "string \<Rightarrow> string \<Rightarrow> sysdb \<Rightarrow> gate_row option" where
  "find_gate wid gate db \<equiv> lookup_by gate_key (wid, gate) (workflow_gates db)"

definition delivery_outcome :: "int \<Rightarrow> 'v DeliverInput \<Rightarrow> WorkflowStatusType \<Rightarrow> sysdb \<Rightarrow> GateOutcome" where
  "delivery_outcome now inp wfStatus db =
     (let outcome = gate_check now wfStatus (find_gate (di_WorkflowID inp) (di_Gate inp) db) in
      if outcome = GateDelivered \<and> \<not> audienceMatches inp db then GateRejectedAudience else outcome)"

definition delivery_row ::
  "(string \<Rightarrow> string) \<Rightarrow> instant \<Rightarrow> string \<Rightarrow> string \<Rightarrow> 'v DeliverInput \<Rightarrow> string option \<Rightarrow> GateOutcome \<Rightarrow> gate_delivery_row" where
  "delivery_row sha256_hex now deliveryID messageID inp encodedPayload outcome =
     \<lparr>gd_delivery_uuid = deliveryID, gd_workflow_uuid = di_WorkflowID inp, gd_gate = di_Gate inp,
      gd_by_subject = di_Subject inp, gd_by_org = Some (di_Org inp), gd_claims = Some (di_ClaimsJSON inp),
      gd_payload_digest = Some (sha256_hex (derefStr encodedPayload)),
      gd_message_uuid = (if outcome = GateDelivered then Some messageID else None),
      gd_outcome = outcome, gd_created_at_epoch_ms = UnixMilli now\<rparr>"

definition gate_message :: "string \<Rightarrow> 'v DeliverInput \<Rightarrow> string option \<Rightarrow> string \<Rightarrow> WorkflowSendInput" where
  "gate_message messageID inp encodedPayload serialization =
     \<lparr>si_DestinationID = di_WorkflowID inp, si_Message = Some encodedPayload, si_Topic = GateTopic (di_Gate inp),
      si_Serialization = serialization, si_IdempotencyKey = [], si_MessageUUID = Some messageID\<rparr>"

record delivery_env =
  de_sha256_hex :: "string \<Rightarrow> string"
  de_others :: "sysdb \<Rightarrow> sysdb"
  de_now :: instant
  de_sendNow :: instant
  de_wakeNow :: instant
  de_deliveryID :: string
  de_messageID :: string

definition DeliverToGate ::
  "delivery_env \<Rightarrow> 'v DeliverInput \<Rightarrow> string option \<Rightarrow> string \<Rightarrow> sysdb \<Rightarrow> ((GateOutcome \<times> string) \<times> sysdb) res" where
  "DeliverToGate e inp encodedPayload serialization db =
     (case find_wf (di_WorkflowID inp) db of
        None \<Rightarrow> Inl (NewNonExistentWorkflowError (di_WorkflowID inp))
      | Some w \<Rightarrow>
          let outcome = delivery_outcome (UnixMilli (de_now e)) inp (ws_status w) db;
              db0 = de_others e db;
              row = delivery_row (de_sha256_hex e) (de_now e) (de_deliveryID e) (de_messageID e) inp encodedPayload outcome
          in case (if outcome = GateDelivered
                   then Send (de_sendNow e) (de_wakeNow e) [] (gate_message (de_messageID e) inp encodedPayload serialization) db0
                   else Inr ((), db0)) of
               Inl err \<Rightarrow> Inl (Errorf ''failed to signal gate delivery: '' err)
             | Inr (_, db1) \<Rightarrow>
                 if find_wf (di_WorkflowID inp) db1 = None then Inl (Errorf ''failed to record delivery: '' fk_violation)
                 else
                   (case insert_all ''failed to record delivery: '' gd_delivery_uuid [row] (workflow_gate_deliveries db1) of
                      Inl err \<Rightarrow> Inl err
                    | Inr rows \<Rightarrow> Inr ((outcome, de_deliveryID e), db1\<lparr>workflow_gate_deliveries := rows\<rparr>)))"

definition IgnoreDelivery :: "string \<Rightarrow> sysdb \<Rightarrow> sysdb" where
  "IgnoreDelivery deliveryID db =
     db\<lparr>workflow_gate_deliveries :=
       update_where (\<lambda>r. gd_delivery_uuid r = deliveryID \<and> gd_outcome r = GateDelivered)
         (\<lambda>r. r\<lparr>gd_outcome := GateIgnored\<rparr>) (workflow_gate_deliveries db)\<rparr>"

section \<open>Read audience and inbox\<close>

text \<open>
  \<^verbatim>\<open>AddReadAudience\<close> runs one statement per principal outside a transaction; they can only fail for
  want of the workflow, at the first one.
\<close>

fun AddReadAudience :: "string \<Rightarrow> string \<Rightarrow> GatePrincipal list \<Rightarrow> sysdb \<Rightarrow> (unit \<times> sysdb) res" where
  "AddReadAudience wid org [] db = Inr ((), db)"
| "AddReadAudience wid org (p # ps) db =
     (let row = \<lparr>ra_workflow_uuid = wid, ra_principal_type = gp_Type p, ra_principal = gp_Principal p, ra_org = Some org\<rparr>
      in if find_wf wid db = None then Inl (Errorf ''failed to insert read-audience row: '' fk_violation)
         else AddReadAudience wid org ps
           (db\<lparr>workflow_read_audience := upsert audience_key row id (workflow_read_audience db)\<rparr>))"

definition principalMatch :: "string \<Rightarrow> string list \<Rightarrow> string \<Rightarrow> string \<Rightarrow> bool" where
  "principalMatch subject groups ptype who =
     (ptype = GatePrincipalAll \<or>
      ((ptype = GatePrincipalUser \<or> ptype = GatePrincipalInitiator) \<and> who = subject) \<or>
      (ptype = GatePrincipalGroup \<and> who \<in> set groups))"

definition org_visible :: "string \<Rightarrow> string option \<Rightarrow> bool" where
  "org_visible org col = (sql_eq col org \<or> col = None \<or> sql_eq col [])"

definition ReadAllowed :: "string \<Rightarrow> string \<Rightarrow> string \<Rightarrow> string list \<Rightarrow> sysdb \<Rightarrow> bool" where
  "ReadAllowed wid org subject groups db =
     (exists_where (\<lambda>r. ra_workflow_uuid r = wid \<and> org_visible org (ra_org r) \<and>
        principalMatch subject groups (ra_principal_type r) (ra_principal r)) (workflow_read_audience db) \<or>
      exists_where (\<lambda>a. gu_workflow_uuid a = wid \<and> org_visible org (gu_org a) \<and>
        principalMatch subject groups (gu_principal_type a) (gu_principal a)) (workflow_gate_audience db))"

definition default_limit :: "int \<Rightarrow> int \<Rightarrow> int" where
  "default_limit d limit = (if limit \<le> 0 then d else limit)"

definition inbox_where :: "int \<Rightarrow> string \<Rightarrow> string \<Rightarrow> string list \<Rightarrow> sysdb \<Rightarrow> gate_row \<Rightarrow> bool" where
  "inbox_where now org subject groups db g =
     (sql_eq (ga_org g) org \<and> ga_open g \<and>
      (ga_expires_at_epoch_ms g = None \<or> sql_gt (ga_expires_at_epoch_ms g) now) \<and>
      exists_where (\<lambda>a. gu_workflow_uuid a = ga_workflow_uuid g \<and> gu_gate a = ga_gate g \<and>
        principalMatch subject groups (gu_principal_type a) (gu_principal a)) (workflow_gate_audience db) \<and>
      \<not> exists_where (\<lambda>x. gu_workflow_uuid x = ga_workflow_uuid g \<and> gu_gate x = ga_gate g \<and>
        excludes subject x) (workflow_gate_audience db))"

definition open_gate_row :: "gate_row \<Rightarrow> OpenGateRow" where
  "open_gate_row g = \<lparr>og_WorkflowID = ga_workflow_uuid g, og_Gate = ga_gate g, og_Org = derefStr (ga_org g),
     og_OpenedAt = time_of_ms (ga_opened_at_epoch_ms g),
     og_ExpiresAt = map_option time_of_ms (ga_expires_at_epoch_ms g)\<rparr>"

definition ListOpenGatesFor ::
  "instant \<Rightarrow> string \<Rightarrow> string \<Rightarrow> string list \<Rightarrow> int \<Rightarrow> sysdb \<Rightarrow> OpenGateRow list" where
  "ListOpenGatesFor now org subject groups limit db =
     map open_gate_row (limit_rows (default_limit 50 limit)
       (order_by_desc ga_opened_at_epoch_ms
         (filter (inbox_where (UnixMilli now) org subject groups db) (workflow_gates db))))"

definition delivery_entry :: "string \<Rightarrow> gate_delivery_row \<Rightarrow> DeliveryRow" where
  "delivery_entry bySubject r = \<lparr>dr_DeliveryID = gd_delivery_uuid r, dr_WorkflowID = gd_workflow_uuid r,
     dr_Gate = gd_gate r, dr_BySubject = bySubject, dr_Outcome = gd_outcome r,
     dr_CreatedAt = time_of_ms (gd_created_at_epoch_ms r)\<rparr>"

definition ListDeliveriesBy :: "string \<Rightarrow> string \<Rightarrow> int \<Rightarrow> sysdb \<Rightarrow> DeliveryRow list" where
  "ListDeliveriesBy org subject limit db =
     map (delivery_entry []) (limit_rows (default_limit 50 limit)
       (order_by_desc gd_created_at_epoch_ms
         (filter (\<lambda>r. sql_eq (gd_by_org r) org \<and> gd_by_subject r = subject) (workflow_gate_deliveries db))))"

definition ListDeliveriesFor :: "string \<Rightarrow> int \<Rightarrow> sysdb \<Rightarrow> DeliveryRow list" where
  "ListDeliveriesFor wid limit db =
     map (\<lambda>r. delivery_entry (gd_by_subject r) r) (limit_rows (default_limit 100 limit)
       (order_by gd_created_at_epoch_ms
         (filter (\<lambda>r. gd_workflow_uuid r = wid) (workflow_gate_deliveries db))))"

definition ListInitiatedBy :: "string \<Rightarrow> string \<Rightarrow> int \<Rightarrow> sysdb \<Rightarrow> string list" where
  "ListInitiatedBy org subject limit db =
     map (\<lambda>(r, w). ra_workflow_uuid r) (limit_rows (default_limit 50 limit)
       (order_by_desc (\<lambda>(r, w). ws_created_at w)
         [(r, w). r \<leftarrow> workflow_read_audience db, w \<leftarrow> workflow_status db,
            ws_workflow_uuid w = ra_workflow_uuid r, sql_eq (ra_org r) org,
            ra_principal_type r = GatePrincipalInitiator, ra_principal r = subject]))"

section \<open>The operations keep the invariant\<close>

lemma find_gate_iff:
  "db_inv db \<Longrightarrow> find_gate wid gate db = Some g \<longleftrightarrow> g \<in> set (workflow_gates db) \<and> gate_key g = (wid, gate)"
  by (rule lookup_by_in_iff) (simp add: db_inv_def pk_ok_def)

lemma db_inv_with_gates:
  assumes "db_inv db" and "distinct (map gate_key gates)" and "ga_workflow_uuid ` set gates \<subseteq> ws_workflow_uuid ` set (workflow_status db)"
    and "distinct (map gate_audience_key aud)"
    and "(\<lambda>r. (gu_workflow_uuid r, gu_gate r)) ` set aud \<subseteq> gate_key ` set gates"
  shows "db_inv (db\<lparr>workflow_gates := gates, workflow_gate_audience := aud\<rparr>)"
  using assms by (simp add: db_inv_def pk_ok_def fk_ok_def Let_def)

lemma OpenGate_E:
  assumes "OpenGate now wid sid g db = Inr ((), db')"
  obtains org where "gate_org wid g db = Inr org" and "find_wf wid db \<noteq> None"
    and "distinct (map gate_audience_key (audience_rows wid org g))"
    and "db' = db\<lparr>workflow_gates := upsert gate_key (opened_gate now wid sid g org)
            (reopen_set (opened_gate now wid sid g org)) (workflow_gates db),
          workflow_gate_audience := delete_where (\<lambda>r. gu_workflow_uuid r = wid \<and> gu_gate r = gs_Name g)
            (workflow_gate_audience db) @ audience_rows wid org g\<rparr>"
  using assms by (auto simp: OpenGate_def Let_def insert_all_def split: sum.splits if_splits)

lemma reopen_key [simp]: "gate_key (reopen_set x r) = gate_key r" "gate_key (opened_gate now wid sid g org) = (wid, gs_Name g)"
  by (simp_all add: reopen_set_def opened_gate_def)

lemma audience_rows_gate: "r \<in> set (audience_rows wid org g) \<Longrightarrow> gu_workflow_uuid r = wid \<and> gu_gate r = gs_Name g"
  by (auto simp: audience_rows_def)

lemma OpenGate_inv:
  assumes inv: "db_inv db" and run: "OpenGate now wid sid g db = Inr ((), db')"
  shows "db_inv db'"
  using run
proof (rule OpenGate_E)
  fix org
  let ?new = "opened_gate now wid sid g org"
  let ?gates = "upsert gate_key ?new (reopen_set ?new) (workflow_gates db)"
  let ?aud = "delete_where (\<lambda>r. gu_workflow_uuid r = wid \<and> gu_gate r = gs_Name g) (workflow_gate_audience db) @ audience_rows wid org g"
  assume wf: "find_wf wid db \<noteq> None" and dist: "distinct (map gate_audience_key (audience_rows wid org g))"
    and db': "db' = db\<lparr>workflow_gates := ?gates, workflow_gate_audience := ?aud\<rparr>"
  have keys: "gate_key ` set ?gates = insert (wid, gs_Name g) (gate_key ` set (workflow_gates db))"
    by (subst set_upsert_key) simp_all
  then have "fst ` gate_key ` set ?gates = fst ` insert (wid, gs_Name g) (gate_key ` set (workflow_gates db))" by simp
  then have "ga_workflow_uuid ` set ?gates = insert wid (ga_workflow_uuid ` set (workflow_gates db))"
    by (simp add: image_image)
  then have "ga_workflow_uuid ` set ?gates \<subseteq> ws_workflow_uuid ` set (workflow_status db)"
    using inv wf by (simp add: db_inv_def fk_ok_def Let_def lookup_by_eq_None)
  moreover have "distinct (map gate_audience_key ?aud)"
    using inv dist by (auto simp: db_inv_def pk_ok_def distinct_map_delete_where dest: audience_rows_gate)
  moreover have "(\<lambda>r. (gu_workflow_uuid r, gu_gate r)) ` set ?aud \<subseteq> gate_key ` set ?gates"
    unfolding keys using inv by (auto simp: db_inv_def fk_ok_def Let_def dest: audience_rows_gate)
  ultimately show ?thesis unfolding db'
    using inv by (intro db_inv_with_gates) (simp_all add: distinct_upsert db_inv_def pk_ok_def)
qed

lemma CloseGate_inv:
  assumes inv: "db_inv db" and run: "CloseGate now wid gate m db = (did, db')"
  shows "db_inv db'"
proof -
  let ?u = "\<lambda>r. r\<lparr>ga_open := False, ga_closed_at_epoch_ms := Some (UnixMilli now)\<rparr>"
  let ?gates = "update_where (\<lambda>r. ga_workflow_uuid r = wid \<and> ga_gate r = gate) ?u (workflow_gates db)"
  have keys: "map gate_key ?gates = map gate_key (workflow_gates db)" by (rule update_where_keeps) simp
  have set: "gate_key ` set ?gates = gate_key ` set (workflow_gates db)"
    using arg_cong [OF keys, of set] by (simp only: set_map)
  have "ga_workflow_uuid ` set ?gates = ga_workflow_uuid ` set (workflow_gates db)"
    using arg_cong [OF set, of "image fst"] by (simp only: image_image fst_conv)
  then have "ga_workflow_uuid ` set ?gates \<subseteq> ws_workflow_uuid ` set (workflow_status db)"
    using inv by (simp add: db_inv_def fk_ok_def Let_def)
  moreover have "(\<lambda>r. (gu_workflow_uuid r, gu_gate r)) ` set (workflow_gate_audience db) \<subseteq> gate_key ` set ?gates"
    unfolding set using inv by (simp add: db_inv_def fk_ok_def Let_def)
  moreover have "distinct (map gate_key ?gates)" unfolding keys using inv by (simp add: db_inv_def pk_ok_def)
  moreover have "distinct (map gate_audience_key (workflow_gate_audience db))" using inv by (simp add: db_inv_def pk_ok_def)
  ultimately have "db_inv (db\<lparr>workflow_gates := ?gates, workflow_gate_audience := workflow_gate_audience db\<rparr>)"
    by (intro db_inv_with_gates [OF inv])
  then show ?thesis using run by (simp add: CloseGate_def Let_def)
qed

lemma DeliverToGate_E:
  assumes "DeliverToGate e inp enc ser db = Inr ((outcome, did), db')"
  obtains w db1 where "find_wf (di_WorkflowID inp) db = Some w" and "did = de_deliveryID e"
    and "outcome = delivery_outcome (UnixMilli (de_now e)) inp (ws_status w) db"
    and "if outcome = GateDelivered
         then Send (de_sendNow e) (de_wakeNow e) [] (gate_message (de_messageID e) inp enc ser) (de_others e db) = Inr ((), db1)
         else db1 = de_others e db"
    and "find_wf (di_WorkflowID inp) db1 \<noteq> None"
    and "did \<notin> gd_delivery_uuid ` set (workflow_gate_deliveries db1)"
    and "db' = db1\<lparr>workflow_gate_deliveries := workflow_gate_deliveries db1 @
           [delivery_row (de_sha256_hex e) (de_now e) did (de_messageID e) inp enc outcome]\<rparr>"
proof -
  obtain w where w: "find_wf (di_WorkflowID inp) db = Some w"
    using assms by (auto simp: DeliverToGate_def split: option.splits)
  let ?o = "delivery_outcome (UnixMilli (de_now e)) inp (ws_status w) db"
  obtain db1 where sent: "(if ?o = GateDelivered
      then Send (de_sendNow e) (de_wakeNow e) [] (gate_message (de_messageID e) inp enc ser) (de_others e db)
      else Inr ((), de_others e db)) = Inr ((), db1)"
    using assms w by (auto simp: DeliverToGate_def Let_def split: sum.splits)
  let ?row = "delivery_row (de_sha256_hex e) (de_now e) (de_deliveryID e) (de_messageID e) inp enc ?o"
  have "(if find_wf (di_WorkflowID inp) db1 = None then Inl (Errorf ''failed to record delivery: '' fk_violation)
      else case insert_all ''failed to record delivery: '' gd_delivery_uuid [?row] (workflow_gate_deliveries db1) of
        Inl err \<Rightarrow> Inl err
      | Inr rows \<Rightarrow> Inr ((?o, de_deliveryID e), db1\<lparr>workflow_gate_deliveries := rows\<rparr>)) = Inr ((outcome, did), db')"
    using assms unfolding DeliverToGate_def w option.case Let_def sent by simp
  then have res: "find_wf (di_WorkflowID inp) db1 \<noteq> None" "outcome = ?o" "did = de_deliveryID e"
      "did \<notin> gd_delivery_uuid ` set (workflow_gate_deliveries db1)"
      "db' = db1\<lparr>workflow_gate_deliveries := workflow_gate_deliveries db1 @ [?row]\<rparr>"
    by (auto simp: insert_all_def delivery_row_def split: if_splits)
  show thesis
    by (rule that [OF w res(3,2) _ res(1,4)]) (use sent res(2,3,5) in \<open>simp_all split: if_splits\<close>)
qed

lemma Send_keeps_deliveries:
  "Send now wakeNow uuid sinp db = Inr ((), db') \<Longrightarrow> workflow_gate_deliveries db' = workflow_gate_deliveries db"
  by (auto simp: Send_def wake_receiver_def Let_def split: option.splits if_splits)

lemma DeliverToGate_inv:
  assumes "db_inv (de_others e db)" and "DeliverToGate e inp enc ser db = Inr ((outcome, did), db')"
  shows "db_inv db'"
  using assms(2)
proof (rule DeliverToGate_E)
  fix w db1
  let ?row = "delivery_row (de_sha256_hex e) (de_now e) did (de_messageID e) inp enc outcome"
  assume sent: "if outcome = GateDelivered
         then Send (de_sendNow e) (de_wakeNow e) [] (gate_message (de_messageID e) inp enc ser) (de_others e db) = Inr ((), db1)
         else db1 = de_others e db"
    and wf: "find_wf (di_WorkflowID inp) db1 \<noteq> None" and fresh: "did \<notin> gd_delivery_uuid ` set (workflow_gate_deliveries db1)"
    and db': "db' = db1\<lparr>workflow_gate_deliveries := workflow_gate_deliveries db1 @ [?row]\<rparr>"
  have "db_inv db1" using sent assms(1) by (auto intro: Send_inv [OF assms(1)] split: if_splits)
  moreover have "gd_delivery_uuid ?row = did" "gd_workflow_uuid ?row = di_WorkflowID inp"
    by (simp_all add: delivery_row_def)
  ultimately show ?thesis unfolding db' using wf fresh
    by (simp add: db_inv_def pk_ok_def fk_ok_def Let_def lookup_by_eq_None)
qed

lemma IgnoreDelivery_inv: "db_inv db \<Longrightarrow> db_inv (IgnoreDelivery did db)"
proof -
  let ?rows = "update_where (\<lambda>r. gd_delivery_uuid r = did \<and> gd_outcome r = GateDelivered)
         (\<lambda>r. r\<lparr>gd_outcome := GateIgnored\<rparr>) (workflow_gate_deliveries db)"
  have "map gd_delivery_uuid ?rows = map gd_delivery_uuid (workflow_gate_deliveries db)"
    "map gd_workflow_uuid ?rows = map gd_workflow_uuid (workflow_gate_deliveries db)"
    by (rule update_where_keeps, simp)+
  moreover from this(2) have "gd_workflow_uuid ` set ?rows = gd_workflow_uuid ` set (workflow_gate_deliveries db)"
    by (metis set_map)
  moreover assume "db_inv db"
  ultimately show ?thesis by (simp add: IgnoreDelivery_def db_inv_def pk_ok_def fk_ok_def Let_def)
qed

lemma AddReadAudience_inv:
  "db_inv db \<Longrightarrow> AddReadAudience wid org ps db = Inr ((), db') \<Longrightarrow> db_inv db'"
proof (induction wid org ps db rule: AddReadAudience.induct)
  case (2 wid org p ps db)
  let ?row = "\<lparr>ra_workflow_uuid = wid, ra_principal_type = gp_Type p, ra_principal = gp_Principal p, ra_org = Some org\<rparr>"
  let ?rows = "upsert audience_key ?row id (workflow_read_audience db)"
  have wf: "find_wf wid db \<noteq> None" using "2.prems"(2) by (auto simp: Let_def split: if_splits)
  have "distinct (map audience_key ?rows)"
    using "2.prems"(1) by (intro distinct_upsert) (simp_all add: db_inv_def pk_ok_def)
  moreover have "ra_workflow_uuid ` set ?rows \<subseteq> insert wid (ra_workflow_uuid ` set (workflow_read_audience db))"
    by (auto simp: upsert_def set_update_where)
  then have "ra_workflow_uuid ` set ?rows \<subseteq> ws_workflow_uuid ` set (workflow_status db)"
    by (rule order_trans) (use "2.prems"(1) wf in \<open>simp add: db_inv_def fk_ok_def Let_def lookup_by_eq_None\<close>)
  ultimately have "db_inv (db\<lparr>workflow_read_audience := ?rows\<rparr>)"
    using "2.prems"(1) by (simp add: db_inv_def pk_ok_def fk_ok_def Let_def)
  then show ?case using "2.IH" [OF refl wf] "2.prems"(2) wf by (simp add: Let_def)
qed simp

section \<open>Who may deliver, and what a delivery does\<close>

abbreviation active_status :: "WorkflowStatusType \<Rightarrow> bool" where
  "active_status st \<equiv> st = WorkflowStatusPending \<or> st = WorkflowStatusEnqueued \<or> st = WorkflowStatusDelayed"

lemma delivered_iff:
  "delivery_outcome now inp st db = GateDelivered \<longleftrightarrow>
     (\<exists>g. find_gate (di_WorkflowID inp) (di_Gate inp) db = Some g \<and> ga_open g \<and>
          \<not> sql_le (ga_expires_at_epoch_ms g) now) \<and> active_status st \<and> audienceMatches inp db"
  by (auto simp: delivery_outcome_def gate_check_def Let_def split: option.splits)

lemma outcome_cases: "delivery_outcome now inp st db \<in> {GateDelivered, GateRejectedClosed, GateRejectedAudience}"
  by (auto simp: delivery_outcome_def gate_check_def Let_def split: option.splits)

lemma gate_message_sent:
  assumes "Send now wakeNow [] (gate_message mid inp (Some m) ser) db = Inr ((), db')"
    and "mid \<notin> nt_message_uuid ` set (notifications db)"
  shows "notifications db' = notifications db @
    [\<lparr>nt_destination_uuid = di_WorkflowID inp, nt_topic = GateTopic (di_Gate inp), nt_message = m,
      nt_created_at_epoch_ms = UnixMilli now, nt_message_uuid = mid, nt_serialization = Some ser, nt_consumed = False\<rparr>]"
proof -
  have "\<not> exists_where (\<lambda>r. nt_message_uuid r = mid) (notifications db)" using assms(2) by auto
  then show ?thesis using assms(1)
    by (auto simp: Send_def Let_def gate_message_def message_uuid_def send_topic_def GateTopic_def wake_receiver_def
        simp del: exists_where_iff split: if_splits)
qed


lemma inbox_where_gate:
  assumes "ga_org g = Some (di_Org inp)" and "gate_key g = (di_WorkflowID inp, di_Gate inp)"
    and "list_all (\<lambda>r. gu_principal_type r \<noteq> GatePrincipalInitiator) (gate_audience (di_WorkflowID inp) (di_Gate inp) db)"
  shows "inbox_where now (di_Org inp) (di_Subject inp) (di_Groups inp) db g \<longleftrightarrow>
    ga_open g \<and> \<not> sql_le (ga_expires_at_epoch_ms g) now \<and> audienceMatches inp db"
proof -
  have "ga_expires_at_epoch_ms g = None \<or> sql_gt (ga_expires_at_epoch_ms g) now \<longleftrightarrow> \<not> sql_le (ga_expires_at_epoch_ms g) now"
    by (cases "ga_expires_at_epoch_ms g") auto
  moreover have "principalMatch (di_Subject inp) (di_Groups inp) (gu_principal_type a) (gu_principal a) \<longleftrightarrow>
      admits (di_Subject inp) (di_Groups inp) a"
    if "a \<in> set (gate_audience (di_WorkflowID inp) (di_Gate inp) db)" for a
    using that assms(3) by (auto simp: principalMatch_def admits_def list_all_iff)
  ultimately show ?thesis using assms(1,2)
    by (auto simp: inbox_where_def audienceMatches_def gate_audience_def Let_def)
qed


lemma DeliverToGate_delivers:
  assumes "find_wf (di_WorkflowID inp) db = Some w" and "delivery_outcome (UnixMilli (de_now e)) inp (ws_status w) db = GateDelivered"
    and "find_wf (di_WorkflowID inp) (de_others e db) \<noteq> None"
    and "de_messageID e \<notin> nt_message_uuid ` set (notifications (de_others e db))"
    and "de_deliveryID e \<notin> gd_delivery_uuid ` set (workflow_gate_deliveries (de_others e db))"
  obtains db' where "DeliverToGate e inp (Some m) ser db = Inr ((GateDelivered, de_deliveryID e), db')"
    and "workflow_gates db' = workflow_gates (de_others e db)"
    and "workflow_gate_audience db' = workflow_gate_audience (de_others e db)"
    and "find_wf (di_WorkflowID inp) db' \<noteq> None"
    and "notifications db' = notifications (de_others e db) @
      [\<lparr>nt_destination_uuid = di_WorkflowID inp, nt_topic = GateTopic (di_Gate inp), nt_message = m,
        nt_created_at_epoch_ms = UnixMilli (de_sendNow e), nt_message_uuid = de_messageID e,
        nt_serialization = Some ser, nt_consumed = False\<rparr>]"
    and "workflow_gate_deliveries db' = workflow_gate_deliveries (de_others e db) @
      [delivery_row (de_sha256_hex e) (de_now e) (de_deliveryID e) (de_messageID e) inp (Some m) GateDelivered]"
proof -
  have fresh: "\<not> exists_where (\<lambda>r. nt_message_uuid r = de_messageID e) (notifications (de_others e db))"
    using assms(4) unfolding exists_where_iff by (metis imageI)
  obtain db1 where db1: "Send (de_sendNow e) (de_wakeNow e) [] (gate_message (de_messageID e) inp (Some m) ser) (de_others e db) = Inr ((), db1)"
    and keep: "workflow_gates db1 = workflow_gates (de_others e db)" "workflow_gate_audience db1 = workflow_gate_audience (de_others e db)"
      "find_wf (di_WorkflowID inp) db1 \<noteq> None" "workflow_gate_deliveries db1 = workflow_gate_deliveries (de_others e db)"
    using assms(3) fresh by (auto simp: Send_def Let_def gate_message_def message_uuid_def wake_receiver_def wake_rcv.find
        simp del: exists_where_iff)
  let ?row = "delivery_row (de_sha256_hex e) (de_now e) (de_deliveryID e) (de_messageID e) inp (Some m) GateDelivered"
  have "insert_all ''failed to record delivery: '' gd_delivery_uuid [?row] (workflow_gate_deliveries db1) =
      Inr (workflow_gate_deliveries db1 @ [?row])"
    by (rule insert_all_fresh) (use assms(5) keep(4) in \<open>auto simp: delivery_row_def rev_image_eqI\<close>)
  then have "DeliverToGate e inp (Some m) ser db =
      Inr ((GateDelivered, de_deliveryID e), db1\<lparr>workflow_gate_deliveries := workflow_gate_deliveries db1 @ [?row]\<rparr>)"
    using assms(1,2) db1 keep(3) by (simp add: DeliverToGate_def Let_def)
  from that [OF this] show thesis using keep gate_message_sent [OF db1 assms(4)] by simp
qed

lemma OpenGate_opens:
  assumes "OpenGate now wid sid g db = Inr ((), db')"
  obtains row org where "find_gate wid (gs_Name g) db' = Some row" and "ga_open row"
    and "ga_expires_at_epoch_ms row = map_option UnixMilli (gs_ExpiresAt g)"
    and "gate_audience wid (gs_Name g) db' = audience_rows wid org g"
    and "workflow_status db' = workflow_status db" and "notifications db' = notifications db"
    and "workflow_gate_deliveries db' = workflow_gate_deliveries db"
  using assms
proof (rule OpenGate_E)
  fix org
  let ?new = "opened_gate now wid sid g org"
  assume db': "db' = db\<lparr>workflow_gates := upsert gate_key ?new (reopen_set ?new) (workflow_gates db),
          workflow_gate_audience := delete_where (\<lambda>r. gu_workflow_uuid r = wid \<and> gu_gate r = gs_Name g)
            (workflow_gate_audience db) @ audience_rows wid org g\<rparr>"
  have "find_gate wid (gs_Name g) db' = Some (case find_gate wid (gs_Name g) db of None \<Rightarrow> ?new | Some r \<Rightarrow> reopen_set ?new r)"
    unfolding db' by (simp add: lookup_by_upsert del: prod.inject)
  moreover have "gate_audience wid (gs_Name g) db' = audience_rows wid org g"
    using audience_rows_gate by (auto simp: db' gate_audience_def delete_where_def filter_empty_conv intro!: filter_True)
  ultimately show thesis
    by (intro that) (auto simp: db' reopen_set_def opened_gate_def split: option.splits)
qed

definition spec_admits :: "string \<Rightarrow> string list \<Rightarrow> GatePrincipal list \<Rightarrow> bool" where
  "spec_admits subject groups ps =
     (list_ex (\<lambda>p. gp_Type p = GatePrincipalAll \<or> (gp_Type p = GatePrincipalUser \<and> gp_Principal p = subject) \<or>
        (gp_Type p = GatePrincipalGroup \<and> gp_Principal p \<in> set groups)) ps \<and>
      list_all (\<lambda>p. \<not> (gp_Type p = GatePrincipalExcept \<and> gp_Principal p = subject)) ps)"

lemma audience_rows_admit:
  "gate_audience (di_WorkflowID inp) (di_Gate inp) db = audience_rows wid org g \<Longrightarrow>
     audienceMatches inp db = spec_admits (di_Subject inp) (di_Groups inp) (gs_Audience g)"
  by (auto simp: audienceMatches_def Let_def spec_admits_def audience_rows_def admits_def excludes_def list_ex_iff list_all_iff)

lemma closed_gate_rejects:
  assumes "find_gate (di_WorkflowID inp) (di_Gate inp) db = Some r" and "\<not> ga_open r"
    and "DeliverToGate e inp enc ser db = Inr ((outcome, did), db')"
  shows "outcome = GateRejectedClosed"
  using assms(3) by (rule DeliverToGate_E) (simp add: delivery_outcome_def gate_check_def Let_def assms(1,2))

lemma order_by_Nil_iff: "order_by k rows = [] \<longleftrightarrow> rows = []"
  by (metis length_0_conv length_order_by(1))

lemma pending_messages_empty:
  "pending_messages wid topic db = [] \<longleftrightarrow>
     filter (\<lambda>r. nt_destination_uuid r = wid \<and> nt_topic r = topic \<and> \<not> nt_consumed r) (notifications db) = []"
  by (simp add: pending_messages_def order_by_Nil_iff)

lemma pending_message_single:
  assumes "pending_messages wid topic db = []" and "notifications db' = notifications db @ [n]"
    and "nt_destination_uuid n = wid" and "nt_topic n = topic" and "\<not> nt_consumed n"
  shows "pending_messages wid topic db' = [n]"
proof -
  have "filter (\<lambda>r. nt_destination_uuid r = wid \<and> nt_topic r = topic \<and> \<not> nt_consumed r) (notifications db') = [n]"
    using assms unfolding pending_messages_empty by simp
  then show ?thesis by (simp add: pending_messages_def order_by_def)
qed


text \<open>
  C34: A delivery never looks at the caller's organisation: whatever a caller may deliver, a caller
  with the same subject and groups from any other organisation may deliver too, although the inbox
  and the read check are scoped to one.
\<close>

theorem delivery_crosses_organisations:
  assumes "DeliverToGate e inp (Some m) ser db = Inr ((GateDelivered, did), db')"
  shows "\<exists>db''. DeliverToGate e (inp\<lparr>di_Org := org\<rparr>) (Some m) ser db = Inr ((GateDelivered, did), db'')"
proof -
  have "gate_message mid (inp\<lparr>di_Org := org\<rparr>) (Some m) ser = gate_message mid inp (Some m) ser" for mid
    by (simp add: gate_message_def)
  moreover have "delivery_outcome now (inp\<lparr>di_Org := org\<rparr>) st db = delivery_outcome now inp st db" for now st
    by (simp add: delivery_outcome_def audienceMatches_def Let_def)
  ultimately show ?thesis using assms
    by (auto simp: DeliverToGate_def Let_def insert_all_def delivery_row_def split: option.splits sum.splits if_splits)
qed

text \<open>
  A delivery and the receive that closes the gate may race: if the close commits between the
  checks and the writes of a delivery, the delivery is still recorded as delivered and its message
  is queued, on a gate that is closed.
\<close>

lemma delivery_races_with_close:
  assumes "find_wf (di_WorkflowID inp) db = Some w"
    and "delivery_outcome (UnixMilli (de_now e)) inp (ws_status w) db = GateDelivered"
    and "de_others e = (\<lambda>d. snd (CloseGate t (di_WorkflowID inp) (di_Gate inp) None d))"
    and "de_messageID e \<notin> nt_message_uuid ` set (notifications db)"
    and "de_deliveryID e \<notin> gd_delivery_uuid ` set (workflow_gate_deliveries db)"
  shows "\<exists>db' g. DeliverToGate e inp (Some m) ser db = Inr ((GateDelivered, de_deliveryID e), db') \<and>
    find_gate (di_WorkflowID inp) (di_Gate inp) db' = Some g \<and> \<not> ga_open g \<and>
    HasUnconsumedNotification (di_WorkflowID inp) (GateTopic (di_Gate inp)) db'"
proof -
  have others: "notifications (de_others e db) = notifications db" "workflow_status (de_others e db) = workflow_status db"
      "workflow_gate_deliveries (de_others e db) = workflow_gate_deliveries db"
    by (simp_all add: assms(3) CloseGate_def Let_def)
  obtain g where g: "find_gate (di_WorkflowID inp) (di_Gate inp) db = Some g" using assms(2) by (auto simp: delivered_iff)
  have gate: "find_gate (di_WorkflowID inp) (di_Gate inp) (de_others e db) = Some (g\<lparr>ga_open := False, ga_closed_at_epoch_ms := Some (UnixMilli t)\<rparr>)"
    using g lookup_by_SomeD [OF g] by (simp add: assms(3) CloseGate_def Let_def lookup_by_update_where)
  have pre: "find_wf (di_WorkflowID inp) (de_others e db) \<noteq> None"
      "de_messageID e \<notin> nt_message_uuid ` set (notifications (de_others e db))"
      "de_deliveryID e \<notin> gd_delivery_uuid ` set (workflow_gate_deliveries (de_others e db))"
    using assms(1,4,5) others by simp_all
  obtain db' where del: "DeliverToGate e inp (Some m) ser db = Inr ((GateDelivered, de_deliveryID e), db')"
    and gates: "workflow_gates db' = workflow_gates (de_others e db)"
    and n: "HasUnconsumedNotification (di_WorkflowID inp) (GateTopic (di_Gate inp)) db'"
    by (rule DeliverToGate_delivers [OF assms(1,2) pre, of m ser]) (simp add: HasUnconsumedNotification_def GateTopic_def)
  show ?thesis by (intro exI conjI, rule del, unfold gates, rule gate) (simp_all add: n)
qed

section \<open>A gate with an approver, a group and an exclusion\<close>

definition sample_spec :: GateSpec where
  "sample_spec = \<lparr>gs_Name = ''ok'', gs_Org = ''acme'',
     gs_Audience = [\<lparr>gp_Type = ''user'', gp_Principal = ''ann''\<rparr>, \<lparr>gp_Type = ''group'', gp_Principal = ''ops''\<rparr>,
       \<lparr>gp_Type = ''except'', gp_Principal = ''bob''\<rparr>], gs_ExpiresAt = Some 9000000\<rparr>"

definition sample_waiting :: sysdb where
  "sample_waiting = empty_sysdb\<lparr>workflow_status := [default_wf_row ''w'' WorkflowStatusPending 0]\<rparr>"

definition sample_gated :: sysdb where
  "sample_gated = (case OpenGate 1000000 ''w'' 4 sample_spec sample_waiting of Inr (_, db) \<Rightarrow> db | Inl _ \<Rightarrow> empty_sysdb)"

definition sample_delivery :: "string \<Rightarrow> unit DeliverInput" where
  "sample_delivery subject = \<lparr>di_WorkflowID = ''w'', di_Gate = ''ok'', di_Subject = subject, di_Org = ''acme'',
     di_Groups = [''ops''], di_ClaimsJSON = ''{}'', di_Payload = ()\<rparr>"

definition sample_delivery_env :: delivery_env where
  "sample_delivery_env = \<lparr>de_sha256_hex = id, de_others = id, de_now = 2000000, de_sendNow = 2000000,
     de_wakeNow = 2000000, de_deliveryID = ''d1'', de_messageID = ''m1''\<rparr>"

lemmas sample_gate_defs = sample_gated_def sample_spec_def sample_waiting_def sample_delivery_def sample_delivery_env_def
  OpenGate_def gate_org_def audience_rows_def opened_gate_def insert_all_def upsert_def empty_sysdb_def principal_defs

lemma sample_gated_eq:
  "sample_gated = sample_waiting\<lparr>workflow_gates := [opened_gate 1000000 ''w'' 4 sample_spec ''acme''],
     workflow_gate_audience := audience_rows ''w'' ''acme'' sample_spec\<rparr>"
  by (simp add: sample_gate_defs)

lemmas sample_gate_simps = sample_gated_eq sample_spec_def sample_waiting_def sample_delivery_def sample_delivery_env_def
  audience_rows_def opened_gate_def empty_sysdb_def principal_defs delivery_outcome_def gate_check_def audienceMatches_def
  gate_audience_def admits_def excludes_def UnixMilli_def Let_def

lemma sample_outcomes:
  "delivery_outcome 2 (sample_delivery ''ann'') WorkflowStatusPending sample_gated = GateDelivered"
  "delivery_outcome 2 (sample_delivery ''bob'') WorkflowStatusPending sample_gated = GateRejectedAudience"
  "delivery_outcome 9 (sample_delivery ''ann'') WorkflowStatusPending sample_gated = GateRejectedClosed"
  by (simp_all add: sample_gate_simps)

lemma sample_facts:
  "find_wf ''w'' sample_gated = Some (default_wf_row ''w'' WorkflowStatusPending 0)" "notifications sample_gated = []"
  "workflow_gate_deliveries sample_gated = []" "workflow_read_audience sample_gated = []"
  "find_wf ''w'' sample_waiting = Some (default_wf_row ''w'' WorkflowStatusPending 0)" "notifications sample_waiting = []"
  "workflow_gate_deliveries sample_waiting = []" "OpenGate 1000000 ''w'' 4 sample_spec sample_waiting = Inr ((), sample_gated)"
  "di_WorkflowID (sample_delivery s) = ''w''" "di_Gate (sample_delivery s) = ''ok''" "di_Org (sample_delivery s) = ''acme''"
  "de_others sample_delivery_env = id" "de_now sample_delivery_env = 2000000" "de_messageID sample_delivery_env = ''m1''"
  "de_deliveryID sample_delivery_env = ''d1''" "gs_Name sample_spec = ''ok''"
  by (simp_all add: sample_gate_defs)

lemma sample_delivers:
  "\<exists>db'. DeliverToGate sample_delivery_env (sample_delivery ''ann'') (Some ''yes'') ''json'' sample_gated =
     Inr ((GateDelivered, ''d1''), db')"
proof (rule DeliverToGate_delivers [of "sample_delivery ''ann''" sample_gated "default_wf_row ''w'' WorkflowStatusPending 0"
      sample_delivery_env "''yes''" "''json''"])
  fix db'
  assume "DeliverToGate sample_delivery_env (sample_delivery ''ann'') (Some ''yes'') ''json'' sample_gated =
     Inr ((GateDelivered, de_deliveryID sample_delivery_env), db')"
  then show ?thesis by (simp add: sample_facts)
qed (simp_all add: sample_facts sample_outcomes UnixMilli_def)




theorem delivery_crosses_organisations_witness:
  "\<exists>db'. DeliverToGate sample_delivery_env ((sample_delivery ''ann'')\<lparr>di_Org := ''evil''\<rparr>) (Some ''yes'') ''json'' sample_gated =
     Inr ((GateDelivered, ''d1''), db') \<and> \<not> ReadAllowed ''w'' ''evil'' ''ann'' [''ops''] sample_gated \<and>
     ListOpenGatesFor 2000000 ''evil'' ''ann'' [''ops''] 10 sample_gated = []"
proof -
  have "\<not> ReadAllowed ''w'' ''evil'' ''ann'' [''ops''] sample_gated"
    "ListOpenGatesFor 2000000 ''evil'' ''ann'' [''ops''] 10 sample_gated = []"
    by (simp_all add: ReadAllowed_def ListOpenGatesFor_def inbox_where_def org_visible_def sample_gated_eq sample_waiting_def
        audience_rows_def opened_gate_def empty_sysdb_def sample_spec_def order_by_desc_def limit_rows_def)
  moreover obtain db' where "DeliverToGate sample_delivery_env (sample_delivery ''ann'') (Some ''yes'') ''json'' sample_gated =
     Inr ((GateDelivered, ''d1''), db')" using sample_delivers by blast
  from delivery_crosses_organisations [OF this, of "''evil''"] obtain db'' where
    "DeliverToGate sample_delivery_env ((sample_delivery ''ann'')\<lparr>di_Org := ''evil''\<rparr>) (Some ''yes'') ''json'' sample_gated =
     Inr ((GateDelivered, ''d1''), db'')" ..
  ultimately show ?thesis by blast
qed

lemma delivery_races_with_close_witness:
  "\<exists>db' g. DeliverToGate (sample_delivery_env\<lparr>de_others := (\<lambda>d. snd (CloseGate 1500000 ''w'' ''ok'' None d))\<rparr>)
      (sample_delivery ''ann'') (Some ''yes'') ''json'' sample_gated = Inr ((GateDelivered, ''d1''), db') \<and>
    find_gate ''w'' ''ok'' db' = Some g \<and> \<not> ga_open g"
  using delivery_races_with_close [of "sample_delivery ''ann''" sample_gated "default_wf_row ''w'' WorkflowStatusPending 0"
      "sample_delivery_env\<lparr>de_others := (\<lambda>d. snd (CloseGate 1500000 ''w'' ''ok'' None d))\<rparr>" 1500000 "''yes''" "''json''"]
  by (simp add: sample_facts sample_outcomes UnixMilli_def) blast

end
