(* ===== verification/Registry.thy ===== *)
theory Registry
  imports Queues
begin

text \<open>
  The queue registry: the \<^verbatim>\<open>queues\<close> table of \<^verbatim>\<open>src/dbos/internal/sysdb/system_database.go\<close> and the queue
  handles of \<^verbatim>\<open>src/dbos/queue.go\<close>. Durations are stored as \<^verbatim>\<open>float64\<close> seconds; every floating-point
  operation is the exact one on the reals followed by the rounding \<open>rnd\<close>, an argument of the
  definitions, so that the theorems hold for every rounding as accurate as that of IEEE doubles.
\<close>

section \<open>Seconds as float64\<close>

definition Seconds :: "(real \<Rightarrow> real) \<Rightarrow> duration \<Rightarrow> real" where
  "Seconds rnd d =
     (let sec = sgn d * (\<bar>d\<bar> div Second);
          nsec = sgn d * (\<bar>d\<bar> mod Second)
      in rnd (rnd (of_int sec) + rnd (rnd (of_int nsec) / 1000000000)))"

definition ofSeconds :: "(real \<Rightarrow> real) \<Rightarrow> real \<Rightarrow> duration" where
  "ofSeconds rnd x = Duration (rnd (x * 1000000000))"

section \<open>The queues table\<close>

definition DefaultBasePollingInterval :: duration where
  "DefaultBasePollingInterval = 1 * Second"

record UpsertQueueDBInput =
  uq_Queue :: QueueConfig
  uq_UpdateExisting :: bool
  uq_ApplicationName :: "string option"

abbreviation find_queue :: "string \<Rightarrow> sysdb \<Rightarrow> queue_row option" where
  "find_queue name db \<equiv> lookup_by qu_name name (queues db)"

definition scanQueueRow :: "(real \<Rightarrow> real) \<Rightarrow> queue_row \<Rightarrow> QueueConfig" where
  "scanQueueRow rnd r =
     (let base = ofSeconds rnd (qu_polling_interval_sec r) in
      \<lparr>q_Name = qu_name r, q_WorkerConcurrency = qu_worker_concurrency r, q_GlobalConcurrency = qu_concurrency r,
       q_PriorityEnabled = qu_priority_enabled r,
       q_RateLimit = map_option (\<lambda>limit. \<lparr>rl_Limit = limit,
           rl_Period = (case qu_rate_limit_period_sec r of None \<Rightarrow> 0 | Some sec \<Rightarrow> ofSeconds rnd sec)\<rparr>) (qu_rate_limit_max r),
       q_PartitionQueue = qu_partition_queue r,
       q_BasePollingInterval = (if base \<le> 0 then DefaultBasePollingInterval else base),
       q_MaxPollingInterval = 0, q_DatabaseBacked = True, q_ApplicationName = derefStr (qu_application_name r)\<rparr>)"

definition GetQueue :: "(real \<Rightarrow> real) \<Rightarrow> string \<Rightarrow> sysdb \<Rightarrow> QueueConfig option" where
  "GetQueue rnd name db = map_option (scanQueueRow rnd) (find_queue name db)"

text \<open>The argument is \<open>None\<close> for a nil slice.\<close>

definition ListQueues :: "SysDB \<Rightarrow> (real \<Rightarrow> real) \<Rightarrow> string list option \<Rightarrow> sysdb \<Rightarrow> QueueConfig list" where
  "ListQueues s rnd applicationNames db =
     map (scanQueueRow rnd)
       (case observabilityNames s applicationNames of
          None \<Rightarrow> queues db
        | Some names \<Rightarrow>
            if names = [] then queues db
            else filter (\<lambda>r. sql_in (qu_application_name r) names \<or> qu_application_name r = None) (queues db))"

definition DeleteQueue :: "string \<Rightarrow> sysdb \<Rightarrow> sysdb" where
  "DeleteQueue name db = db\<lparr>queues := delete_where (\<lambda>r. qu_name r = name) (queues db)\<rparr>"

definition polling_sec :: "(real \<Rightarrow> real) \<Rightarrow> QueueConfig \<Rightarrow> real" where
  "polling_sec rnd q =
     (let pollingSec = Seconds rnd (q_BasePollingInterval q) in
      if pollingSec \<le> 0 then Seconds rnd DefaultBasePollingInterval else pollingSec)"

definition queue_insert :: "(real \<Rightarrow> real) \<Rightarrow> instant \<Rightarrow> string \<Rightarrow> QueueConfig \<Rightarrow> string option \<Rightarrow> queue_row" where
  "queue_insert rnd now uuid q own =
     \<lparr>qu_queue_id = uuid, qu_name = q_Name q, qu_concurrency = q_GlobalConcurrency q,
      qu_worker_concurrency = q_WorkerConcurrency q, qu_rate_limit_max = map_option rl_Limit (q_RateLimit q),
      qu_rate_limit_period_sec = map_option (\<lambda>l. Seconds rnd (rl_Period l)) (q_RateLimit q),
      qu_priority_enabled = q_PriorityEnabled q, qu_partition_queue = q_PartitionQueue q,
      qu_polling_interval_sec = polling_sec rnd q, qu_created_at = UnixMilli now, qu_updated_at = UnixMilli now,
      qu_application_name = own\<rparr>"

definition queue_set :: "(real \<Rightarrow> real) \<Rightarrow> instant \<Rightarrow> QueueConfig \<Rightarrow> queue_row \<Rightarrow> queue_row" where
  "queue_set rnd now q r =
     r\<lparr>qu_concurrency := q_GlobalConcurrency q, qu_worker_concurrency := q_WorkerConcurrency q,
       qu_rate_limit_max := map_option rl_Limit (q_RateLimit q),
       qu_rate_limit_period_sec := map_option (\<lambda>l. Seconds rnd (rl_Period l)) (q_RateLimit q),
       qu_priority_enabled := q_PriorityEnabled q, qu_partition_queue := q_PartitionQueue q,
       qu_polling_interval_sec := polling_sec rnd q, qu_updated_at := UnixMilli now\<rparr>"

definition updateQueueRow :: "(real \<Rightarrow> real) \<Rightarrow> instant \<Rightarrow> QueueConfig \<Rightarrow> sysdb \<Rightarrow> (unit \<times> sysdb) res" where
  "updateQueueRow rnd now q db =
     (if count_where (\<lambda>r. qu_name r = q_Name q) (queues db) = 0
      then Inl (ErrorText (''queue '' @ q_Name q @ '' does not exist''))
      else Inr ((), db\<lparr>queues := update_where (\<lambda>r. qu_name r = q_Name q) (queue_set rnd now q) (queues db)\<rparr>))"

definition queueOwner :: "string \<Rightarrow> string option \<Rightarrow> sysdb \<Rightarrow> string option res" where
  "queueOwner name own db =
     resolveRowOwner (map_option qu_application_name (find_queue name db)) name own ''Queue''"

definition claim_queue :: "string \<Rightarrow> string option \<Rightarrow> sysdb \<Rightarrow> sysdb" where
  "claim_queue name own db =
     db\<lparr>queues := update_where (\<lambda>r. qu_name r = name)
       (\<lambda>r. r\<lparr>qu_application_name := coalesce (qu_application_name r) own\<rparr>) (queues db)\<rparr>"

definition UpsertQueue ::
  "(real \<Rightarrow> real) \<Rightarrow> instant \<Rightarrow> instant \<Rightarrow> string \<Rightarrow> UpsertQueueDBInput \<Rightarrow> sysdb \<Rightarrow> (bool \<times> sysdb) res" where
  "UpsertQueue rnd now updNow uuid inp db =
     (let q = uq_Queue inp in
      case queueOwner (q_Name q) (uq_ApplicationName inp) db of
        Inl e \<Rightarrow> Inl e
      | Inr own \<Rightarrow>
          let inserted = (find_queue (q_Name q) db = None);
              db1 = (if inserted then db\<lparr>queues := queues db @ [queue_insert rnd now uuid q own]\<rparr> else db);
              updated =
                (if \<not> inserted \<and> uq_UpdateExisting inp
                 then map_sum id (\<lambda>(_, db2). if own \<noteq> None then claim_queue (q_Name q) own db2 else db2)
                        (updateQueueRow rnd updNow q db1)
                 else Inr db1)
          in case updated of
               Inl e \<Rightarrow> Inl e
             | Inr db2 \<Rightarrow>
                 if inserted then Inr (True, db2)
                 else map_sum id (\<lambda>_. (False, db2)) (queueOwner (q_Name q) (uq_ApplicationName inp) db2))"

definition UpdateQueueConfig ::
  "(real \<Rightarrow> real) \<Rightarrow> instant \<Rightarrow> string \<Rightarrow> (QueueConfig \<Rightarrow> QueueConfig res) \<Rightarrow> sysdb \<Rightarrow> (QueueConfig \<times> sysdb) res" where
  "UpdateQueueConfig rnd now name mutate db =
     (case GetQueue rnd name db of
        None \<Rightarrow> Inl (ErrorText (''queue '' @ name @ '' no longer exists''))
      | Some q \<Rightarrow>
          (case mutate q of
             Inl e \<Rightarrow> Inl e
           | Inr q' \<Rightarrow> map_sum id (\<lambda>(_, db'). (q', db')) (updateQueueRow rnd now q' db)))"

section \<open>Queue handles\<close>

datatype QueueConflictResolution = QueueConflictUpdateIfLatestVersion | QueueConflictAlwaysUpdate | QueueConflictNeverUpdate

definition DEFAULT_MAX_POLLING_INTERVAL :: duration where
  "DEFAULT_MAX_POLLING_INTERVAL = 120 * Second"

record workflowQueue =
  wq_Name :: string
  wq_WorkerConcurrency :: "int option"
  wq_GlobalConcurrency :: "int option"
  wq_PriorityEnabled :: bool
  wq_RateLimit :: "RateLimiter option"
  wq_PartitionQueue :: bool
  wq_ApplicationName :: string
  wq_basePollingInterval :: duration
  wq_maxPollingInterval :: duration
  wq_databaseBacked :: bool
  wq_onConflict :: "QueueConflictResolution option"

definition toConfig :: "workflowQueue \<Rightarrow> QueueConfig" where
  "toConfig q = \<lparr>q_Name = wq_Name q, q_WorkerConcurrency = wq_WorkerConcurrency q,
     q_GlobalConcurrency = wq_GlobalConcurrency q, q_PriorityEnabled = wq_PriorityEnabled q,
     q_RateLimit = wq_RateLimit q, q_PartitionQueue = wq_PartitionQueue q,
     q_BasePollingInterval = wq_basePollingInterval q, q_MaxPollingInterval = wq_maxPollingInterval q,
     q_DatabaseBacked = wq_databaseBacked q, q_ApplicationName = wq_ApplicationName q\<rparr>"

text \<open>The zero value of the conflict policy, which is no policy, is \<open>None\<close>.\<close>

definition queueFromConfig :: "QueueConfig \<Rightarrow> workflowQueue" where
  "queueFromConfig cfg = \<lparr>wq_Name = q_Name cfg, wq_WorkerConcurrency = q_WorkerConcurrency cfg,
     wq_GlobalConcurrency = q_GlobalConcurrency cfg, wq_PriorityEnabled = q_PriorityEnabled cfg,
     wq_RateLimit = q_RateLimit cfg, wq_PartitionQueue = q_PartitionQueue cfg,
     wq_ApplicationName = q_ApplicationName cfg, wq_basePollingInterval = q_BasePollingInterval cfg,
     wq_maxPollingInterval = q_MaxPollingInterval cfg, wq_databaseBacked = q_DatabaseBacked cfg,
     wq_onConflict = None\<rparr>"

type_synonym QueueOption = "workflowQueue \<Rightarrow> workflowQueue"

definition WithWorkerConcurrency :: "int \<Rightarrow> QueueOption" where
  "WithWorkerConcurrency concurrency q = q\<lparr>wq_WorkerConcurrency := Some concurrency\<rparr>"

definition WithGlobalConcurrency :: "int \<Rightarrow> QueueOption" where
  "WithGlobalConcurrency concurrency q = q\<lparr>wq_GlobalConcurrency := Some concurrency\<rparr>"

definition WithPriorityEnabled :: QueueOption where
  "WithPriorityEnabled q = q\<lparr>wq_PriorityEnabled := True\<rparr>"

definition WithRateLimiter :: "RateLimiter option \<Rightarrow> QueueOption" where
  "WithRateLimiter limiter q = q\<lparr>wq_RateLimit := limiter\<rparr>"

definition WithPartitionQueue :: QueueOption where
  "WithPartitionQueue q = q\<lparr>wq_PartitionQueue := True\<rparr>"

definition WithQueueBasePollingInterval :: "duration \<Rightarrow> QueueOption" where
  "WithQueueBasePollingInterval interval q = q\<lparr>wq_basePollingInterval := interval\<rparr>"

definition WithQueueApplicationName :: "string \<Rightarrow> QueueOption" where
  "WithQueueApplicationName name q = q\<lparr>wq_ApplicationName := name\<rparr>"

definition WithQueueOnConflict :: "QueueConflictResolution \<Rightarrow> QueueOption" where
  "WithQueueOnConflict policy q = q\<lparr>wq_onConflict := Some policy\<rparr>"

definition validateQueueConfig :: "workflowQueue \<Rightarrow> unit res" where
  "validateQueueConfig q =
     (let bad = (\<lambda>m. Inl (NewInvalidOptionError (''queue '' @ wq_Name q @ '': '' @ m))) in
      if (case (wq_WorkerConcurrency q, wq_GlobalConcurrency q) of (Some w, Some g) \<Rightarrow> g < w | _ \<Rightarrow> False)
      then bad ''concurrency must be greater than or equal to worker_concurrency''
      else if wq_basePollingInterval q \<le> 0 then bad ''polling interval must be positive''
      else case wq_RateLimit q of
             None \<Rightarrow> Inr ()
           | Some l \<Rightarrow>
               if rl_Limit l \<le> 0 then bad ''rate limiter limit must be positive''
               else if rl_Period l \<le> 0 then bad ''rate limiter period must be positive''
               else Inr ())"

text \<open>\<^verbatim>\<open>requestedOwner\<close> of \<^verbatim>\<open>src/dbos/dbos.go\<close>; the application of a context is that of its database handle.\<close>

definition requestedOwner :: "SysDB \<Rightarrow> string \<Rightarrow> string option" where
  "requestedOwner s explicit = (if explicit \<noteq> [] then Some explicit else owner s)"

definition new_queue :: "string \<Rightarrow> QueueOption list \<Rightarrow> workflowQueue" where
  "new_queue name options =
     fold (\<lambda>option q. option q) options
       \<lparr>wq_Name = name, wq_WorkerConcurrency = None, wq_GlobalConcurrency = None, wq_PriorityEnabled = False,
        wq_RateLimit = None, wq_PartitionQueue = False, wq_ApplicationName = [],
        wq_basePollingInterval = DefaultBasePollingInterval, wq_maxPollingInterval = DEFAULT_MAX_POLLING_INTERVAL,
        wq_databaseBacked = True, wq_onConflict = Some QueueConflictUpdateIfLatestVersion\<rparr>"

definition resolve_conflict :: "SysDB \<Rightarrow> string \<Rightarrow> workflowQueue \<Rightarrow> sysdb \<Rightarrow> bool res" where
  "resolve_conflict s applicationVersion q db =
     (case wq_onConflict q of
        Some QueueConflictAlwaysUpdate \<Rightarrow> Inr True
      | Some QueueConflictNeverUpdate \<Rightarrow> Inr False
      | _ \<Rightarrow>
          (case GetLatestApplicationVersion s [] db of
             Inl e \<Rightarrow>
               if errors_Is ErrorCodeNoApplicationVersions e then Inr True
               else Inl (Errorf (''failed to look up latest application version for queue '' @ wq_Name q @ '': '') e)
           | Inr latest \<Rightarrow> Inr (vi_Name latest = applicationVersion)))"

definition RegisterQueue ::
  "SysDB \<Rightarrow> (real \<Rightarrow> real) \<Rightarrow> string \<Rightarrow> instant \<Rightarrow> instant \<Rightarrow> string \<Rightarrow> string \<Rightarrow> QueueOption list \<Rightarrow> sysdb \<Rightarrow>
   (workflowQueue \<times> sysdb) res" where
  "RegisterQueue s rnd applicationVersion now updNow uuid name options db =
     (if name = InternalQueueName
      then Inl (NewInvalidOptionError (''cannot register queue '' @ [CHR 0x22] @ name @ [CHR 0x22] @ '': the name is reserved for the DBOS internal queue''))
      else
        let q = new_queue name options in
        case validateQueueConfig q of
          Inl e \<Rightarrow> Inl e
        | Inr _ \<Rightarrow>
            (case resolve_conflict s applicationVersion q db of
               Inl e \<Rightarrow> Inl e
             | Inr updateExisting \<Rightarrow>
                 (case UpsertQueue rnd now updNow uuid
                    \<lparr>uq_Queue = toConfig q, uq_UpdateExisting = updateExisting,
                     uq_ApplicationName = requestedOwner s (wq_ApplicationName q)\<rparr> db of
                    Inl e \<Rightarrow> Inl e
                  | Inr (inserted, db') \<Rightarrow>
                      (case GetQueue rnd name db' of
                         None \<Rightarrow> Inl (ErrorText (''queue '' @ name @ '' missing from database after upsert''))
                       | Some persisted \<Rightarrow> Inr (queueFromConfig persisted, db')))))"

definition RetrieveQueue :: "(real \<Rightarrow> real) \<Rightarrow> string \<Rightarrow> sysdb \<Rightarrow> workflowQueue res" where
  "RetrieveQueue rnd name db =
     (case GetQueue rnd name db of
        None \<Rightarrow> Inl (NewQueueNotFoundError name)
      | Some cfg \<Rightarrow> Inr (queueFromConfig cfg))"

text \<open>
  \<^verbatim>\<open>applyConfigChange\<close> on a \<^verbatim>\<open>dbosContext\<close>: the first result is the receiver afterwards.
\<close>

definition applyConfigChange ::
  "(real \<Rightarrow> real) \<Rightarrow> instant \<Rightarrow> (workflowQueue \<Rightarrow> workflowQueue) \<Rightarrow> workflowQueue \<Rightarrow> sysdb \<Rightarrow> (workflowQueue \<times> sysdb) res" where
  "applyConfigChange rnd now mutate q db =
     (if \<not> wq_databaseBacked q
      then Inl (ErrorText (''queue '' @ wq_Name q @
             '': configuration can only be updated on database-backed queues registered via RegisterQueue''))
      else
        case UpdateQueueConfig rnd now (wq_Name q)
               (\<lambda>fresh. let w = mutate (queueFromConfig fresh) in map_sum id (\<lambda>_. toConfig w) (validateQueueConfig w)) db of
          Inl e \<Rightarrow> Inl e
        | Inr (_, db') \<Rightarrow> Inr (mutate q, db'))"

definition SetGlobalConcurrency :: "int option \<Rightarrow> workflowQueue \<Rightarrow> workflowQueue" where
  "SetGlobalConcurrency v q = q\<lparr>wq_GlobalConcurrency := v\<rparr>"

definition SetWorkerConcurrency :: "int option \<Rightarrow> workflowQueue \<Rightarrow> workflowQueue" where
  "SetWorkerConcurrency v q = q\<lparr>wq_WorkerConcurrency := v\<rparr>"

definition SetRateLimit :: "RateLimiter option \<Rightarrow> workflowQueue \<Rightarrow> workflowQueue" where
  "SetRateLimit v q = q\<lparr>wq_RateLimit := v\<rparr>"

definition SetPriorityEnabled :: "bool \<Rightarrow> workflowQueue \<Rightarrow> workflowQueue" where
  "SetPriorityEnabled v q = q\<lparr>wq_PriorityEnabled := v\<rparr>"

definition SetPartitionQueue :: "bool \<Rightarrow> workflowQueue \<Rightarrow> workflowQueue" where
  "SetPartitionQueue v q = q\<lparr>wq_PartitionQueue := v\<rparr>"

definition SetPollingInterval :: "duration \<Rightarrow> workflowQueue \<Rightarrow> workflowQueue" where
  "SetPollingInterval v q = q\<lparr>wq_basePollingInterval := v\<rparr>"

section \<open>Durations survive the table\<close>

text \<open>
  What is used of IEEE double rounding: the relative error for magnitudes far inside the normal range, and
  exactness on integers up to \<open>2 ^ 53\<close>.
\<close>

definition half_ulp :: real where
  "half_ulp = 1 / 2 ^ 53"

definition double_rounding :: "(real \<Rightarrow> real) \<Rightarrow> bool" where
  "double_rounding rnd \<longleftrightarrow>
     (\<forall>x. 1 / 2 ^ 100 \<le> \<bar>x\<bar> \<longrightarrow> \<bar>x\<bar> \<le> 2 ^ 100 \<longrightarrow> \<bar>rnd x - x\<bar> \<le> \<bar>x\<bar> * half_ulp) \<and>
     (\<forall>n :: int. \<bar>n\<bar> \<le> 2 ^ 53 \<longrightarrow> rnd (of_int n) = of_int n)"

lemma half_ulp_bounds: "0 < half_ulp" "half_ulp < 1" "2 ^ 50 * half_ulp = 1 / 8"
  by (simp_all add: half_ulp_def)

lemma rounding_mult:
  assumes "double_rounding rnd" and "1 / 2 ^ 100 \<le> x" and "x \<le> 2 ^ 100"
  shows "x * (1 - half_ulp) \<le> rnd x" and "rnd x \<le> x * (1 + half_ulp)"
proof -
  have "0 < (1 / 2 ^ 100 :: real)" by simp
  then have "\<bar>x\<bar> = x" using assms(2) by linarith
  then have "\<bar>rnd x - x\<bar> \<le> x * half_ulp" using assms unfolding double_rounding_def by metis
  then show "x * (1 - half_ulp) \<le> rnd x" and "rnd x \<le> x * (1 + half_ulp)"
    by (simp_all add: algebra_simps abs_le_iff)
qed

lemma rounding_int: "double_rounding rnd \<Longrightarrow> \<bar>n\<bar> \<le> 2 ^ 53 \<Longrightarrow> rnd (of_int n) = of_int n"
  by (simp add: double_rounding_def)

lemma seconds_split: "of_int (d div Second) + of_int (d mod Second) / 1000000000 = (of_int d / 1000000000 :: real)"
proof -
  have "(of_int d :: real) = of_int (d div Second * Second + d mod Second)" by simp
  also have "\<dots> = of_int (d div Second) * 1000000000 + of_int (d mod Second)" by (simp only: of_int_add of_int_mult of_int_numeral)
  finally show ?thesis by simp
qed

lemma nanos_close:
  assumes "double_rounding rnd" and "0 \<le> n" and "n < Second"
  shows "of_int n / 1000000000 * (1 - half_ulp) \<le> rnd (of_int n / 1000000000)"
    and "rnd (of_int n / 1000000000) \<le> of_int n / 1000000000 * (1 + half_ulp)"
proof -
  have "of_int n / 1000000000 * (1 - half_ulp) \<le> rnd (of_int n / 1000000000) \<and>
      rnd (of_int n / 1000000000) \<le> of_int n / 1000000000 * (1 + half_ulp)"
  proof (cases "n = 0")
    case True
    then show ?thesis using rounding_int [OF assms(1), of 0] by simp
  next
    case False
    then have "(1 :: real) \<le> of_int n" "of_int n < (1000000000 :: real)" using assms(2,3) by linarith+
    then have "1 / 2 ^ 100 \<le> of_int n / (1000000000 :: real)" "of_int n / (1000000000 :: real) \<le> 2 ^ 100"
      by (simp_all add: field_simps)
    with rounding_mult [OF assms(1)] show ?thesis by blast
  qed
  then show "of_int n / 1000000000 * (1 - half_ulp) \<le> rnd (of_int n / 1000000000)"
    and "rnd (of_int n / 1000000000) \<le> of_int n / 1000000000 * (1 + half_ulp)" by blast+
qed

lemma Seconds_pos:
  assumes rnd: "double_rounding rnd" and d: "0 < d" "d \<le> 2 ^ 50"
  shows "of_int d / 1000000000 * (1 - half_ulp) ^ 2 \<le> Seconds rnd d"
    and "Seconds rnd d \<le> of_int d / 1000000000 * (1 + half_ulp) ^ 2"
proof -
  let ?sec = "d div Second" and ?nsec = "d mod Second"
  let ?q = "rnd (of_int ?nsec / 1000000000)"
  let ?x = "of_int ?sec + ?q"
  have sec: "0 \<le> ?sec" "?sec \<le> d" using d int_div_less_self [of d Second] by (simp_all add: pos_imp_zdiv_nonneg_iff)
  have "\<bar>?sec\<bar> \<le> 2 ^ 53" "\<bar>?nsec\<bar> \<le> 2 ^ 53" using sec d pos_mod_bound [of Second d] pos_mod_sign [of Second d] by auto
  then have S: "Seconds rnd d = rnd ?x"
    using d rounding_int [OF rnd] by (simp add: Seconds_def Let_def)
  note q = nanos_close [OF rnd, of ?nsec] and u = half_ulp_bounds
  have "of_int ?sec * (1 - half_ulp) \<le> of_int ?sec * 1" "of_int ?sec * 1 \<le> of_int ?sec * (1 + half_ulp)"
    using sec u by (intro mult_left_mono; simp)+
  then have x: "(of_int ?sec + of_int ?nsec / 1000000000) * (1 - half_ulp) \<le> ?x" "?x \<le> (of_int ?sec + of_int ?nsec / 1000000000) * (1 + half_ulp)"
    using q by (simp_all add: distrib_right)
  let ?r = "of_int d / 1000000000 :: real"
  have x: "?r * (1 - half_ulp) \<le> ?x" "?x \<le> ?r * (1 + half_ulp)"
    using x unfolding seconds_split by simp_all
  have r: "1 / 1000000000 \<le> ?r" "?r \<le> 2 ^ 50" using d by (simp_all add: field_simps)
  have "1 / 2 ^ 100 \<le> ?r * (1 - half_ulp)" "?r * (1 + half_ulp) \<le> 2 ^ 100"
  proof -
    have "1 / 1000000000 * (1 / 2) \<le> ?r * (1 - half_ulp)" "?r * (1 + half_ulp) \<le> 2 ^ 50 * 2"
      using r u by (intro mult_mono; simp add: half_ulp_def)+
    then show "1 / 2 ^ 100 \<le> ?r * (1 - half_ulp)" "?r * (1 + half_ulp) \<le> 2 ^ 100" by (simp_all add: order_trans)
  qed
  with x have "1 / 2 ^ 100 \<le> ?x" "?x \<le> 2 ^ 100" by linarith+
  from rounding_mult [OF rnd this] have "?x * (1 - half_ulp) \<le> rnd ?x" "rnd ?x \<le> ?x * (1 + half_ulp)" .
  moreover have "?r * (1 - half_ulp) * (1 - half_ulp) \<le> ?x * (1 - half_ulp)" "?x * (1 + half_ulp) \<le> ?r * (1 + half_ulp) * (1 + half_ulp)"
    using x u by (simp_all add: mult_right_mono)
  ultimately show "?r * (1 - half_ulp) ^ 2 \<le> Seconds rnd d" "Seconds rnd d \<le> ?r * (1 + half_ulp) ^ 2"
    unfolding S power2_eq_square mult.assoc [symmetric] by linarith+
qed

lemma cube_bounds:
  assumes "0 < (d :: real)" and "d \<le> 2 ^ 50"
  shows "d - 1 < d * (1 - half_ulp) ^ 2 * (1 - half_ulp)" and "d * (1 + half_ulp) ^ 2 * (1 + half_ulp) < d + 1"
proof -
  have du: "d * half_ulp \<le> 1 / 8" "0 \<le> d * half_ulp"
    using assms mult_right_mono [OF assms(2), of half_ulp] half_ulp_bounds by (simp_all only: less_imp_le mult_nonneg_nonneg)
  have "1 - 3 * half_ulp \<le> (1 - half_ulp) ^ 2 * (1 - half_ulp)"
    using half_ulp_bounds(1,2) by (simp add: half_ulp_def power2_eq_square)
  from mult_left_mono [OF this, of d] show "d - 1 < d * (1 - half_ulp) ^ 2 * (1 - half_ulp)"
    using assms(1) du by (simp add: algebra_simps)
  have "(1 + half_ulp) ^ 2 * (1 + half_ulp) \<le> 1 + 4 * half_ulp"
    using half_ulp_bounds(1,2) by (simp add: half_ulp_def power2_eq_square)
  from mult_left_mono [OF this, of d] show "d * (1 + half_ulp) ^ 2 * (1 + half_ulp) < d + 1"
    using assms(1) du by (simp add: algebra_simps)
qed

lemma seconds_roundtrip:
  assumes rnd: "double_rounding rnd" and d: "0 < d" "d \<le> 2 ^ 50"
  shows "ofSeconds rnd (Seconds rnd d) \<in> {d - 1, d}"
proof -
  let ?x = "Seconds rnd d * 1000000000"
  have x: "of_int d * (1 - half_ulp) ^ 2 \<le> ?x" "?x \<le> of_int d * (1 + half_ulp) ^ 2"
    using Seconds_pos [OF assms] by simp_all
  have "(of_int d :: real) \<le> of_int (2 ^ 50)" using d(2) by (simp only: of_int_le_iff)
  then have dle: "(of_int d :: real) \<le> 2 ^ 50" by (simp only: of_int_power of_int_numeral)
  have "(1 :: real) \<le> of_int d" using d by linarith
  moreover note dle
  moreover have "1 / 2 \<le> (1 - half_ulp) ^ 2" "(1 + half_ulp) ^ 2 \<le> 2" by (simp_all add: half_ulp_def power2_eq_square)
  ultimately have "1 * (1 / 2) \<le> of_int d * (1 - half_ulp) ^ 2" "of_int d * (1 + half_ulp) ^ 2 \<le> 2 ^ 50 * 2"
    using d by (intro mult_mono; simp)+
  moreover have "1 / 2 ^ 100 \<le> (1 * (1 / 2) :: real)" "2 ^ 50 * 2 \<le> (2 ^ 100 :: real)" by simp_all
  ultimately have range: "1 / 2 ^ 100 \<le> ?x" "?x \<le> 2 ^ 100" using x by (meson order_trans)+
  note y = rounding_mult [OF rnd range]
  have dpos: "0 < (of_int d :: real)" "(of_int d :: real) \<le> 2 ^ 50" using d dle by (simp_all only: of_int_0_less_iff)
  have "of_int d * (1 - half_ulp) ^ 2 * (1 - half_ulp) \<le> ?x * (1 - half_ulp)"
    "?x * (1 + half_ulp) \<le> of_int d * (1 + half_ulp) ^ 2 * (1 + half_ulp)"
    using x half_ulp_bounds by (simp_all add: mult_right_mono)
  then have "of_int d - 1 < rnd ?x" "rnd ?x < of_int d + 1" using cube_bounds [OF dpos] y by linarith+
  then have "\<lfloor>rnd ?x\<rfloor> = d - 1 \<or> \<lfloor>rnd ?x\<rfloor> = d" "0 \<le> rnd ?x" using d by linarith+
  then show ?thesis by (auto simp: ofSeconds_def Duration_def)
qed

section \<open>Registering and configuring queues\<close>

lemma find_queue_update:
  assumes "\<And>r. qu_name (f r) = qu_name r"
  shows "lookup_by qu_name n (update_where (\<lambda>r. qu_name r = name) f rows) =
    map_option (\<lambda>r. if n = name then f r else r) (lookup_by qu_name n rows)"
proof -
  have "lookup_by qu_name n rows = Some r \<Longrightarrow> qu_name r = n" for r using lookup_by_SomeD by fast
  then show ?thesis by (cases "lookup_by qu_name n rows") (auto simp: lookup_by_update_where assms)
qed

lemma update_where_compose:
  assumes "\<And>r. p (f r) = p r"
  shows "update_where p g (update_where p f rows) = update_where p (\<lambda>r. g (f r)) rows"
  by (induction rows) (auto simp: assms)

lemma count_where_0: "count_where p rows = 0 \<longleftrightarrow> (\<forall>r \<in> set rows. \<not> p r)"
  by (induction rows) (auto simp: add_nonneg_eq_0_iff)

lemma updateQueueRow_eq:
  "updateQueueRow rnd now q db =
     (if find_queue (q_Name q) db = None then Inl (ErrorText (''queue '' @ q_Name q @ '' does not exist''))
      else Inr ((), db\<lparr>queues := update_where (\<lambda>r. qu_name r = q_Name q) (queue_set rnd now q) (queues db)\<rparr>))"
proof -
  have "count_where (\<lambda>r. qu_name r = q_Name q) (queues db) = 0 \<longleftrightarrow> find_queue (q_Name q) db = None"
    unfolding count_where_0 lookup_by_eq_None by (metis imageE imageI)
  then show ?thesis by (simp only: updateQueueRow_def)
qed

definition peer_owned :: "string option \<Rightarrow> queue_row \<Rightarrow> bool" where
  "peer_owned own r = (case (qu_application_name r, own) of (Some a, Some b) \<Rightarrow> a \<noteq> b | _ \<Rightarrow> False)"

lemma queue_set_sel [simp]: "qu_name (queue_set rnd now q r) = qu_name r" "qu_application_name (queue_set rnd now q r) = qu_application_name r"
  by (simp_all add: queue_set_def)

lemma queue_insert_sel [simp]: "qu_name (queue_insert rnd now uuid q own) = q_Name q"
  by (simp add: queue_insert_def)

lemma UpsertQueue_existing:
  assumes Some: "find_queue (q_Name (uq_Queue inp)) db = Some r"
  shows "UpsertQueue rnd now updNow uuid inp db =
    (if peer_owned (uq_ApplicationName inp) r
     then Inl (NewNameOwnedByPeerError ''Queue'' (q_Name (uq_Queue inp)) (derefStr (qu_application_name r))
            (derefStr (uq_ApplicationName inp)))
     else Inr (False, if \<not> uq_UpdateExisting inp then db else
       db\<lparr>queues := update_where (\<lambda>x. qu_name x = q_Name (uq_Queue inp))
         (\<lambda>x. (queue_set rnd updNow (uq_Queue inp) x)\<lparr>qu_application_name :=
            coalesce (qu_application_name x) (coalesce (qu_application_name r) (uq_ApplicationName inp))\<rparr>) (queues db)\<rparr>))"
proof -
  let ?q = "uq_Queue inp" and ?own = "uq_ApplicationName inp"
  have owner: "queueOwner (q_Name ?q) ?own db =
      (if peer_owned ?own r
       then Inl (NewNameOwnedByPeerError ''Queue'' (q_Name ?q) (derefStr (qu_application_name r)) (derefStr ?own))
       else Inr (coalesce (qu_application_name r) ?own))"
    using Some by (auto simp: queueOwner_def resolveRowOwner_def peer_owned_def split: option.splits)
  show ?thesis
  proof (cases "peer_owned ?own r \<or> \<not> uq_UpdateExisting inp")
    case True
    then show ?thesis using Some owner by (auto simp: UpsertQueue_def Let_def)
  next
    case False
    let ?own' = "coalesce (qu_application_name r) ?own"
    let ?f = "\<lambda>x. (queue_set rnd updNow ?q x)\<lparr>qu_application_name := coalesce (qu_application_name x) ?own'\<rparr>"
    let ?db = "db\<lparr>queues := update_where (\<lambda>x. qu_name x = q_Name ?q) ?f (queues db)\<rparr>"
    have unclaimed: "(queue_set rnd updNow ?q x)\<lparr>qu_application_name := coalesce (qu_application_name x) None\<rparr> =
        queue_set rnd updNow ?q x" for x
      by (cases "qu_application_name x") (simp_all add: queue_set_def)
    have "(if ?own' \<noteq> None then claim_queue (q_Name ?q) ?own'
          (db\<lparr>queues := update_where (\<lambda>x. qu_name x = q_Name ?q) (queue_set rnd updNow ?q) (queues db)\<rparr>)
        else db\<lparr>queues := update_where (\<lambda>x. qu_name x = q_Name ?q) (queue_set rnd updNow ?q) (queues db)\<rparr>) = ?db"
      by (cases ?own') (simp_all add: claim_queue_def update_where_compose unclaimed)
    moreover have "queueOwner (q_Name ?q) ?own ?db = Inr ?own'"
      using Some False by (auto simp: queueOwner_def find_queue_update resolveRowOwner_def peer_owned_def split: option.splits)
    ultimately show ?thesis using Some False owner by (simp add: UpsertQueue_def Let_def updateQueueRow_eq)
  qed
qed

text \<open>
  Registering a queue name inserts it for the requesting application, or, when it exists,
  overwrites its configuration if asked to and claims it if it is unclaimed; a queue that belongs
  to another application is refused with an error, and its owner never changes. No other queue is
  touched.
\<close>

lemma queue_owner_kept:
  "UpsertQueue rnd now updNow uuid inp db =
     (let q = uq_Queue inp; own = uq_ApplicationName inp in
      case find_queue (q_Name q) db of
        None \<Rightarrow> Inr (True, db\<lparr>queues := queues db @ [queue_insert rnd now uuid q own]\<rparr>)
      | Some r \<Rightarrow>
          if peer_owned own r
          then Inl (NewNameOwnedByPeerError ''Queue'' (q_Name q) (derefStr (qu_application_name r)) (derefStr own))
          else Inr (False, if \<not> uq_UpdateExisting inp then db else
            db\<lparr>queues := update_where (\<lambda>x. qu_name x = q_Name q)
              (\<lambda>x. (queue_set rnd updNow q x)\<lparr>qu_application_name :=
                 coalesce (qu_application_name x) (coalesce (qu_application_name r) own)\<rparr>) (queues db)\<rparr>))"
proof (cases "find_queue (q_Name (uq_Queue inp)) db")
  case None
  then show ?thesis by (simp add: UpsertQueue_def queueOwner_def resolveRowOwner_def Let_def)
next
  case (Some r)
  then show ?thesis by (simp add: UpsertQueue_existing Let_def)
qed

lemma Seconds_positive: "double_rounding rnd \<Longrightarrow> 0 < d \<Longrightarrow> d \<le> 2 ^ 50 \<Longrightarrow> 0 < Seconds rnd d"
proof -
  assume a: "double_rounding rnd" "0 < d" "d \<le> 2 ^ 50"
  have "0 < (1 - half_ulp) ^ 2" using half_ulp_bounds by simp
  then have "0 < of_int d / 1000000000 * (1 - half_ulp) ^ 2" using a(2) by (simp add: zero_less_mult_iff)
  then show ?thesis using Seconds_pos(1) [OF a] by linarith
qed

text \<open>What the table makes of a configuration that is written to a row and read back.\<close>

definition stored_view :: "QueueConfig \<Rightarrow> QueueConfig \<Rightarrow> bool" where
  "stored_view q q' \<longleftrightarrow>
     q_Name q' = q_Name q \<and> q_WorkerConcurrency q' = q_WorkerConcurrency q \<and> q_GlobalConcurrency q' = q_GlobalConcurrency q \<and>
     q_PriorityEnabled q' = q_PriorityEnabled q \<and> q_PartitionQueue q' = q_PartitionQueue q \<and> q_DatabaseBacked q' \<and>
     q_BasePollingInterval q' \<in> {q_BasePollingInterval q - 1, q_BasePollingInterval q} \<and>
     (case q_RateLimit q of
        None \<Rightarrow> q_RateLimit q' = None
      | Some l \<Rightarrow> \<exists>l'. q_RateLimit q' = Some l' \<and> rl_Limit l' = rl_Limit l \<and> rl_Period l' \<in> {rl_Period l - 1, rl_Period l})"

definition storable :: "QueueConfig \<Rightarrow> bool" where
  "storable q \<longleftrightarrow> 1 < q_BasePollingInterval q \<and> q_BasePollingInterval q \<le> 2 ^ 50 \<and>
     (case q_RateLimit q of None \<Rightarrow> True | Some l \<Rightarrow> 0 < rl_Period l \<and> rl_Period l \<le> 2 ^ 50)"

lemma stored_view_scan:
  assumes "double_rounding rnd" and "storable q" and "qu_name r = q_Name q"
    and "qu_concurrency r = q_GlobalConcurrency q" and "qu_worker_concurrency r = q_WorkerConcurrency q"
    and "qu_rate_limit_max r = map_option rl_Limit (q_RateLimit q)"
    and "qu_rate_limit_period_sec r = map_option (\<lambda>l. Seconds rnd (rl_Period l)) (q_RateLimit q)"
    and "qu_priority_enabled r = q_PriorityEnabled q" and "qu_partition_queue r = q_PartitionQueue q"
    and "qu_polling_interval_sec r = polling_sec rnd q"
  shows "stored_view q (scanQueueRow rnd r)"
proof -
  have base: "1 < q_BasePollingInterval q" "q_BasePollingInterval q \<le> 2 ^ 50" using assms(2) by (simp_all add: storable_def)
  have "polling_sec rnd q = Seconds rnd (q_BasePollingInterval q)"
    using Seconds_positive [OF assms(1), of "q_BasePollingInterval q"] base by (simp add: polling_sec_def Let_def)
  moreover have "ofSeconds rnd (Seconds rnd (q_BasePollingInterval q)) \<in> {q_BasePollingInterval q - 1, q_BasePollingInterval q}"
    using seconds_roundtrip [OF assms(1)] base by simp
  moreover have "ofSeconds rnd (Seconds rnd (rl_Period l)) \<in> {rl_Period l - 1, rl_Period l}" if "q_RateLimit q = Some l" for l
    using seconds_roundtrip [OF assms(1), of "rl_Period l"] assms(2) that by (simp add: storable_def)
  ultimately show ?thesis using assms(3-10) base
    by (auto simp: stored_view_def scanQueueRow_def Let_def split: option.splits)
qed

lemma upsert_then_scan:
  assumes "double_rounding rnd" and "storable (uq_Queue inp)" and "UpsertQueue rnd now updNow uuid inp db = Inr (b, db')"
    and "find_queue (q_Name (uq_Queue inp)) db = None \<or> uq_UpdateExisting inp"
  shows "\<exists>q'. GetQueue rnd (q_Name (uq_Queue inp)) db' = Some q' \<and> stored_view (uq_Queue inp) q'"
proof (cases "find_queue (q_Name (uq_Queue inp)) db")
  case None
  have "stored_view (uq_Queue inp) (scanQueueRow rnd (queue_insert rnd now uuid (uq_Queue inp) own))" for own
    by (rule stored_view_scan [OF assms(1,2)]) (simp_all add: queue_insert_def)
  then show ?thesis using assms(3) None
    by (auto simp: UpsertQueue_def queueOwner_def resolveRowOwner_def GetQueue_def lookup_by_append Let_def)
next
  case (Some r)
  have "stored_view (uq_Queue inp) (scanQueueRow rnd ((queue_set rnd updNow (uq_Queue inp) r)\<lparr>qu_application_name := own\<rparr>))" for own
    by (rule stored_view_scan [OF assms(1,2)]) (use lookup_by_SomeD [OF Some] in \<open>simp_all add: queue_set_def\<close>)
  moreover have "\<exists>own. find_queue (q_Name (uq_Queue inp)) db' = Some ((queue_set rnd updNow (uq_Queue inp) r)\<lparr>qu_application_name := own\<rparr>)"
    using assms(3,4) Some UpsertQueue_existing [OF Some, of rnd now updNow uuid]
    by (auto simp: find_queue_update split: if_splits)
  ultimately show ?thesis by (auto simp: GetQueue_def)
qed

text \<open>
  A queue that was registered is retrieved as registered: every limit and flag is the same and
  every duration the same up to one nanosecond, which the \<^verbatim>\<open>float64\<close> seconds of the table may cost;
  the handle returned is the retrieved one.
\<close>

lemma queue_registration_roundtrip:
  assumes "double_rounding rnd" and "RegisterQueue s rnd v now updNow uuid name options db = Inr (h, db')"
    and "wq_Name (new_queue name options) = name" and "storable (toConfig (new_queue name options))"
    and "find_queue name db = None \<or> wq_onConflict (new_queue name options) = Some QueueConflictAlwaysUpdate"
  shows "RetrieveQueue rnd name db' = Inr h \<and> stored_view (toConfig (new_queue name options)) (toConfig h)"
proof -
  let ?q = "new_queue name options"
  obtain upd b where conf: "resolve_conflict s v ?q db = Inr upd"
    and ups: "UpsertQueue rnd now updNow uuid
        \<lparr>uq_Queue = toConfig ?q, uq_UpdateExisting = upd, uq_ApplicationName = requestedOwner s (wq_ApplicationName ?q)\<rparr> db = Inr (b, db')"
    and get: "\<exists>q'. GetQueue rnd name db' = Some q' \<and> h = queueFromConfig q'"
    using assms(2) by (auto simp: RegisterQueue_def Let_def split: if_splits sum.splits option.splits)
  have "q_Name (toConfig ?q) = name" using assms(3) by (simp add: toConfig_def)
  moreover have "find_queue name db = None \<or> upd" using assms(5) conf by (auto simp: resolve_conflict_def)
  ultimately obtain q' where "GetQueue rnd name db' = Some q'" "stored_view (toConfig ?q) q'"
    using upsert_then_scan [OF assms(1) _ ups] assms(4) by auto
  moreover have "toConfig (queueFromConfig q') = q'" by (simp add: toConfig_def queueFromConfig_def)
  ultimately show ?thesis using get by (auto simp: RetrieveQueue_def)
qed

definition sample_queue_options :: "QueueOption list" where
  "sample_queue_options = [WithWorkerConcurrency 2, WithGlobalConcurrency 5, WithPriorityEnabled,
     WithRateLimiter (Some \<lparr>rl_Limit = 10, rl_Period = 1500000000\<rparr>)]"

lemma queue_registration_roundtrip_witness:
  "\<exists>h db'. RegisterQueue \<lparr>appName = ''shop'', SupportsDataModifyingCTE = True, SupportsAttributesContainment = True,
        attributes_contain = (\<lambda>_ _. False)\<rparr> id ''v1'' 5000000 5000000 ''u'' ''mail'' sample_queue_options empty_sysdb = Inr (h, db') \<and>
     RetrieveQueue id ''mail'' db' = Inr h \<and> wq_WorkerConcurrency h = Some 2 \<and> wq_RateLimit h = Some \<lparr>rl_Limit = 10, rl_Period = 1500000000\<rparr>"
proof -
  let ?s = "\<lparr>appName = ''shop'', SupportsDataModifyingCTE = True, SupportsAttributesContainment = True,
        attributes_contain = (\<lambda>_ _. False)\<rparr>"
  have rnd: "double_rounding id" by (simp add: double_rounding_def half_ulp_def)
  have q: "new_queue ''mail'' sample_queue_options =
      \<lparr>wq_Name = ''mail'', wq_WorkerConcurrency = Some 2, wq_GlobalConcurrency = Some 5, wq_PriorityEnabled = True,
       wq_RateLimit = Some \<lparr>rl_Limit = 10, rl_Period = 1500000000\<rparr>, wq_PartitionQueue = False, wq_ApplicationName = [],
       wq_basePollingInterval = 1000000000, wq_maxPollingInterval = 120000000000,
       wq_databaseBacked = True, wq_onConflict = Some QueueConflictUpdateIfLatestVersion\<rparr>"
    by (simp add: new_queue_def sample_queue_options_def WithWorkerConcurrency_def WithGlobalConcurrency_def
        WithPriorityEnabled_def WithRateLimiter_def DefaultBasePollingInterval_def DEFAULT_MAX_POLLING_INTERVAL_def)
  obtain h db' where run: "RegisterQueue ?s id ''v1'' 5000000 5000000 ''u'' ''mail'' sample_queue_options empty_sysdb = Inr (h, db')"
    and h: "wq_WorkerConcurrency h = Some 2" "wq_RateLimit h = Some \<lparr>rl_Limit = 10, rl_Period = 1500000000\<rparr>"
    by (simp add: RegisterQueue_def q Let_def InternalQueueName_def validateQueueConfig_def resolve_conflict_def
        GetLatestApplicationVersion_def empty_sysdb_def order_by_desc_def limit_rows_def errors_Is_def Error_Is_def
        NewNoApplicationVersionsError_def UpsertQueue_def queueOwner_def resolveRowOwner_def toConfig_def GetQueue_def
        queue_insert_def scanQueueRow_def queueFromConfig_def Seconds_def ofSeconds_def Duration_def)
  have "wq_Name (new_queue ''mail'' sample_queue_options) = ''mail''" "storable (toConfig (new_queue ''mail'' sample_queue_options))"
    by (simp_all add: q storable_def toConfig_def)
  from queue_registration_roundtrip [OF rnd run this] run h show ?thesis by (auto simp: empty_sysdb_def)
qed

end
