(* ===== verification/Runner.thy ===== *)
theory Runner
  imports Registry
begin

text \<open>
  The queue runner of \<^verbatim>\<open>src/dbos/queue.go\<close>: the set of queues a process serves and one iteration of a
  queue's worker, which reloads the configuration, dequeues from every partition and adapts the
  polling interval. What the goroutines share is an argument: the published queues, the number of
  running workflows per queue and partition, the random number of the jitter. The execution of
  a dequeued workflow is not part of it.
\<close>

section \<open>The queues to listen to\<close>

definition internalQueue :: workflowQueue where
  "internalQueue = \<lparr>wq_Name = InternalQueueName, wq_WorkerConcurrency = None, wq_GlobalConcurrency = None,
     wq_PriorityEnabled = False, wq_RateLimit = None, wq_PartitionQueue = False, wq_ApplicationName = [],
     wq_basePollingInterval = DefaultBasePollingInterval, wq_maxPollingInterval = DEFAULT_MAX_POLLING_INTERVAL,
     wq_databaseBacked = False, wq_onConflict = None\<rparr>"

type_synonym published = "string \<Rightarrow> workflowQueue option"

text \<open>
  The listing of the database-backed queues may fail; then the previous set is kept, as far as it is
  still listened to.
\<close>

definition queuesToListen :: "string list \<Rightarrow> published \<Rightarrow> QueueConfig list res \<Rightarrow> published" where
  "queuesToListen listened previous dbQueueCfgs =
     (let listens = (\<lambda>name. listened = [] \<or> name \<in> set listened);
          current = [InternalQueueName \<mapsto> internalQueue]
      in case dbQueueCfgs of
           Inl _ \<Rightarrow> current ++ (\<lambda>name. case previous name of
               None \<Rightarrow> None
             | Some q \<Rightarrow> if wq_databaseBacked q \<and> listens name then Some q else None)
         | Inr cfgs \<Rightarrow>
             fold (\<lambda>q m. if listens (wq_Name q) then m(wq_Name q \<mapsto> q) else m) (map queueFromConfig cfgs) current)"

section \<open>One iteration of a worker\<close>

text \<open>\<^verbatim>\<open>currentQueueConfig\<close> and the clamping of the interval; \<open>None\<close> stops the worker.\<close>

definition reload_queue :: "published \<Rightarrow> workflowQueue \<times> duration \<Rightarrow> (workflowQueue \<times> duration) option" where
  "reload_queue current = (\<lambda>(queue, interval).
     if \<not> wq_databaseBacked queue then Some (queue, interval)
     else case current (wq_Name queue) of
            None \<Rightarrow> None
          | Some fresh \<Rightarrow>
              let q = fresh\<lparr>wq_maxPollingInterval := max (wq_basePollingInterval fresh) DEFAULT_MAX_POLLING_INTERVAL\<rparr>
              in Some (q, max (wq_basePollingInterval q) (min interval (wq_maxPollingInterval q))))"

record worker_env =
  we_current :: published
  we_now :: "string \<Rightarrow> instant"
  we_claimNow :: "string \<Rightarrow> instant"
  we_locked :: "string list"
  we_partitionsError :: "go_error option"
  we_dequeueError :: "string \<Rightarrow> go_error option"
  we_contention :: "go_error \<Rightarrow> bool"
  we_active :: "string \<Rightarrow> string \<Rightarrow> int"
  we_executorID :: string
  we_applicationVersion :: string

definition dequeue_input :: "worker_env \<Rightarrow> workflowQueue \<Rightarrow> string \<Rightarrow> DequeueWorkflowsInput" where
  "dequeue_input e queue partitionKey =
     \<lparr>dq_Queue = toConfig queue, dq_ExecutorID = we_executorID e, dq_ApplicationVersion = we_applicationVersion e,
      dq_QueuePartitionKey = partitionKey, dq_LocalRunningCount = we_active e (wq_Name queue) partitionKey\<rparr>"

text \<open>\<^verbatim>\<open>dequeueWorkflows\<close> for one partition; \<open>we_dequeueError\<close> is an error of the database connection.\<close>

definition qr_dequeueWorkflows :: "SysDB \<Rightarrow> worker_env \<Rightarrow> workflowQueue \<Rightarrow> string \<Rightarrow> sysdb \<Rightarrow> (string list \<times> sysdb) res" where
  "qr_dequeueWorkflows s e queue partitionKey db =
     (case we_dequeueError e partitionKey of
        Some err \<Rightarrow> Inl err
      | None \<Rightarrow> DequeueWorkflows s (we_now e partitionKey) (we_claimNow e partitionKey) (we_locked e)
          (dequeue_input e queue partitionKey) db)"

fun dequeue_partitions ::
  "SysDB \<Rightarrow> worker_env \<Rightarrow> workflowQueue \<Rightarrow> string list \<Rightarrow> sysdb \<Rightarrow> (string list \<times> bool) \<times> sysdb" where
  "dequeue_partitions s e queue [] db = (([], False), db)"
| "dequeue_partitions s e queue (key # keys) db =
     (case qr_dequeueWorkflows s e queue key db of
        Inl err \<Rightarrow>
          (case dequeue_partitions s e queue keys db of
             ((ids, backoff), db') \<Rightarrow> ((ids, we_contention e err \<or> backoff), db'))
      | Inr (ids, db1) \<Rightarrow>
          (case dequeue_partitions s e queue keys db1 of
             ((ids', backoff), db') \<Rightarrow> ((ids @ ids', backoff), db')))"

definition dequeue_all :: "SysDB \<Rightarrow> worker_env \<Rightarrow> workflowQueue \<Rightarrow> sysdb \<Rightarrow> (string list \<times> bool) \<times> sysdb" where
  "dequeue_all s e queue db =
     (if wq_PartitionQueue queue
      then case we_partitionsError e of
             Some err \<Rightarrow> (([], we_contention e err), db)
           | None \<Rightarrow> dequeue_partitions s e queue (GetQueuePartitions s (wq_Name queue) db) db
      else dequeue_partitions s e queue [[]] db)"

definition backoffFactor :: real where "backoffFactor = 2"
definition scalebackFactor :: real where "scalebackFactor = 9 / 10"
definition jitterMin :: real where "jitterMin = 95 / 100"
definition jitterMax :: real where "jitterMax = 105 / 100"

definition adjust_interval :: "(real \<Rightarrow> real) \<Rightarrow> bool \<Rightarrow> workflowQueue \<Rightarrow> duration \<Rightarrow> duration" where
  "adjust_interval rnd hasBackoffError queue interval =
     (if hasBackoffError
      then min (Duration (rnd (rnd (of_int interval) * rnd backoffFactor))) (wq_maxPollingInterval queue)
      else max (Duration (rnd (rnd (of_int interval) * rnd scalebackFactor))) (wq_basePollingInterval queue))"

definition sleepDuration :: "(real \<Rightarrow> real) \<Rightarrow> real \<Rightarrow> duration \<Rightarrow> duration" where
  "sleepDuration rnd random interval =
     (let jitter = rnd (rnd jitterMin + rnd (random * rnd (rnd jitterMax - rnd jitterMin)))
      in Duration (rnd (rnd (of_int interval) * jitter)))"

definition runQueue_iteration ::
  "SysDB \<Rightarrow> (real \<Rightarrow> real) \<Rightarrow> worker_env \<Rightarrow> workflowQueue \<times> duration \<Rightarrow> sysdb \<Rightarrow>
   ((workflowQueue \<times> duration) \<times> string list \<times> sysdb) option" where
  "runQueue_iteration s rnd e w db =
     (case reload_queue (we_current e) w of
        None \<Rightarrow> None
      | Some (queue, interval) \<Rightarrow>
          (case dequeue_all s e queue db of
             ((dequeuedIDs, hasBackoffError), db') \<Rightarrow>
               Some ((queue, adjust_interval rnd hasBackoffError queue interval), dequeuedIDs, db')))"

section \<open>What a worker claims\<close>

text \<open>
  \<open>claimed executor queue ids db db'\<close>: between the two states exactly the workflows \<open>ids\<close>, all of the
  queue, moved from ENQUEUED to PENDING on the executor, each once.
\<close>

definition claimed :: "string \<Rightarrow> string \<Rightarrow> string list \<Rightarrow> sysdb \<Rightarrow> sysdb \<Rightarrow> bool" where
  "claimed executor queue ids db db' \<longleftrightarrow> distinct ids \<and> distinct (wf_ids (workflow_status db')) \<and>
     (\<forall>wid \<in> set ids. \<exists>r r'. find_wf wid db = Some r \<and> ws_queue_name r = Some queue \<and> ws_status r = WorkflowStatusEnqueued \<and>
        find_wf wid db' = Some r' \<and> ws_status r' = WorkflowStatusPending \<and> ws_executor_id r' = Some executor) \<and>
     (\<forall>wid. wid \<notin> set ids \<longrightarrow> find_wf wid db' = find_wf wid db)"

lemma claimed_refl: "distinct (wf_ids (workflow_status db)) \<Longrightarrow> claimed executor queue [] db db"
  by (simp add: claimed_def)

lemma claimed_trans:
  assumes a: "claimed executor queue ids db db1" and b: "claimed executor queue ids' db1 db2"
  shows "claimed executor queue (ids @ ids') db db2"
proof -
  have disj: "wid \<notin> set ids'" if "wid \<in> set ids" for wid
    using a b that unfolding claimed_def by fastforce
  have "find_wf wid db2 = find_wf wid db1" if "wid \<in> set ids" for wid
    using b disj [OF that] by (simp add: claimed_def)
  moreover have "find_wf wid db1 = find_wf wid db" if "wid \<in> set ids'" for wid
    using a disj that by (auto simp: claimed_def)
  ultimately show ?thesis using a b disj unfolding claimed_def by auto
qed

lemma claimed_claim:
  assumes inv: "distinct (wf_ids (workflow_status db))" and sub: "set rows \<subseteq> {r \<in> set (workflow_status db). claim_wf_where s (wf_ids rows) r \<and> ws_queue_name r = Some queue}"
    and dist: "distinct (wf_ids rows)"
  shows "claimed (dq_ExecutorID inp) queue (wf_ids rows) db (update_wf (claim_wf_where s (wf_ids rows)) (claim_wf_set s inp now) db)"
    (is "claimed _ _ _ _ ?db'")
  unfolding claimed_def
proof (intro conjI ballI allI impI)
  show "distinct (wf_ids (workflow_status ?db'))" using inv by (simp add: claim.ids)
next
  fix wid assume "wid \<in> set (wf_ids rows)"
  then obtain r where r: "r \<in> set rows" "ws_workflow_uuid r = wid" by auto
  with sub have "r \<in> set (workflow_status db)" and g: "claim_wf_where s (wf_ids rows) r" and q: "ws_queue_name r = Some queue" by auto
  then have f: "find_wf wid db = Some r" using r(2) lookup_by_in_iff [OF inv] by simp
  from claim.find_hit [OF f g] g f q show "\<exists>r r'. find_wf wid db = Some r \<and> ws_queue_name r = Some queue \<and> ws_status r = WorkflowStatusEnqueued \<and>
      find_wf wid ?db' = Some r' \<and> ws_status r' = WorkflowStatusPending \<and> ws_executor_id r' = Some (dq_ExecutorID inp)"
    by (simp add: claim_wf_where_def claim_wf_set_def)
next
  fix wid assume n: "wid \<notin> set (wf_ids rows)"
  have "\<not> claim_wf_where s (wf_ids rows) r" if "find_wf wid db = Some r" for r
    using lookup_by_SomeD [OF that] n by (simp add: claim_wf_where_def)
  then show "find_wf wid ?db' = find_wf wid db" by (cases "find_wf wid db") (simp_all add: claim.find)
qed (rule dist)

lemma dequeue_claimed:
  assumes inv: "distinct (wf_ids (workflow_status db))" and run: "DequeueWorkflows s now claimNow locked inp db = Inr (ids, db')"
  shows "claimed (dq_ExecutorID inp) (q_Name (dq_Queue inp)) ids db db'"
  using run
proof (cases rule: DequeueWorkflows_cases)
  case (claim n)
  show ?thesis unfolding claim(4,5)
    by (rule claimed_claim [OF inv]) (use inv select_candidates_claimed select_candidates_set select_candidates_distinct in \<open>auto simp: candidate_where_def in_scope_def\<close>)
qed (use inv in \<open>simp_all add: claimed_refl\<close>)

lemma claimed_distinct: "claimed executor queue ids db db' \<Longrightarrow> distinct (wf_ids (workflow_status db'))"
  by (simp add: claimed_def)

lemma dequeue_input_sel [simp]:
  "dq_ExecutorID (dequeue_input e queue key) = we_executorID e" "q_Name (dq_Queue (dequeue_input e queue key)) = wq_Name queue"
  by (simp_all add: dequeue_input_def toConfig_def)

lemma qr_dequeue_claimed:
  "distinct (wf_ids (workflow_status db)) \<Longrightarrow> qr_dequeueWorkflows s e queue key db = Inr (ids, db') \<Longrightarrow>
   claimed (we_executorID e) (wq_Name queue) ids db db'"
  by (auto simp: qr_dequeueWorkflows_def split: option.splits dest: dequeue_claimed)

lemma dequeue_partitions_claimed:
  assumes "distinct (wf_ids (workflow_status db))" and "dequeue_partitions s e queue keys db = ((ids, backoff), db')"
  shows "claimed (we_executorID e) (wq_Name queue) ids db db'"
  using assms
proof (induction keys arbitrary: db ids backoff)
  case Nil
  then show ?case by (simp add: claimed_refl)
next
  case (Cons key keys)
  show ?case
  proof (cases "qr_dequeueWorkflows s e queue key db")
    case (Inl err)
    with Cons.prems(2) obtain b where "dequeue_partitions s e queue keys db = ((ids, b), db')" by (auto split: prod.splits)
    from Cons.IH [OF Cons.prems(1) this] show ?thesis .
  next
    case (Inr res)
    obtain ids1 db1 where res: "res = (ids1, db1)" by (cases res)
    note run = Inr [unfolded res]
    obtain ids2 b2 where rest: "dequeue_partitions s e queue keys db1 = ((ids2, b2), db')" and ids: "ids = ids1 @ ids2"
      using Cons.prems(2) run by (auto split: prod.splits)
    note one = qr_dequeue_claimed [OF Cons.prems(1) run]
    show ?thesis unfolding ids by (rule claimed_trans [OF one Cons.IH [OF claimed_distinct [OF one] rest]])
  qed
qed

lemma dequeue_all_claimed:
  assumes "distinct (wf_ids (workflow_status db))" and "dequeue_all s e queue db = ((ids, backoff), db')"
  shows "claimed (we_executorID e) (wq_Name queue) ids db db'"
  using assms by (auto simp: dequeue_all_def claimed_refl simp del: dequeue_partitions.simps
      intro: dequeue_partitions_claimed split: if_splits option.splits)

section \<open>The polling interval\<close>

definition polling_ok :: "workflowQueue \<Rightarrow> bool" where
  "polling_ok queue \<longleftrightarrow> 0 < wq_basePollingInterval queue \<and> wq_basePollingInterval queue \<le> wq_maxPollingInterval queue \<and>
     wq_maxPollingInterval queue \<le> 2 ^ 50"

lemma backoff_exact:
  assumes "double_rounding rnd" and "0 < i" and "i \<le> 2 ^ 50"
  shows "Duration (rnd (rnd (of_int i) * rnd backoffFactor)) = 2 * i"
proof -
  have "\<bar>i\<bar> \<le> 2 ^ 53" "\<bar>2 * i\<bar> \<le> 2 ^ 53" using assms by auto
  with assms(1) have "rnd (of_int i) = of_int i" "rnd (of_int (2 * i)) = of_int (2 * i)" "rnd (of_int 2) = of_int 2"
    using rounding_int [OF assms(1)] rounding_int [OF assms(1), of 2] by (blast, blast, simp)
  then have "rnd (rnd (of_int i) * rnd backoffFactor) = of_int (2 * i)" by (simp add: backoffFactor_def mult.commute)
  then show ?thesis unfolding Duration_def by (simp only: floor_of_int ceiling_of_int if_cancel)
qed

lemma scaleback_less:
  assumes rnd: "double_rounding rnd" and i: "0 < i" "i \<le> 2 ^ 50"
  shows "Duration (rnd (rnd (of_int i) * rnd scalebackFactor)) < i"
proof -
  let ?i = "of_int i :: real" and ?f = "rnd scalebackFactor"
  have r: "(1 :: real) \<le> ?i" "?i \<le> 2 ^ 50" using i of_int_le_iff [of i "2 ^ 50", where 'a = real] by simp_all
  have f: "1 / 2 \<le> ?f" "?f \<le> 91 / 100"
    using rounding_mult [OF rnd, of "9 / 10"] by (simp_all add: scalebackFactor_def half_ulp_def)
  have eq: "rnd ?i = ?i" using i by (intro rounding_int [OF rnd]) simp
  have lo: "1 * (1 / 2) \<le> ?i * ?f" and hi: "?i * ?f \<le> 2 ^ 50 * 1" and le: "?i * ?f \<le> ?i * (91 / 100)"
    using r f by (intro mult_mono mult_left_mono; simp)+
  have "1 / 2 ^ 100 \<le> ?i * ?f" "?i * ?f \<le> 2 ^ 100" using lo hi by (simp_all add: order_trans)
  note m = rounding_mult [OF rnd this]
  have "?i * ?f * (1 + half_ulp) \<le> ?i * (91 / 100) * (1 + half_ulp)" using le by (intro mult_right_mono) (simp_all add: half_ulp_def)
  also have "\<dots> < ?i" using r by (simp add: half_ulp_def)
  finally have "rnd (?i * ?f) < ?i" using m by linarith
  moreover have "0 \<le> rnd (?i * ?f)"
    using m lo mult_nonneg_nonneg [of "?i * ?f" "1 - half_ulp"] half_ulp_bounds by linarith
  ultimately show ?thesis unfolding eq Duration_def by (simp add: floor_less_iff)
qed

lemma adjust_interval_step:
  assumes "double_rounding rnd" and "polling_ok queue" and "wq_basePollingInterval queue \<le> i" and "i \<le> wq_maxPollingInterval queue"
  shows "wq_basePollingInterval queue \<le> adjust_interval rnd b queue i \<and> adjust_interval rnd b queue i \<le> wq_maxPollingInterval queue \<and>
    (b \<longrightarrow> adjust_interval rnd b queue i = min (2 * i) (wq_maxPollingInterval queue)) \<and>
    (\<not> b \<longrightarrow> adjust_interval rnd b queue i \<le> max (i - 1) (wq_basePollingInterval queue))"
proof -
  have "0 < i" "i \<le> 2 ^ 50" using assms by (simp_all add: polling_ok_def)
  from backoff_exact [OF assms(1) this] scaleback_less [OF assms(1) this] show ?thesis
    using assms by (auto simp: adjust_interval_def polling_ok_def)
qed

definition poll_run :: "(real \<Rightarrow> real) \<Rightarrow> workflowQueue \<Rightarrow> bool list \<Rightarrow> duration \<Rightarrow> duration" where
  "poll_run rnd queue = fold (\<lambda>b. adjust_interval rnd b queue)"

lemma poll_run_bounds:
  assumes "double_rounding rnd" and "polling_ok queue" and "wq_basePollingInterval queue \<le> i" and "i \<le> wq_maxPollingInterval queue"
  shows "wq_basePollingInterval queue \<le> poll_run rnd queue bs i \<and> poll_run rnd queue bs i \<le> wq_maxPollingInterval queue"
  using assms(3,4)
proof (induction bs arbitrary: i)
  case (Cons b bs)
  from adjust_interval_step [OF assms(1,2) Cons.prems, of b] Cons.IH show ?case by (simp add: poll_run_def)
qed (simp add: poll_run_def)

lemma poll_run_contended:
  assumes "double_rounding rnd" and "polling_ok queue" and "wq_basePollingInterval queue \<le> i" and "i \<le> wq_maxPollingInterval queue"
  shows "poll_run rnd queue (replicate n True) i = min (2 ^ n * i) (wq_maxPollingInterval queue)"
  using assms(3,4)
proof (induction n arbitrary: i)
  case 0
  then show ?case by (simp add: poll_run_def)
next
  case (Suc n)
  note step = adjust_interval_step [OF assms(1,2) Suc.prems, of True]
  have "(1 :: int) * wq_maxPollingInterval queue \<le> 2 ^ n * wq_maxPollingInterval queue"
    using assms(2) by (intro mult_right_mono) (simp_all add: polling_ok_def)
  then have one: "wq_maxPollingInterval queue \<le> 2 ^ n * wq_maxPollingInterval queue" by simp
  have "min (2 ^ n * min (2 * i) (wq_maxPollingInterval queue)) (wq_maxPollingInterval queue) =
      min (2 ^ Suc n * i) (wq_maxPollingInterval queue)"
  proof (cases "2 * i \<le> wq_maxPollingInterval queue")
    case False
    then have "2 ^ n * wq_maxPollingInterval queue \<le> 2 ^ n * (2 * i)" by (intro mult_left_mono) simp_all
    with one have "wq_maxPollingInterval queue \<le> 2 ^ n * (2 * i)" by (rule order_trans)
    also have "\<dots> = 2 ^ Suc n * i" by simp
    finally have "wq_maxPollingInterval queue \<le> 2 ^ Suc n * i" .
    with False one show ?thesis by (simp add: min_absorb2)
  qed (simp add: min_absorb1 mult_ac)
  then show ?case using step Suc.IH [of "adjust_interval rnd True queue i"] Suc.prems assms(2)
    by (simp add: poll_run_def polling_ok_def)
qed

lemma poll_run_quiet:
  assumes "double_rounding rnd" and "polling_ok queue" and "wq_basePollingInterval queue \<le> i" and "i \<le> wq_maxPollingInterval queue"
    and "i - wq_basePollingInterval queue \<le> int n"
  shows "poll_run rnd queue (replicate n False) i = wq_basePollingInterval queue"
  using assms(3,4,5)
proof (induction n arbitrary: i)
  case (Suc n)
  note step = adjust_interval_step [OF assms(1,2) Suc.prems(1,2), of False]
  with Suc.prems(3) have "adjust_interval rnd False queue i - wq_basePollingInterval queue \<le> int n" by auto
  with step Suc.IH [of "adjust_interval rnd False queue i"] show ?case by (simp add: poll_run_def)
qed (simp add: poll_run_def)

text \<open>
  However often the worker of a queue meets contention, its polling interval stays between the
  base and the maximal interval of the queue. It doubles with every contended iteration until it
  is the maximum, and falls back to the base interval after finitely many quiet ones.
\<close>

lemma polling_interval_adapts:
  assumes "double_rounding rnd" and "polling_ok queue" and "wq_basePollingInterval queue \<le> i" and "i \<le> wq_maxPollingInterval queue"
  shows "wq_basePollingInterval queue \<le> poll_run rnd queue bs i \<and> poll_run rnd queue bs i \<le> wq_maxPollingInterval queue \<and>
    poll_run rnd queue (bs @ replicate n True) i = min (2 ^ n * poll_run rnd queue bs i) (wq_maxPollingInterval queue) \<and>
    poll_run rnd queue (bs @ replicate (nat (wq_maxPollingInterval queue)) False) i = wq_basePollingInterval queue"
proof -
  note bounds = poll_run_bounds [OF assms, of bs]
  have app: "poll_run rnd queue (bs @ cs) i = poll_run rnd queue cs (poll_run rnd queue bs i)" for cs by (simp add: poll_run_def)
  show ?thesis unfolding app
    using bounds poll_run_contended [OF assms(1,2), of "poll_run rnd queue bs i" n]
      poll_run_quiet [OF assms(1,2), of "poll_run rnd queue bs i" "nat (wq_maxPollingInterval queue)"] assms(2)
    by (simp add: polling_ok_def)
qed

lemma polling_interval_adapts_witness:
  "poll_run id internalQueue ([True, False] @ replicate 8 True) Second = 120 * Second"
proof -
  have rnd: "double_rounding id" by (simp add: double_rounding_def half_ulp_def)
  have ok: "polling_ok internalQueue" "wq_basePollingInterval internalQueue \<le> Second" "Second \<le> wq_maxPollingInterval internalQueue"
    by (simp_all add: polling_ok_def internalQueue_def DefaultBasePollingInterval_def DEFAULT_MAX_POLLING_INTERVAL_def)
  have "poll_run id internalQueue [True, False] Second = 1800000000"
    by (simp add: poll_run_def adjust_interval_def backoffFactor_def scalebackFactor_def Duration_def internalQueue_def
        DefaultBasePollingInterval_def DEFAULT_MAX_POLLING_INTERVAL_def)
  with polling_interval_adapts [OF rnd ok, of "[True, False]" 8] show ?thesis
    by (simp add: internalQueue_def DEFAULT_MAX_POLLING_INTERVAL_def)
qed

section \<open>An iteration\<close>


definition sample_worker :: worker_env where
  "sample_worker = \<lparr>we_current = Map.empty, we_now = (\<lambda>_. 2000000000), we_claimNow = (\<lambda>_. 2000000000), we_locked = [],
     we_partitionsError = None, we_dequeueError = (\<lambda>_. None), we_contention = (\<lambda>_. False), we_active = (\<lambda>_ _. 0),
     we_executorID = ''e'', we_applicationVersion = ''v''\<rparr>"


section \<open>The published queues\<close>

lemma fold_publish:
  assumes "distinct (map k xs)" and "\<And>x. n (f x) = k x"
  shows "fold (\<lambda>q m. if p (n q) then m(n q \<mapsto> q) else m) (map f xs) m name =
    (case lookup_by k name xs of Some x \<Rightarrow> if p name then Some (f x) else m name | None \<Rightarrow> m name)"
  using assms(1)
proof (induction xs arbitrary: m)
  case (Cons x xs)
  show ?case
  proof (cases "k x = name")
    case True
    with Cons.prems have "lookup_by k name xs = None" by (auto simp: lookup_by_eq_None)
    with True Cons assms(2) show ?thesis by simp
  next
    case False
    with Cons assms(2) show ?thesis by (auto split: option.splits)
  qed
qed simp

lemma ListQueues_nil:
  "ListQueues s rnd None db = map (scanQueueRow rnd) (filter (\<lambda>r. nameFilter s (qu_application_name r)) (queues db))"
proof -
  have "(sql_in own [appName s] \<or> own = None) = nameFilter s own" if "appName s \<noteq> []" for own
    using that by (auto simp: nameFilter_def sql_in_def split: option.splits)
  then show ?thesis by (simp add: ListQueues_def observabilityNames_def nameFilter_def)
qed

lemma lookup_by_filter:
  assumes "distinct (map k xs)"
  shows "lookup_by k name (filter p xs) = (case lookup_by k name xs of Some x \<Rightarrow> if p x then Some x else None | None \<Rightarrow> None)"
  using assms
proof (induction xs)
  case (Cons x xs)
  then have "lookup_by k (k x) xs = None" "lookup_by k (k x) (filter p xs) = None" by (auto simp: lookup_by_eq_None)
  with Cons show ?case by auto
qed simp

text \<open>
  After a reconciliation that could read the table, a process serves exactly the queues that
  exist, are its application's or nobody's and are in its listen set (if it has one), each with the
  configuration of the table, and always the internal queue. A deleted queue is not served.
\<close>

lemma served_queues:
  assumes "pk_ok db"
  shows "queuesToListen listened previous (Inr (ListQueues s rnd None db)) name =
    (case find_queue name db of
       Some r \<Rightarrow> if nameFilter s (qu_application_name r) \<and> (listened = [] \<or> name \<in> set listened)
                 then Some (queueFromConfig (scanQueueRow rnd r))
                 else if name = InternalQueueName then Some internalQueue else None
     | None \<Rightarrow> if name = InternalQueueName then Some internalQueue else None)"
proof -
  let ?vis = "filter (\<lambda>r. nameFilter s (qu_application_name r)) (queues db)"
  have d: "distinct (map qu_name (queues db))" using assms by (simp add: pk_ok_def)
  then have vis: "distinct (map qu_name ?vis)" by (rule distinct_map_filter)
  have nm: "wq_Name (queueFromConfig (scanQueueRow rnd r)) = qu_name r" for r
    by (simp add: queueFromConfig_def scanQueueRow_def Let_def)
  show ?thesis
    using fold_publish [OF vis, of wq_Name "\<lambda>r. queueFromConfig (scanQueueRow rnd r)" "\<lambda>n. listened = [] \<or> n \<in> set listened"
        "[InternalQueueName \<mapsto> internalQueue]" name, OF nm]
    by (simp add: queuesToListen_def ListQueues_nil o_def lookup_by_filter [OF d] split: option.splits)
qed

lemma served_queues_witness:
  "map_option wq_Name (queuesToListen [''q''] Map.empty
     (Inr (ListQueues sample_sysdb_ctx id None (empty_sysdb\<lparr>queues := [queue_insert id 0 ''u'' sample_queue None]\<rparr>))) ''q'') = Some ''q''"
  by (subst served_queues) (simp_all add: pk_ok_def empty_sysdb_def sample_queue_def nameFilter_def queueFromConfig_def
      scanQueueRow_def queue_insert_def Let_def)

end
