(* ===== verification/Api.thy ===== *)
theory Api
  imports Txn
begin

text \<open>
  The shape shared by the operations of a \<^verbatim>\<open>dbosContext\<close> on the system database
  (\<^verbatim>\<open>src/dbos/workflow.go\<close>): outside of a workflow they run by themselves, inside of one as a step, or as a
  transactional step if they write, so that a replay of the workflow does not repeat them. The
  results of the operations are of various types; a \<open>boxed\<close> says how one of them is a
  value of the step.
\<close>

record ('v, 'a) boxed =
  bx_type :: "'v go_type"
  bx_wrap :: "'a \<Rightarrow> 'v"
  bx_unwrap :: "'v \<Rightarrow> 'a"

abbreviation bx_zero :: "('v, 'a) boxed \<Rightarrow> 'a" where
  "bx_zero bx \<equiv> bx_unwrap bx (ZeroValue (bx_type bx))"

text \<open>An operation that reads, or whose statement is made durable by the checkpoint that follows it.\<close>

definition op_body :: "('v, 'a) boxed \<Rightarrow> (sysdb \<Rightarrow> ('a \<times> sysdb) res) \<Rightarrow> ('v, 'w) body" where
  "op_body bx op = (\<lambda>(db, w). case op db of
     Inl e \<Rightarrow> ((ZeroValue (bx_type bx), Some e), (db, w))
   | Inr (a, db') \<Rightarrow> ((bx_wrap bx a, None), (db', w)))"

definition run_plain ::
  "('v, 'a) boxed \<Rightarrow> (sysdb \<Rightarrow> ('a \<times> sysdb) res) \<Rightarrow> 'w state \<Rightarrow> (('a \<times> go_error option) \<times> 'w workflowState option \<times> 'w state) option" where
  "run_plain bx op st =
     (case op (fst st) of
        Inl e \<Rightarrow> Some ((bx_zero bx, Some e), None, st)
      | Inr (a, db') \<Rightarrow> Some ((a, None), None, (db', snd st)))"

definition run_step_op ::
  "('v, 'w) dbosContext \<Rightarrow> ('v, 'a) boxed \<Rightarrow> string \<Rightarrow> (sysdb \<Rightarrow> ('a \<times> sysdb) res) \<Rightarrow> 'w workflowState option \<Rightarrow> 'w state \<Rightarrow>
   (('a \<times> go_error option) \<times> 'w workflowState option \<times> 'w state) option" where
  "run_step_op c bx name op wfState st =
     (case wfState of
        Some ws \<Rightarrow> map_option (\<lambda>((v, err), ws', st'). ((bx_unwrap bx v, err), ws', st'))
          (RunAsStep c (bx_type bx) [] (Some ws) (Some (op_body bx op)) [WithStepName name] st)
      | None \<Rightarrow> run_plain bx op st)"

definition run_txn_op ::
  "('v, 'w) dbosContext \<Rightarrow> (go_error \<Rightarrow> bool) \<Rightarrow> ('v, 'a) boxed \<Rightarrow> string \<Rightarrow> (sysdb \<Rightarrow> ('a \<times> sysdb) res) \<Rightarrow> 'w workflowState option \<Rightarrow>
   'w state \<Rightarrow> (('a \<times> go_error option) \<times> 'w workflowState option \<times> 'w state) option" where
  "run_txn_op c retryable bx name op wfState st =
     (case wfState of
        Some ws \<Rightarrow> map_option (\<lambda>((v, err), ws', st'). ((bx_unwrap bx v, err), ws', st'))
          (runAsTxn c retryable (bx_type bx) [] (Some ws) (Some (op_body bx op)) [WithStepName name] st)
      | None \<Rightarrow> run_plain bx op st)"

end
