(* ===== verification/Functions.thy ===== *)
theory Functions
  imports Models
begin

text \<open>
  The registry of workflow functions (\<^verbatim>\<open>registerWorkflow\<close>, \<^verbatim>\<open>RegisterWorkflow\<close>, \<^verbatim>\<open>resolveWorkflowName\<close> of
  \<^verbatim>\<open>src/dbos/workflow.go\<close>) and the lookup by recorded name that the dispatch uses. The
  type \<open>'f\<close> stands for the two type-erased functions of an entry. What reflection says of a
  function value is the argument \<open>fn_value\<close>.
\<close>

record 'f WorkflowRegistryEntry =
  re_fn :: 'f
  re_MaxRetries :: int
  re_Name :: string
  re_FQN :: string
  re_ClassName :: string
  re_ConfigName :: string

record 'f wf_registry =
  launched :: bool
  workflowRegistry :: "string \<Rightarrow> 'f WorkflowRegistryEntry option"
  workflowCustomNametoFQN :: "string \<Rightarrow> string option"

definition instanceQualifiedName :: "string \<Rightarrow> string \<Rightarrow> string" where
  "instanceQualifiedName name configName = name @ ''/'' @ configName"

text \<open>The first result is the panic, if there was one; the maps keep what was stored before it.\<close>

definition registerWorkflow :: "'f WorkflowRegistryEntry \<Rightarrow> 'f wf_registry \<Rightarrow> go_error option \<times> 'f wf_registry" where
  "registerWorkflow entry c =
     (if launched c then (Some (ErrorText ''Cannot register workflow after DBOS has launched''), c)
      else if workflowRegistry c (re_FQN entry) \<noteq> None then (Some (NewConflictingRegistrationError (re_FQN entry)), c)
      else
        let c1 = c\<lparr>workflowRegistry := (workflowRegistry c)(re_FQN entry \<mapsto> entry)\<rparr> in
        if re_Name entry \<noteq> []
        then let lookupName = (if re_ConfigName entry \<noteq> [] then instanceQualifiedName (re_Name entry) (re_ConfigName entry)
                               else re_Name entry) in
             if workflowCustomNametoFQN c1 lookupName \<noteq> None then (Some (NewConflictingRegistrationError lookupName), c1)
             else (None, c1\<lparr>workflowCustomNametoFQN := (workflowCustomNametoFQN c1)(lookupName \<mapsto> re_FQN entry)\<rparr>)
        else (None, c1\<lparr>workflowCustomNametoFQN := (workflowCustomNametoFQN c1)(re_FQN entry \<mapsto> re_FQN entry)\<rparr>))"

record workflowRegistrationOptions =
  wr_maxRetries :: int
  wr_name :: string
  wr_instance :: "(string \<times> string) option"

text \<open>An instance is given by its config name and the name of its type.\<close>

type_synonym WorkflowRegistrationOption = "workflowRegistrationOptions \<Rightarrow> workflowRegistrationOptions"

definition DEFAULT_MAX_RECOVERY_ATTEMPTS :: int where
  "DEFAULT_MAX_RECOVERY_ATTEMPTS = 100"

definition WithMaxRecoveryAttempts :: "int \<Rightarrow> WorkflowRegistrationOption" where
  "WithMaxRecoveryAttempts n p = p\<lparr>wr_maxRetries := n\<rparr>"

definition WithWorkflowName :: "string \<Rightarrow> WorkflowRegistrationOption" where
  "WithWorkflowName name p = p\<lparr>wr_name := name\<rparr>"

definition WithInstance :: "string \<times> string \<Rightarrow> WorkflowRegistrationOption" where
  "WithInstance inst p = p\<lparr>wr_instance := Some inst\<rparr>"

text \<open>What reflection says of a function value; \<open>fv_params\<close> are the strings of its type arguments.\<close>

record fn_value =
  fv_isFunc :: bool
  fv_numIn :: nat
  fv_takesScheduledInput :: bool
  fv_Name :: string
  fv_params :: "string \<times> string"

definition resolveWorkflowFunctionName :: "fn_value \<Rightarrow> string" where
  "resolveWorkflowFunctionName fn =
     (if CHR ''['' \<in> set (fv_Name fn)
      then takeWhile (\<lambda>c. c \<noteq> CHR ''['') (fv_Name fn) @ ''['' @ fst (fv_params fn) @ '','' @ snd (fv_params fn) @ '']''
      else fv_Name fn)"

text \<open>The function itself is \<open>f\<close>; \<open>None\<close> is a nil function.\<close>

definition RegisterWorkflow ::
  "(fn_value \<times> 'f) option \<Rightarrow> WorkflowRegistrationOption list \<Rightarrow> 'f wf_registry \<Rightarrow> go_error option \<times> 'f wf_registry" where
  "RegisterWorkflow fn opts c =
     (case fn of
        None \<Rightarrow> (Some (ErrorText ''workflow function cannot be nil''), c)
      | Some (v, f) \<Rightarrow>
          let p = fold (\<lambda>opt p. opt p) opts \<lparr>wr_maxRetries = DEFAULT_MAX_RECOVERY_ATTEMPTS, wr_name = [], wr_instance = None\<rparr>;
              fqn = resolveWorkflowFunctionName v
          in case wr_instance p of
               None \<Rightarrow> registerWorkflow \<lparr>re_fn = f, re_MaxRetries = wr_maxRetries p, re_Name = wr_name p, re_FQN = fqn,
                         re_ClassName = [], re_ConfigName = []\<rparr> c
             | Some (configName, className) \<Rightarrow>
                 if configName = []
                 then (Some (ErrorText (''configured instance for workflow '' @ fqn @ '' must have a non-empty config name'')), c)
                 else registerWorkflow \<lparr>re_fn = f, re_MaxRetries = wr_maxRetries p,
                        re_Name = (if wr_name p = [] then fqn else wr_name p), re_FQN = instanceQualifiedName fqn configName,
                        re_ClassName = className, re_ConfigName = configName\<rparr> c)"

definition resolveWorkflowName :: "'f wf_registry \<Rightarrow> fn_value option \<Rightarrow> string res" where
  "resolveWorkflowName c workflowFn =
     (case workflowFn of
        None \<Rightarrow> Inl (ErrorText ''workflow function is required'')
      | Some v \<Rightarrow>
          (case workflowRegistry c (fv_Name v) of
             None \<Rightarrow> Inl (ErrorText (''workflow function not registered: '' @ fv_Name v @
                       '' (note: configured instances are not supported with scheduled workflows)''))
           | Some entry \<Rightarrow> Inr (if re_Name entry \<noteq> [] then re_Name entry else re_FQN entry)))"

text \<open>
  The lookup by the recorded name and config name that the queue runner performs for a dequeued
  workflow (\<^verbatim>\<open>startDequeuedWorkflows\<close>).
\<close>

definition lookup_recorded :: "'f wf_registry \<Rightarrow> string \<Rightarrow> string option \<Rightarrow> 'f WorkflowRegistryEntry option" where
  "lookup_recorded c name configName =
     (let lookupName = (case configName of Some cfg \<Rightarrow> if cfg \<noteq> [] then instanceQualifiedName name cfg else name | None \<Rightarrow> name)
      in case workflowCustomNametoFQN c lookupName of
           None \<Rightarrow> None
         | Some fqn \<Rightarrow> workflowRegistry c fqn)"

section \<open>Registered workflows are found by their recorded name\<close>

text \<open>The name under which the runs of an entry are recorded, and the key it is dispatched by.\<close>

definition recorded_name :: "'f WorkflowRegistryEntry \<Rightarrow> string" where
  "recorded_name entry = (if re_Name entry \<noteq> [] then re_Name entry else re_FQN entry)"

definition registry_key :: "'f WorkflowRegistryEntry \<Rightarrow> string" where
  "registry_key entry = (if re_ConfigName entry \<noteq> [] then instanceQualifiedName (recorded_name entry) (re_ConfigName entry)
     else recorded_name entry)"

text \<open>Every entry is dispatched to by the name its runs are recorded under.\<close>

definition registry_ok :: "'f wf_registry \<Rightarrow> bool" where
  "registry_ok c \<longleftrightarrow> (\<forall>fqn e. workflowRegistry c fqn = Some e \<longrightarrow>
     re_FQN e = fqn \<and> workflowCustomNametoFQN c (registry_key e) = Some fqn)"

lemma lookup_recorded_key:
  "lookup_recorded c (recorded_name e) (Some (re_ConfigName e)) =
     Option.bind (workflowCustomNametoFQN c (registry_key e)) (workflowRegistry c)"
  by (auto simp: lookup_recorded_def registry_key_def Let_def split: option.splits)

lemma registry_ok_lookup:
  "registry_ok c \<Longrightarrow> workflowRegistry c fqn = Some e \<Longrightarrow> lookup_recorded c (recorded_name e) (Some (re_ConfigName e)) = Some e"
  by (simp add: lookup_recorded_key registry_ok_def)

text \<open>Only an unnamed entry can take the key of another one.\<close>

definition key_free :: "'f WorkflowRegistryEntry \<Rightarrow> 'f wf_registry \<Rightarrow> bool" where
  "key_free entry c \<longleftrightarrow> re_Name entry \<noteq> [] \<or> re_ConfigName entry = [] \<and> workflowCustomNametoFQN c (re_FQN entry) = None"

lemma registerWorkflow_ok:
  assumes "registry_ok c" and "key_free entry c" and "registerWorkflow entry c = (None, c')"
  shows "registry_ok c'" and "workflowRegistry c' = (workflowRegistry c)(re_FQN entry \<mapsto> entry)"
proof -
  have new: "workflowRegistry c (re_FQN entry) = None" and c': "c' = c\<lparr>workflowRegistry := (workflowRegistry c)(re_FQN entry \<mapsto> entry),
      workflowCustomNametoFQN := (workflowCustomNametoFQN c)(registry_key entry \<mapsto> re_FQN entry)\<rparr>"
    and free: "workflowCustomNametoFQN c (registry_key entry) = None"
    using assms(2,3) by (auto simp: registerWorkflow_def key_free_def registry_key_def recorded_name_def Let_def split: if_splits)
  have "registry_key e \<noteq> registry_key entry" if "workflowRegistry c fqn = Some e" for fqn e
    using assms(1) that free by (metis option.distinct(1) registry_ok_def)
  with new c' assms(1) show "registry_ok c'" unfolding registry_ok_def by (auto split: if_splits)
  show "workflowRegistry c' = (workflowRegistry c)(re_FQN entry \<mapsto> entry)" using c' by simp
qed

text \<open>The entry \<^verbatim>\<open>RegisterWorkflow\<close> builds.\<close>

definition built_entry :: "fn_value \<Rightarrow> 'f \<Rightarrow> workflowRegistrationOptions \<Rightarrow> 'f WorkflowRegistryEntry" where
  "built_entry v f p =
     (let fqn = resolveWorkflowFunctionName v in
      case wr_instance p of
        None \<Rightarrow> \<lparr>re_fn = f, re_MaxRetries = wr_maxRetries p, re_Name = wr_name p, re_FQN = fqn, re_ClassName = [], re_ConfigName = []\<rparr>
      | Some (configName, className) \<Rightarrow>
          \<lparr>re_fn = f, re_MaxRetries = wr_maxRetries p, re_Name = (if wr_name p = [] then fqn else wr_name p),
           re_FQN = instanceQualifiedName fqn configName, re_ClassName = className, re_ConfigName = configName\<rparr>)"

abbreviation registration_options :: "WorkflowRegistrationOption list \<Rightarrow> workflowRegistrationOptions" where
  "registration_options opts \<equiv>
     fold (\<lambda>opt p. opt p) opts \<lparr>wr_maxRetries = DEFAULT_MAX_RECOVERY_ATTEMPTS, wr_name = [], wr_instance = None\<rparr>"

lemma RegisterWorkflow_built:
  "RegisterWorkflow (Some (v, f)) opts c = (None, c') \<Longrightarrow>
   registerWorkflow (built_entry v f (registration_options opts)) c = (None, c')"
  by (auto simp: RegisterWorkflow_def built_entry_def Let_def split: option.splits if_splits)

text \<open>
  A workflow that was registered without a panic is found by the name and config name its runs
  are recorded under, and so is every workflow registered before: the queue runner and recovery
  run each recorded workflow with the function it was registered with. The one condition is that
  an unnamed function does not have the custom name of another as its fully qualified name.
\<close>

lemma registered_workflow_found:
  assumes "registry_ok c" and "RegisterWorkflow (Some (v, f)) opts c = (None, c')"
    and "entry = built_entry v f (registration_options opts)" and "key_free entry c"
  shows "registry_ok c' \<and> lookup_recorded c' (recorded_name entry) (Some (re_ConfigName entry)) = Some entry \<and>
    (\<forall>fqn e. workflowRegistry c fqn = Some e \<longrightarrow> lookup_recorded c' (recorded_name e) (Some (re_ConfigName e)) = Some e)"
proof -
  have run: "registerWorkflow entry c = (None, c')" using RegisterWorkflow_built [OF assms(2)] assms(3) by simp
  note ok = registerWorkflow_ok [OF assms(1,4) run]
  have "workflowRegistry c (re_FQN entry) = None" using run by (auto simp: registerWorkflow_def split: if_splits)
  then have "workflowRegistry c' fqn = Some e" if "workflowRegistry c fqn = Some e" for fqn e using that ok(2) by auto
  moreover have "workflowRegistry c' (re_FQN entry) = Some entry" using ok(2) by simp
  ultimately show ?thesis using ok(1) registry_ok_lookup by blast
qed

definition empty_registry :: "'f wf_registry" where
  "empty_registry = \<lparr>launched = False, workflowRegistry = Map.empty, workflowCustomNametoFQN = Map.empty\<rparr>"

definition sample_fn :: "string \<Rightarrow> fn_value" where
  "sample_fn name = \<lparr>fv_isFunc = True, fv_numIn = 2, fv_takesScheduledInput = True, fv_Name = name, fv_params = ([], [])\<rparr>"

lemma registered_workflow_found_witness:
  "let c = snd (RegisterWorkflow (Some (sample_fn ''pkg.Send'', True)) [WithInstance (''slack'', ''Slack'')] empty_registry) in
   map_option re_fn (lookup_recorded c ''pkg.Send'' (Some ''slack'')) = Some True"
proof -
  let ?opts = "[WithInstance (''slack'', ''Slack'')]" and ?v = "sample_fn ''pkg.Send''"
  let ?e = "built_entry ?v True (registration_options ?opts)"
  have e: "recorded_name ?e = ''pkg.Send''" "re_ConfigName ?e = ''slack''" "re_fn ?e = True" "key_free ?e empty_registry"
    by (simp_all add: built_entry_def WithInstance_def recorded_name_def resolveWorkflowFunctionName_def sample_fn_def
        key_free_def empty_registry_def instanceQualifiedName_def)
  have ok: "registry_ok (empty_registry :: bool wf_registry)" by (simp add: registry_ok_def empty_registry_def)
  have "fst (RegisterWorkflow (Some (?v, True)) ?opts empty_registry) = None"
    by (simp add: RegisterWorkflow_def registerWorkflow_def WithInstance_def sample_fn_def resolveWorkflowFunctionName_def empty_registry_def Let_def)
  then obtain c where run: "RegisterWorkflow (Some (?v, True)) ?opts empty_registry = (None, c)" by (metis prod.collapse)
  show ?thesis using registered_workflow_found [OF ok run refl e(4)] e run by simp
qed

text \<open>
  The condition is needed. A workflow registered under a custom name is silently displaced when
  a function whose fully qualified name is that custom name is registered after it without a name
  of its own: neither registration panics, and runs recorded for the first are dispatched to the
  second.
\<close>

lemma unnamed_registration_displaces:
  assumes "a \<noteq> n" and "n \<noteq> []" and "CHR ''['' \<notin> set a \<union> set n"
  shows "\<exists>c1 c2. RegisterWorkflow (Some (sample_fn a, f)) [WithWorkflowName n] empty_registry = (None, c1) \<and>
    map_option re_fn (lookup_recorded c1 n None) = Some f \<and>
    RegisterWorkflow (Some (sample_fn n, g)) [] c1 = (None, c2) \<and> map_option re_fn (lookup_recorded c2 n None) = Some g"
  using assms
  by (simp add: RegisterWorkflow_def registerWorkflow_def WithWorkflowName_def sample_fn_def resolveWorkflowFunctionName_def
      empty_registry_def lookup_recorded_def Let_def)

lemma unnamed_registration_displaces_witness:
  "\<exists>c1 c2. RegisterWorkflow (Some (sample_fn ''pkg.A'', True)) [WithWorkflowName ''pkg.B''] empty_registry = (None, c1) \<and>
    map_option re_fn (lookup_recorded c1 ''pkg.B'' None) = Some True \<and>
    RegisterWorkflow (Some (sample_fn ''pkg.B'', False)) [] c1 = (None, c2) \<and>
    map_option re_fn (lookup_recorded c2 ''pkg.B'' None) = Some False"
  by (rule unnamed_registration_displaces) simp_all

end
