(* ===== verification/Schedules.thy ===== *)
theory Schedules
  imports Registry Api Functions
begin

text \<open>
  Cron schedules: the \<^verbatim>\<open>workflow_schedules\<close> table of \<^verbatim>\<open>src/dbos/internal/sysdb/system_database.go\<close>, the
  reconciler and the ticks of \<^verbatim>\<open>src/dbos/scheduler.go\<close>, and the schedule operations of
  \<^verbatim>\<open>src/dbos/workflow.go\<close>. The cron library, the time formats (which depend on the time zone
  database) and the input encoder are the arguments collected in \<open>sched_lib\<close>. A cron schedule is the
  function \<^verbatim>\<open>Next\<close>, which gives the zero time when there is no further activation.
\<close>

record sched_lib =
  cronParse :: "string \<Rightarrow> (gotime \<Rightarrow> gotime) res"
  FormatRFC3339 :: "gotime \<Rightarrow> string"
  FormatRFC3339Nano :: "gotime \<Rightarrow> string"
  ParseRFC3339 :: "string \<Rightarrow> gotime option"
  ParseRFC3339Nano :: "string \<Rightarrow> gotime option"
  encodeScheduledInput :: "(gotime \<Rightarrow> string option \<Rightarrow> (string option \<times> string) res) option"

text \<open>The zero time is before every other time of the model.\<close>

fun Before :: "gotime \<Rightarrow> gotime \<Rightarrow> bool" where
  "Before _ None = False"
| "Before None (Some _) = True"
| "Before (Some a) (Some b) = (a < b)"

section \<open>The table\<close>

record UpsertScheduleDBInput =
  us_ScheduleID :: string
  us_ScheduleName :: string
  us_WorkflowName :: string
  us_WorkflowClassName :: string
  us_Schedule :: string
  us_Context :: string
  us_Status :: ScheduleStatus
  us_AutomaticBackfill :: bool
  us_CronTimezone :: string
  us_QueueName :: string
  us_ApplicationName :: "string option"

abbreviation find_schedule :: "string \<Rightarrow> sysdb \<Rightarrow> schedule_row option" where
  "find_schedule name db \<equiv> lookup_by sc_schedule_name name (workflow_schedules db)"

definition scheduleOwner :: "string \<Rightarrow> string option \<Rightarrow> sysdb \<Rightarrow> string option res" where
  "scheduleOwner name own db =
     resolveRowOwner (map_option sc_application_name (find_schedule name db)) name own ''Schedule''"

definition schedule_insert :: "UpsertScheduleDBInput \<Rightarrow> string option \<Rightarrow> schedule_row" where
  "schedule_insert inp own =
     \<lparr>sc_schedule_id = us_ScheduleID inp, sc_schedule_name = us_ScheduleName inp, sc_workflow_name = us_WorkflowName inp,
      sc_workflow_class_name = nonempty (us_WorkflowClassName inp), sc_schedule = us_Schedule inp,
      sc_status = us_Status inp, sc_context = us_Context inp, sc_last_fired_at = None,
      sc_automatic_backfill = us_AutomaticBackfill inp, sc_cron_timezone = Some (us_CronTimezone inp),
      sc_queue_name = nonempty (us_QueueName inp), sc_application_name = own\<rparr>"

definition schedule_set :: "schedule_row \<Rightarrow> schedule_row \<Rightarrow> schedule_row" where
  "schedule_set ex r =
     r\<lparr>sc_workflow_name := sc_workflow_name ex, sc_workflow_class_name := sc_workflow_class_name ex,
       sc_schedule := sc_schedule ex, sc_context := sc_context ex, sc_cron_timezone := sc_cron_timezone ex,
       sc_queue_name := sc_queue_name ex, sc_automatic_backfill := sc_automatic_backfill ex,
       sc_application_name := coalesce (sc_application_name r) (sc_application_name ex)\<rparr>"

abbreviation duplicate_id :: "string \<Rightarrow> sysdb \<Rightarrow> bool" where
  "duplicate_id sid db \<equiv> exists_where (\<lambda>r. sc_schedule_id r = sid) (workflow_schedules db)"

definition UpsertSchedule :: "UpsertScheduleDBInput \<Rightarrow> sysdb \<Rightarrow> (unit \<times> sysdb) res" where
  "UpsertSchedule inp db =
     (case scheduleOwner (us_ScheduleName inp) (us_ApplicationName inp) db of
        Inl e \<Rightarrow> Inl e
      | Inr own \<Rightarrow>
          let row = schedule_insert inp own;
              db' = (if find_schedule (us_ScheduleName inp) db = None
                     then db\<lparr>workflow_schedules := workflow_schedules db @ [row]\<rparr>
                     else db\<lparr>workflow_schedules := update_where (\<lambda>r. sc_schedule_name r = us_ScheduleName inp)
                                (schedule_set row) (workflow_schedules db)\<rparr>)
          in if duplicate_id (us_ScheduleID inp) db
             then Inl (Errorf ''failed to upsert schedule: '' (ErrorText ''unique constraint violation''))
             else map_sum id (\<lambda>_. ((), db')) (scheduleOwner (us_ScheduleName inp) (us_ApplicationName inp) db'))"

definition sysdb_CreateSchedule :: "UpsertScheduleDBInput \<Rightarrow> sysdb \<Rightarrow> (unit \<times> sysdb) res" where
  "sysdb_CreateSchedule inp db =
     (case scheduleOwner (us_ScheduleName inp) (us_ApplicationName inp) db of
        Inl e \<Rightarrow> Inl e
      | Inr own \<Rightarrow>
          if duplicate_id (us_ScheduleID inp) db \<or> find_schedule (us_ScheduleName inp) db \<noteq> None
          then Inl (Errorf ''failed to create schedule: '' (ErrorText ''unique constraint violation''))
          else Inr ((), db\<lparr>workflow_schedules := workflow_schedules db @ [schedule_insert inp own]\<rparr>))"

record WorkflowSchedule =
  S_ScheduleID :: string
  S_ScheduleName :: string
  S_WorkflowName :: string
  S_WorkflowClassName :: string
  S_Schedule :: string
  S_Status :: ScheduleStatus
  S_Context :: "string option"
  S_LastFiredAt :: "gotime option"
  S_AutomaticBackfill :: bool
  S_CronTimezone :: string
  S_QueueName :: string
  S_ApplicationName :: string

text \<open>\<^verbatim>\<open>strings.TrimSpace\<close> on ASCII text.\<close>

definition is_space :: "char \<Rightarrow> bool" where
  "is_space c \<longleftrightarrow> c \<in> {CHR 0x09, CHR 0x0A, CHR 0x0B, CHR 0x0C, CHR 0x0D, CHR '' ''}"

definition TrimSpace :: "string \<Rightarrow> string" where
  "TrimSpace s = rev (dropWhile is_space (rev (dropWhile is_space s)))"

text \<open>A NULL time zone cannot be scanned into the \<^verbatim>\<open>string\<close> field.\<close>

definition scanSchedule :: "sched_lib \<Rightarrow> schedule_row \<Rightarrow> WorkflowSchedule res" where
  "scanSchedule l r =
     (case sc_cron_timezone r of
        None \<Rightarrow> Inl (Errorf ''failed to scan schedule: '' (ErrorText ''cannot scan NULL into *string''))
      | Some tz \<Rightarrow>
          Inr \<lparr>S_ScheduleID = sc_schedule_id r, S_ScheduleName = sc_schedule_name r, S_WorkflowName = sc_workflow_name r,
            S_WorkflowClassName = derefStr (sc_workflow_class_name r), S_Schedule = sc_schedule r, S_Status = sc_status r,
            S_Context = (if TrimSpace (sc_context r) \<noteq> [] \<and> TrimSpace (sc_context r) \<noteq> ''null'' then Some (sc_context r) else None),
            S_LastFiredAt = Option.bind (sc_last_fired_at r)
              (\<lambda>t. case ParseRFC3339Nano l t of None \<Rightarrow> ParseRFC3339 l t | Some x \<Rightarrow> Some x),
            S_AutomaticBackfill = sc_automatic_backfill r, S_CronTimezone = tz,
            S_QueueName = (case sc_queue_name r of None \<Rightarrow> InternalQueueName | Some q \<Rightarrow> q),
            S_ApplicationName = derefStr (sc_application_name r)\<rparr>)"

primrec scanSchedules :: "sched_lib \<Rightarrow> schedule_row list \<Rightarrow> WorkflowSchedule list res" where
  "scanSchedules l [] = Inr []"
| "scanSchedules l (r # rows) =
     (case scanSchedule l r of
        Inl e \<Rightarrow> Inl e
      | Inr s \<Rightarrow> map_sum id ((#) s) (scanSchedules l rows))"

record ListSchedulesDBInput =
  ls_Statuses :: "ScheduleStatus list"
  ls_WorkflowNames :: "string list"
  ls_ScheduleNames :: "string list"
  ls_ScheduleNamePrefixes :: "string list"
  ls_ApplicationName :: "string list option"

definition schedule_where :: "SysDB \<Rightarrow> ListSchedulesDBInput \<Rightarrow> schedule_row \<Rightarrow> bool" where
  "schedule_where s inp r \<longleftrightarrow>
     (case observabilityNames s (ls_ApplicationName inp) of
        None \<Rightarrow> True
      | Some names \<Rightarrow> names = [] \<or> sql_in (sc_application_name r) names \<or> sc_application_name r = None) \<and>
     (ls_Statuses inp = [] \<or> sc_status r \<in> set (ls_Statuses inp)) \<and>
     (ls_WorkflowNames inp = [] \<or> sc_workflow_name r \<in> set (ls_WorkflowNames inp)) \<and>
     (ls_ScheduleNames inp = [] \<or> sc_schedule_name r \<in> set (ls_ScheduleNames inp)) \<and>
     (ls_ScheduleNamePrefixes inp = [] \<or>
        list_ex (\<lambda>p. sql_like (p @ ''%'') (sc_schedule_name r)) (ls_ScheduleNamePrefixes inp))"

definition sysdb_ListSchedules :: "SysDB \<Rightarrow> sched_lib \<Rightarrow> ListSchedulesDBInput \<Rightarrow> sysdb \<Rightarrow> WorkflowSchedule list res" where
  "sysdb_ListSchedules s l inp db = scanSchedules l (filter (schedule_where s inp) (workflow_schedules db))"

definition sysdb_GetSchedule :: "sched_lib \<Rightarrow> string \<Rightarrow> sysdb \<Rightarrow> WorkflowSchedule option res" where
  "sysdb_GetSchedule l name db =
     map_sum id (\<lambda>xs. case xs of [] \<Rightarrow> None | x # _ \<Rightarrow> Some x)
       (scanSchedules l (filter (\<lambda>r. sc_schedule_name r = name) (workflow_schedules db)))"

record UpdateScheduleDBInput =
  up_ScheduleName :: string
  up_Status :: ScheduleStatus
  up_LastFiredAt :: "gotime option"

definition UpdateSchedule :: "sched_lib \<Rightarrow> UpdateScheduleDBInput \<Rightarrow> sysdb \<Rightarrow> sysdb" where
  "UpdateSchedule l inp db =
     db\<lparr>workflow_schedules := update_where (\<lambda>r. sc_schedule_name r = up_ScheduleName inp)
       (\<lambda>r. r\<lparr>sc_status := up_Status inp, sc_last_fired_at := map_option (FormatRFC3339Nano l) (up_LastFiredAt inp)\<rparr>)
       (workflow_schedules db)\<rparr>"

definition UpdateScheduleLastFiredAt :: "sched_lib \<Rightarrow> string \<Rightarrow> gotime \<Rightarrow> sysdb \<Rightarrow> sysdb" where
  "UpdateScheduleLastFiredAt l name lastFiredAt db =
     db\<lparr>workflow_schedules := update_where (\<lambda>r. sc_schedule_name r = name)
       (\<lambda>r. r\<lparr>sc_last_fired_at := Some (FormatRFC3339Nano l lastFiredAt)\<rparr>) (workflow_schedules db)\<rparr>"

definition sysdb_DeleteSchedule :: "string \<Rightarrow> sysdb \<Rightarrow> sysdb" where
  "sysdb_DeleteSchedule name db = db\<lparr>workflow_schedules := delete_where (\<lambda>r. sc_schedule_name r = name) (workflow_schedules db)\<rparr>"

section \<open>Backfill and trigger\<close>

definition cron_spec :: "string \<Rightarrow> string \<Rightarrow> string" where
  "cron_spec schedule cronTimezone = (if cronTimezone \<noteq> [] then ''CRON_TZ='' @ cronTimezone @ '' '' @ schedule else schedule)"

definition schedule_owner :: "SysDB \<Rightarrow> WorkflowSchedule \<Rightarrow> string" where
  "schedule_owner s sched = (if S_ApplicationName sched = [] then appName s else S_ApplicationName sched)"

definition latest_version :: "SysDB \<Rightarrow> string \<Rightarrow> sysdb \<Rightarrow> string" where
  "latest_version s own db = (case GetLatestApplicationVersion s own db of Inl _ \<Rightarrow> [] | Inr v \<Rightarrow> vi_Name v)"

definition tick_id :: "sched_lib \<Rightarrow> string \<Rightarrow> gotime \<Rightarrow> string" where
  "tick_id l name t = ''sched-'' @ name @ ''-'' @ FormatRFC3339 l t"

definition scheduled_status ::
  "SysDB \<Rightarrow> WorkflowSchedule \<Rightarrow> string \<Rightarrow> string \<Rightarrow> string option \<times> string \<Rightarrow> string \<Rightarrow> instant \<Rightarrow> WorkflowStatus" where
  "scheduled_status s sched name wid enc ver now =
     zero_WorkflowStatus\<lparr>W_ID := wid, W_Status := WorkflowStatusEnqueued, W_Name := S_WorkflowName sched,
       W_ClassName := S_WorkflowClassName sched,
       W_QueueName := (if S_QueueName sched \<noteq> [] then S_QueueName sched else InternalQueueName),
       W_CreatedAt := Some now, W_Input := fst enc, W_Serialization := snd enc, W_ApplicationVersion := ver,
       W_ScheduleName := name, W_ApplicationName := schedule_owner s sched\<rparr>"

record BackfillScheduleDBInput =
  bf_ScheduleName :: string
  bf_StartTime :: gotime
  bf_EndTime :: gotime

text \<open>One activation of the loop of \<^verbatim>\<open>BackfillSchedule\<close>.\<close>

definition backfill_one ::
  "SysDB \<Rightarrow> sched_lib \<Rightarrow> (gotime \<Rightarrow> string option \<Rightarrow> (string option \<times> string) res) \<Rightarrow> WorkflowSchedule \<Rightarrow> string \<Rightarrow> string \<Rightarrow>
   instant \<Rightarrow> gotime \<Rightarrow> sysdb \<Rightarrow> sysdb res" where
  "backfill_one s l enc sched name ver now t db =
     (let wid = tick_id l name t in
      if find_wf wid db \<noteq> None then Inr db
      else case enc t (S_Context sched) of
             Inl e \<Rightarrow> Inl (Errorf (''failed to encode scheduled workflow input for '' @ wid @ '': '') e)
           | Inr encoded \<Rightarrow>
               (case InsertWorkflowStatus s now
                  \<lparr>in_Status = scheduled_status s sched name wid encoded ver now, in_Tx = True, in_OwnerXID = None\<rparr> db of
                  Inl e \<Rightarrow> Inl (Errorf (''failed to enqueue backfill workflow '' @ wid @ '': '') e)
                | Inr (_, db') \<Rightarrow> Inr db'))"

partial_function (option) backfill_loop ::
  "(gotime \<Rightarrow> string) \<Rightarrow> (gotime \<Rightarrow> gotime) \<Rightarrow> gotime \<Rightarrow> (gotime \<Rightarrow> sysdb \<Rightarrow> sysdb res) \<Rightarrow> gotime \<Rightarrow> string list \<Rightarrow> sysdb \<Rightarrow>
   (string list \<times> sysdb) res option" where
  "backfill_loop wid Next endTime one nextTime workflowIDs db =
     (if Before nextTime endTime
      then case one nextTime db of
             Inl e \<Rightarrow> Some (Inl e)
           | Inr db' \<Rightarrow> backfill_loop wid Next endTime one (Next nextTime) (workflowIDs @ [wid nextTime]) db'
      else Some (Inr (workflowIDs, db)))"

definition sysdb_BackfillSchedule ::
  "SysDB \<Rightarrow> sched_lib \<Rightarrow> instant \<Rightarrow> BackfillScheduleDBInput \<Rightarrow> sysdb \<Rightarrow> (string list \<times> sysdb) res option" where
  "sysdb_BackfillSchedule s l now inp db =
     (case encodeScheduledInput l of
        None \<Rightarrow> Some (Inl (ErrorText ''scheduled input encoder is not configured''))
      | Some enc \<Rightarrow>
          (case sysdb_GetSchedule l (bf_ScheduleName inp) db of
             Inl e \<Rightarrow> Some (Inl e)
           | Inr None \<Rightarrow> Some (Inl (NewScheduleNotFoundError (bf_ScheduleName inp)))
           | Inr (Some sched) \<Rightarrow>
               (case cronParse l (cron_spec (S_Schedule sched) (S_CronTimezone sched)) of
                  Inl e \<Rightarrow> Some (Inl (Errorf ''failed to parse cron schedule: '' e))
                | Inr Next \<Rightarrow>
                    backfill_loop (tick_id l (bf_ScheduleName inp)) Next (bf_EndTime inp)
                      (backfill_one s l enc sched (bf_ScheduleName inp) (latest_version s (schedule_owner s sched) db) now)
                      (Next (bf_StartTime inp)) [] db)))"

definition sysdb_TriggerSchedule :: "SysDB \<Rightarrow> sched_lib \<Rightarrow> instant \<Rightarrow> string \<Rightarrow> sysdb \<Rightarrow> (string \<times> sysdb) res" where
  "sysdb_TriggerSchedule s l now name db =
     (if name = [] then Inl (ErrorText ''schedule_name is required'')
      else case encodeScheduledInput l of
        None \<Rightarrow> Inl (ErrorText ''scheduled input encoder is not configured'')
      | Some enc \<Rightarrow>
          (case sysdb_GetSchedule l name db of
             Inl e \<Rightarrow> Inl e
           | Inr None \<Rightarrow> Inl (ErrorText (''schedule not found: '' @ name))
           | Inr (Some sched) \<Rightarrow>
               let wid = ''sched-'' @ name @ ''-trigger-'' @ FormatRFC3339Nano l (Some now) in
               (case enc (Some now) (S_Context sched) of
                  Inl e \<Rightarrow> Inl (Errorf ''failed to encode scheduled workflow input: '' e)
                | Inr encoded \<Rightarrow>
                    (case InsertWorkflowStatus s now
                       \<lparr>in_Status = scheduled_status s sched name wid encoded (latest_version s (schedule_owner s sched) db) now,
                        in_Tx = True, in_OwnerXID = None\<rparr> db of
                       Inl e \<Rightarrow> Inl (Errorf ''failed to enqueue triggered workflow: '' e)
                     | Inr (_, db') \<Rightarrow> Inr (wid, db')))))"

section \<open>Ticks\<close>

definition SCHEDULE_MAX_JITTER :: duration where
  "SCHEDULE_MAX_JITTER = 10 * Second"

text \<open>\<^verbatim>\<open>Next\<close> gives the zero time when there is no further activation; its distance is then negative.\<close>

definition jitterCap :: "(gotime \<Rightarrow> gotime) option \<Rightarrow> gotime \<Rightarrow> duration" where
  "jitterCap sched scheduledTime =
     (case sched of
        None \<Rightarrow> 0
      | Some Next \<Rightarrow>
          (case (Next scheduledTime, scheduledTime) of
             (Some n, Some t) \<Rightarrow> if n - t \<le> 0 then 0 else min ((n - t) div 10) SCHEDULE_MAX_JITTER
           | (None, _) \<Rightarrow> 0
           | (Some n, None) \<Rightarrow> SCHEDULE_MAX_JITTER))"

text \<open>
  What a tick reads of its surroundings: the clock, the encoder of the context and the executor; the
  identity of the process; and \<open>te_others\<close>, what other executors do between the check for an
  existing workflow and the insertion.
\<close>

record tick_env =
  te_now :: instant
  te_fired :: instant
  te_encode :: "gotime \<Rightarrow> string option \<Rightarrow> (string option \<times> string) res"
  te_applicationID :: string
  te_executorID :: string
  te_others :: "sysdb \<Rightarrow> sysdb"

definition tick_status :: "SysDB \<Rightarrow> sched_lib \<Rightarrow> tick_env \<Rightarrow> WorkflowSchedule \<Rightarrow> gotime \<Rightarrow> string option \<times> string \<Rightarrow> string \<Rightarrow> WorkflowStatus" where
  "tick_status s l e sched t enc ver =
     (scheduled_status s sched (S_ScheduleName sched) (tick_id l (S_ScheduleName sched) t) enc ver (te_now e))
       \<lparr>W_ApplicationID := te_applicationID e, W_ExecutorID := te_executorID e\<rparr>"

text \<open>The function \<^verbatim>\<open>buildDBScheduleFunc\<close> returns, applied to a scheduled time.\<close>

definition scheduled_tick ::
  "SysDB \<Rightarrow> sched_lib \<Rightarrow> tick_env \<Rightarrow> WorkflowSchedule \<Rightarrow> gotime \<Rightarrow> sysdb \<Rightarrow> go_error option \<times> sysdb" where
  "scheduled_tick s l e sched t db =
     (let name = S_ScheduleName sched; wid = tick_id l name t in
      case ListWorkflows s (zero_ListWorkflowsDBInput\<lparr>l_WorkflowIDs := [wid]\<rparr>) db of
        Inl err \<Rightarrow> (Some err, db)
      | Inr existing \<Rightarrow>
          if existing \<noteq> [] then (None, db)
          else case te_encode e t (S_Context sched) of
                 Inl err \<Rightarrow> (Some (Errorf ''failed to encode scheduled workflow input: '' err), db)
               | Inr enc \<Rightarrow>
                   let db1 = te_others e db;
                       st = tick_status s l e sched t enc (latest_version s (schedule_owner s sched) db1)
                   in case InsertWorkflowStatus s (te_now e) \<lparr>in_Status = st, in_Tx = True, in_OwnerXID = None\<rparr> db1 of
                        Inl err \<Rightarrow> (Some err, db1)
                      | Inr (_, db2) \<Rightarrow> (None, UpdateScheduleLastFiredAt l name (Some (te_fired e)) db2))"

section \<open>The reconciler\<close>

record scheduleSignature =
  sg_WorkflowName :: string
  sg_WorkflowClassName :: string
  sg_Schedule :: string
  sg_ContextJSON :: string
  sg_CronTimezone :: string
  sg_QueueName :: string

definition calculateSignature :: "WorkflowSchedule \<Rightarrow> scheduleSignature" where
  "calculateSignature s = \<lparr>sg_WorkflowName = S_WorkflowName s, sg_WorkflowClassName = S_WorkflowClassName s,
     sg_Schedule = S_Schedule s, sg_ContextJSON = derefStr (S_Context s), sg_CronTimezone = S_CronTimezone s,
     sg_QueueName = S_QueueName s\<rparr>"

text \<open>
  The scheduler of a process: the two maps of the context, the schedule each cron entry runs, and the
  number of the next entry the cron library hands out.
\<close>

record scheduler =
  scheduleEntryIDs :: "string \<Rightarrow> nat option"
  scheduleInstalledSignatures :: "string \<Rightarrow> scheduleSignature option"
  cron_entries :: "nat \<Rightarrow> WorkflowSchedule option"
  nextEntryID :: nat

definition addDBScheduleToScheduler :: "sched_lib \<Rightarrow> WorkflowSchedule \<Rightarrow> scheduler \<Rightarrow> scheduler" where
  "addDBScheduleToScheduler l sched c =
     (case cronParse l (cron_spec (S_Schedule sched) (S_CronTimezone sched)) of
        Inl _ \<Rightarrow> c
      | Inr _ \<Rightarrow>
          let entryID = nextEntryID c in
          c\<lparr>scheduleEntryIDs := (scheduleEntryIDs c)(S_ScheduleName sched \<mapsto> entryID),
            scheduleInstalledSignatures := (scheduleInstalledSignatures c)(S_ScheduleName sched \<mapsto> calculateSignature sched),
            cron_entries := (cron_entries c)(entryID \<mapsto> sched), nextEntryID := entryID + 1\<rparr>)"

definition removeDBScheduleFromScheduler :: "string \<Rightarrow> scheduler \<Rightarrow> scheduler" where
  "removeDBScheduleFromScheduler name c =
     (case scheduleEntryIDs c name of
        None \<Rightarrow> c
      | Some entryID \<Rightarrow>
          c\<lparr>scheduleEntryIDs := (scheduleEntryIDs c)(name := None),
            scheduleInstalledSignatures := (scheduleInstalledSignatures c)(name := None),
            cron_entries := (cron_entries c)(entryID := None)\<rparr>)"

text \<open>The result \<open>None\<close> is a backfill that does not return.\<close>

definition maybeAutomaticBackfill :: "SysDB \<Rightarrow> sched_lib \<Rightarrow> instant \<Rightarrow> WorkflowSchedule \<Rightarrow> sysdb \<Rightarrow> sysdb option" where
  "maybeAutomaticBackfill s l now sched db =
     (case S_LastFiredAt sched of
        None \<Rightarrow> Some db
      | Some lastFired \<Rightarrow>
          let start = map_option (\<lambda>t. t + Second) lastFired; endTime = Some now in
          if \<not> S_AutomaticBackfill sched \<or> \<not> Before start endTime then Some db
          else map_option (\<lambda>r. case r of Inl _ \<Rightarrow> db | Inr (_, db') \<Rightarrow> db')
                 (sysdb_BackfillSchedule s l now \<lparr>bf_ScheduleName = S_ScheduleName sched, bf_StartTime = start, bf_EndTime = endTime\<rparr> db))"

definition reconcile_one :: "SysDB \<Rightarrow> sched_lib \<Rightarrow> instant \<Rightarrow> WorkflowSchedule \<Rightarrow> scheduler \<times> sysdb \<Rightarrow> (scheduler \<times> sysdb) option" where
  "reconcile_one s l now sched = (\<lambda>(c, db).
     let name = S_ScheduleName sched in
     if S_Status sched \<noteq> ScheduleStatusActive then Some (c, db)
     else if scheduleEntryIDs c name \<noteq> None
     then if scheduleInstalledSignatures c name = Some (calculateSignature sched) then Some (c, db)
          else Some (addDBScheduleToScheduler l sched (removeDBScheduleFromScheduler name c), db)
     else map_option (\<lambda>db'. (addDBScheduleToScheduler l sched c, db')) (maybeAutomaticBackfill s l now sched db))"

primrec reconcile_all :: "SysDB \<Rightarrow> sched_lib \<Rightarrow> instant \<Rightarrow> WorkflowSchedule list \<Rightarrow> scheduler \<times> sysdb \<Rightarrow> (scheduler \<times> sysdb) option" where
  "reconcile_all s l now [] st = Some st"
| "reconcile_all s l now (sched # rest) st = Option.bind (reconcile_one s l now sched st) (reconcile_all s l now rest)"

text \<open>
  The installed names are visited in the order of the list \<open>installed\<close>, the order in which Go ranges over
  the map; the listed schedules in the order of the listing.
\<close>

definition reconcileSchedules ::
  "SysDB \<Rightarrow> sched_lib \<Rightarrow> instant \<Rightarrow> string list \<Rightarrow> scheduler \<times> sysdb \<Rightarrow> (scheduler \<times> sysdb) option" where
  "reconcileSchedules s l now installed = (\<lambda>(c, db).
     case sysdb_ListSchedules s l \<lparr>ls_Statuses = [], ls_WorkflowNames = [], ls_ScheduleNames = [],
            ls_ScheduleNamePrefixes = [], ls_ApplicationName = None\<rparr> db of
       Inl _ \<Rightarrow> Some (c, db)
     | Inr schedules \<Rightarrow>
         let current = lookup_by S_ScheduleName;
             toRemove = filter (\<lambda>name. scheduleEntryIDs c name \<noteq> None \<and>
               (case current name schedules of None \<Rightarrow> True | Some sched \<Rightarrow> S_Status sched \<noteq> ScheduleStatusActive)) installed
         in reconcile_all s l now schedules (fold removeDBScheduleFromScheduler toRemove c, db))"

section \<open>The schedule operations of a context\<close>

text \<open>
  \<^verbatim>\<open>sp_Context\<close> is what \<^verbatim>\<open>json.Marshal\<close> makes of the user's value.
\<close>

record ScheduleSpec =
  sp_ScheduleName :: string
  sp_Schedule :: string
  sp_WorkflowName :: string
  sp_Workflow :: "fn_value option"
  sp_WorkflowClassName :: string
  sp_Context :: "string res"
  sp_AutomaticBackfill :: bool
  sp_CronTimezone :: string
  sp_QueueName :: string
  sp_ApplicationName :: string

definition quoted :: "string \<Rightarrow> string" where
  "quoted x = [CHR 0x22] @ x @ [CHR 0x22]"

definition validateCronSchedule :: "sched_lib \<Rightarrow> string \<Rightarrow> string \<Rightarrow> unit res" where
  "validateCronSchedule l spec cronTimezone =
     (if spec = [] then Inl (NewInvalidOptionError ''schedule is required'')
      else case cronParse l (cron_spec spec cronTimezone) of
             Inl e \<Rightarrow> Inl (NewInvalidOptionError (''invalid cron schedule '' @ quoted spec @ '': '' @ error_text e))
           | Inr _ \<Rightarrow> Inr ())"

text \<open>
  A function value that is a function and whose second parameter is not \<^verbatim>\<open>ScheduledWorkflowInput\<close> is
  refused; the message names the parameter's type.
\<close>

definition validateScheduledWorkflowFn :: "fn_value \<Rightarrow> unit res" where
  "validateScheduledWorkflowFn fn =
     (if \<not> fv_isFunc fn then Inl (ErrorText ''workflow function must be a function'')
      else if fv_numIn fn < 2 then Inl (ErrorText ''workflow function must accept (Context, ScheduledWorkflowInput)'')
      else if \<not> fv_takesScheduledInput fn
      then Inl (ErrorText (''scheduled workflow function must accept a ScheduledWorkflowInput as input, got '' @ fst (fv_params fn)))
      else Inr ())"

definition resolveScheduleWorkflowName :: "'f wf_registry \<Rightarrow> ScheduleSpec \<Rightarrow> string res" where
  "resolveScheduleWorkflowName reg spec =
     (case sp_Workflow spec of
        Some fn \<Rightarrow> (case validateScheduledWorkflowFn fn of Inl e \<Rightarrow> Inl e | Inr _ \<Rightarrow> resolveWorkflowName reg (Some fn))
      | None \<Rightarrow>
          if sp_WorkflowName spec = [] then Inl (NewInvalidOptionError ''one of workflow_name or workflow is required'')
          else Inr (sp_WorkflowName spec))"

definition schedule_input :: "SysDB \<Rightarrow> ScheduleSpec \<Rightarrow> string \<Rightarrow> string \<Rightarrow> string \<Rightarrow> string \<Rightarrow> UpsertScheduleDBInput" where
  "schedule_input s spec uuid workflowName contextJSON queueName =
     \<lparr>us_ScheduleID = uuid, us_ScheduleName = sp_ScheduleName spec, us_WorkflowName = workflowName,
      us_WorkflowClassName = sp_WorkflowClassName spec, us_Schedule = sp_Schedule spec, us_Context = contextJSON,
      us_Status = ScheduleStatusActive, us_AutomaticBackfill = sp_AutomaticBackfill spec,
      us_CronTimezone = sp_CronTimezone spec, us_QueueName = queueName,
      us_ApplicationName = requestedOwner s (sp_ApplicationName spec)\<rparr>"

definition create_input :: "SysDB \<Rightarrow> sched_lib \<Rightarrow> 'f wf_registry \<Rightarrow> string \<Rightarrow> ScheduleSpec \<Rightarrow> UpsertScheduleDBInput res" where
  "create_input s l reg uuid spec =
     (if sp_ScheduleName spec = [] then Inl (NewInvalidOptionError ''schedule_name is required'')
      else case resolveScheduleWorkflowName reg spec of
             Inl e \<Rightarrow> Inl e
           | Inr workflowName \<Rightarrow>
               (case validateCronSchedule l (sp_Schedule spec) (sp_CronTimezone spec) of
                  Inl e \<Rightarrow> Inl e
                | Inr _ \<Rightarrow>
                    (case sp_Context spec of
                       Inl e \<Rightarrow> Inl (Errorf ''failed to serialize context: '' e)
                     | Inr contextJSON \<Rightarrow> Inr (schedule_input s spec uuid workflowName contextJSON (sp_QueueName spec)))))"

definition CreateSchedule ::
  "('v, 'w) dbosContext \<Rightarrow> (go_error \<Rightarrow> bool) \<Rightarrow> ('v, unit) boxed \<Rightarrow> sched_lib \<Rightarrow> 'f wf_registry \<Rightarrow> string \<Rightarrow> ScheduleSpec \<Rightarrow>
   'w workflowState option \<Rightarrow> 'w state \<Rightarrow> ((unit \<times> go_error option) \<times> 'w workflowState option \<times> 'w state) option" where
  "CreateSchedule c retryable bx l reg uuid spec wfState st =
     (case create_input (c_systemDB c) l reg uuid spec of
        Inl e \<Rightarrow> Some (((), Some e), wfState, st)
      | Inr inp \<Rightarrow> run_txn_op c retryable bx ''DBOS.createSchedule'' (sysdb_CreateSchedule inp) wfState st)"

definition validate_entry :: "sched_lib \<Rightarrow> 'f wf_registry \<Rightarrow> int \<Rightarrow> ScheduleSpec \<Rightarrow> unit res" where
  "validate_entry l reg i spec =
     (let entry = (\<lambda>e. Inl (Errorf (''schedule entry '' @ show_int i @ '': '') e)) in
      if sp_ScheduleName spec = []
      then Inl (NewInvalidOptionError (''schedule entry '' @ show_int i @ '' is missing required field '' @ [CHR 0x27] @ ''schedule_name'' @ [CHR 0x27]))
      else case validateCronSchedule l (sp_Schedule spec) (sp_CronTimezone spec) of
             Inl e \<Rightarrow> entry e
           | Inr _ \<Rightarrow> (case resolveScheduleWorkflowName reg spec of Inl e \<Rightarrow> entry e | Inr _ \<Rightarrow> Inr ()))"

primrec validate_entries :: "sched_lib \<Rightarrow> 'f wf_registry \<Rightarrow> int \<Rightarrow> ScheduleSpec list \<Rightarrow> unit res" where
  "validate_entries l reg i [] = Inr ()"
| "validate_entries l reg i (spec # specs) =
     (case validate_entry l reg i spec of Inl e \<Rightarrow> Inl e | Inr _ \<Rightarrow> validate_entries l reg (i + 1) specs)"

definition apply_one :: "SysDB \<Rightarrow> 'f wf_registry \<Rightarrow> string \<Rightarrow> ScheduleSpec \<Rightarrow> sysdb \<Rightarrow> sysdb res" where
  "apply_one s reg uuid spec db =
     (case resolveScheduleWorkflowName reg spec of
        Inl e \<Rightarrow> Inl e
      | Inr workflowName \<Rightarrow>
          (case sp_Context spec of
             Inl e \<Rightarrow> Inl (Errorf ''failed to serialize context: '' e)
           | Inr contextJSON \<Rightarrow>
               let queueName = (if sp_QueueName spec = [] then InternalQueueName else sp_QueueName spec) in
               (case UpsertSchedule (schedule_input s spec uuid workflowName contextJSON queueName) db of
                  Inl e \<Rightarrow> Inl (Errorf ''failed to upsert schedule: '' e)
                | Inr (_, db') \<Rightarrow> Inr db')))"

primrec apply_all :: "SysDB \<Rightarrow> 'f wf_registry \<Rightarrow> (string \<times> ScheduleSpec) list \<Rightarrow> sysdb \<Rightarrow> sysdb res" where
  "apply_all s reg [] db = Inr db"
| "apply_all s reg (x # xs) db =
     (case apply_one s reg (fst x) (snd x) db of Inl e \<Rightarrow> Inl e | Inr db' \<Rightarrow> apply_all s reg xs db')"

text \<open>The upserts share one transaction; each entry comes with the uuid drawn for it.\<close>

definition ApplySchedules ::
  "SysDB \<Rightarrow> sched_lib \<Rightarrow> 'f wf_registry \<Rightarrow> 'w workflowState option \<Rightarrow> (string \<times> ScheduleSpec) list \<Rightarrow> sysdb \<Rightarrow> go_error option \<times> sysdb" where
  "ApplySchedules s l reg wfState entries db =
     (if wfState \<noteq> None then (Some (ErrorText ''DBOS.ApplySchedules cannot be called from within a workflow''), db)
      else if entries = [] then (None, db)
      else case validate_entries l reg 0 (map snd entries) of
             Inl e \<Rightarrow> (Some e, db)
           | Inr _ \<Rightarrow> (case apply_all s reg entries db of Inl e \<Rightarrow> (Some e, db) | Inr db' \<Rightarrow> (None, db')))"

definition GetSchedule ::
  "('v, 'w) dbosContext \<Rightarrow> ('v, WorkflowSchedule option) boxed \<Rightarrow> sched_lib \<Rightarrow> string \<Rightarrow> 'w workflowState option \<Rightarrow> 'w state \<Rightarrow>
   (WorkflowSchedule res \<times> 'w workflowState option \<times> 'w state) option" where
  "GetSchedule c bx l name wfState st =
     (if name = [] then Some (Inl (ErrorText ''schedule_name is required''), wfState, st)
      else map_option (\<lambda>((schedule, err), ws, st').
             (case err of
                Some e \<Rightarrow> Inl e
              | None \<Rightarrow> (case schedule of None \<Rightarrow> Inl (NewScheduleNotFoundError name) | Some sched \<Rightarrow> Inr sched), ws, st'))
           (run_step_op c bx ''DBOS.getSchedule'' (\<lambda>db. map_sum id (\<lambda>s. (s, db)) (sysdb_GetSchedule l name db)) wfState st))"

text \<open>\<^verbatim>\<open>PauseSchedule\<close> and \<^verbatim>\<open>ResumeSchedule\<close> differ in the status they set and the name of their step.\<close>

definition set_schedule_status ::
  "('v, 'w) dbosContext \<Rightarrow> (go_error \<Rightarrow> bool) \<Rightarrow> ('v, WorkflowSchedule option) boxed \<Rightarrow> ('v, unit) boxed \<Rightarrow> sched_lib \<Rightarrow> ScheduleStatus \<Rightarrow> string \<Rightarrow>
   string \<Rightarrow> 'w workflowState option \<Rightarrow> 'w state \<Rightarrow> ((unit \<times> go_error option) \<times> 'w workflowState option \<times> 'w state) option" where
  "set_schedule_status c retryable bs bx l status step name wfState st =
     (if name = [] then Some (((), Some (ErrorText ''schedule_name is required'')), wfState, st)
      else case GetSchedule c bs l name wfState st of
             None \<Rightarrow> None
           | Some (Inl e, ws, st1) \<Rightarrow> Some (((), Some (Errorf ''failed to get schedule: '' e)), ws, st1)
           | Some (Inr _, ws, st1) \<Rightarrow>
               run_txn_op c retryable bx step
                 (\<lambda>db. Inr ((), UpdateSchedule l \<lparr>up_ScheduleName = name, up_Status = status, up_LastFiredAt = None\<rparr> db)) ws st1)"

definition PauseSchedule where
  "PauseSchedule c retryable bs bx l = set_schedule_status c retryable bs bx l ScheduleStatusPaused ''DBOS.pauseSchedule''"

definition ResumeSchedule where
  "ResumeSchedule c retryable bs bx l = set_schedule_status c retryable bs bx l ScheduleStatusActive ''DBOS.resumeSchedule''"

definition DeleteSchedule ::
  "('v, 'w) dbosContext \<Rightarrow> (go_error \<Rightarrow> bool) \<Rightarrow> ('v, unit) boxed \<Rightarrow> string \<Rightarrow> 'w workflowState option \<Rightarrow> 'w state \<Rightarrow>
   ((unit \<times> go_error option) \<times> 'w workflowState option \<times> 'w state) option" where
  "DeleteSchedule c retryable bx name wfState st =
     (if name = [] then Some (((), Some (ErrorText ''schedule_name is required'')), wfState, st)
      else run_txn_op c retryable bx ''DBOS.deleteSchedule'' (\<lambda>db. Inr ((), sysdb_DeleteSchedule name db)) wfState st)"

type_synonym ListSchedulesOption = "ListSchedulesDBInput \<Rightarrow> ListSchedulesDBInput"

definition WithScheduleStatuses :: "ScheduleStatus list \<Rightarrow> ListSchedulesOption" where
  "WithScheduleStatuses statuses o' = o'\<lparr>ls_Statuses := statuses\<rparr>"

definition WithScheduleWorkflowNames :: "string list \<Rightarrow> ListSchedulesOption" where
  "WithScheduleWorkflowNames names o' = o'\<lparr>ls_WorkflowNames := names\<rparr>"

definition WithScheduleNames :: "string list \<Rightarrow> ListSchedulesOption" where
  "WithScheduleNames names o' = o'\<lparr>ls_ScheduleNames := names\<rparr>"

definition WithScheduleNamePrefixes :: "string list \<Rightarrow> ListSchedulesOption" where
  "WithScheduleNamePrefixes ps o' = o'\<lparr>ls_ScheduleNamePrefixes := ps\<rparr>"

text \<open>A variadic argument without values is a nil slice.\<close>

definition WithScheduleApplicationNames :: "string list \<Rightarrow> ListSchedulesOption" where
  "WithScheduleApplicationNames names o' = o'\<lparr>ls_ApplicationName := (if names = [] then None else Some names)\<rparr>"

definition ListSchedules ::
  "('v, 'w) dbosContext \<Rightarrow> ('v, WorkflowSchedule list) boxed \<Rightarrow> sched_lib \<Rightarrow> ListSchedulesOption list \<Rightarrow> 'w workflowState option \<Rightarrow> 'w state \<Rightarrow>
   ((WorkflowSchedule list \<times> go_error option) \<times> 'w workflowState option \<times> 'w state) option" where
  "ListSchedules c bx l opts wfState st =
     (let dbInput = fold (\<lambda>opt o'. opt o') opts \<lparr>ls_Statuses = [], ls_WorkflowNames = [], ls_ScheduleNames = [],
            ls_ScheduleNamePrefixes = [], ls_ApplicationName = None\<rparr>
      in run_step_op c bx ''DBOS.listSchedules'' (\<lambda>db. map_sum id (\<lambda>s. (s, db)) (sysdb_ListSchedules (c_systemDB c) l dbInput db)) wfState st)"

definition BackfillSchedule ::
  "SysDB \<Rightarrow> sched_lib \<Rightarrow> instant \<Rightarrow> 'w workflowState option \<Rightarrow> string \<Rightarrow> gotime \<Rightarrow> gotime \<Rightarrow> sysdb \<Rightarrow> (string list \<times> sysdb) res option" where
  "BackfillSchedule s l now wfState name startTime endTime db =
     (if wfState \<noteq> None then Some (Inl (ErrorText ''DBOS.BackfillSchedule cannot be called from within a workflow''))
      else if name = [] then Some (Inl (ErrorText ''schedule_name is required''))
      else sysdb_BackfillSchedule s l now \<lparr>bf_ScheduleName = name, bf_StartTime = startTime, bf_EndTime = endTime\<rparr> db)"

definition TriggerSchedule :: "SysDB \<Rightarrow> sched_lib \<Rightarrow> instant \<Rightarrow> 'w workflowState option \<Rightarrow> string \<Rightarrow> sysdb \<Rightarrow> (string \<times> sysdb) res" where
  "TriggerSchedule s l now wfState name db =
     (if name = [] then Inl (ErrorText ''schedule_name is required'')
      else if wfState \<noteq> None then Inl (ErrorText ''DBOS.TriggerSchedule cannot be called from within a workflow'')
      else sysdb_TriggerSchedule s l now name db)"

section \<open>Backfill enqueues exactly the activations of the window\<close>

text \<open>
  What the cron library documents of \<^verbatim>\<open>Next\<close>: the first activation later than its argument, for a
  schedule \<open>A\<close> that has one after every time.
\<close>

definition cron_next :: "instant set \<Rightarrow> (gotime \<Rightarrow> gotime) \<Rightarrow> bool" where
  "cron_next A Next \<longleftrightarrow>
     (\<forall>t. \<exists>a \<in> A. Next (Some t) = Some a \<and> t < a \<and> (\<forall>b \<in> A. t < b \<longrightarrow> a \<le> b))"

definition window :: "instant set \<Rightarrow> instant \<Rightarrow> instant \<Rightarrow> instant list" where
  "window A st en = sorted_list_of_set {a \<in> A. st < a \<and> a < en}"

lemma window_finite: "finite {a \<in> A. st < a \<and> a < (en :: instant)}"
  by (rule finite_subset [of _ "{st<..<en}"]) auto

lemma set_window [simp]: "set (window A st en) = {a \<in> A. st < a \<and> a < en}"
  by (simp add: window_def window_finite)

lemma window_step:
  assumes a: "a \<in> A" "st < a" "\<And>b. b \<in> A \<Longrightarrow> st < b \<Longrightarrow> a \<le> b"
  shows "window A st en = (if a < en then a # window A a en else [])"
proof (cases "a < en")
  case True
  have "{b \<in> A. st < b \<and> b < en} = insert a {b \<in> A. a < b \<and> b < en}" using a True by force
  then have "window A st en = insort a (window A a en)"
    using sorted_list_of_set_insert_remove [OF window_finite [of A a en], of a] by (simp add: window_def)
  also have "\<dots> = a # window A a en" by (rule insort_is_Cons) auto
  finally show ?thesis using True by simp
next
  case False
  then have "{b \<in> A. st < b \<and> b < en} = {}" using a(3) by force
  then show ?thesis using False by (simp add: window_def)
qed

primrec backfill_list :: "(gotime \<Rightarrow> sysdb \<Rightarrow> sysdb res) \<Rightarrow> instant list \<Rightarrow> sysdb \<Rightarrow> sysdb res" where
  "backfill_list one [] db = Inr db"
| "backfill_list one (a # as) db = (case one (Some a) db of Inl e \<Rightarrow> Inl e | Inr db' \<Rightarrow> backfill_list one as db')"

text \<open>The loop runs the activations of the window in order, and returns.\<close>

lemma backfill_loop_window:
  assumes "cron_next A Next"
  shows "backfill_loop wid Next (Some en) one (Next (Some st)) ids db =
    Some (map_sum id (\<lambda>db'. (ids @ map (\<lambda>a. wid (Some a)) (window A st en), db')) (backfill_list one (window A st en) db))"
proof (induction "nat (en - st)" arbitrary: st ids db rule: less_induct)
  case less
  obtain a where a: "a \<in> A" "Next (Some st) = Some a" "st < a" "\<forall>b \<in> A. st < b \<longrightarrow> a \<le> b"
    using assms unfolding cron_next_def by blast
  have w: "window A st en = (if a < en then a # window A a en else [])" using a(4) by (intro window_step [OF a(1,3)]) auto
  show ?case
  proof (cases "a < en")
    case True
    then have "nat (en - a) < nat (en - st)" using a(3) by linarith
    from less [OF this, of "ids @ [wid (Some a)]"] show ?thesis
      by (subst backfill_loop.simps) (use True in \<open>auto simp: a(2) w split: sum.splits\<close>)
  next
    case False
    then show ?thesis by (subst backfill_loop.simps) (simp add: a(2) w)
  qed
qed

text \<open>The row a backfilled activation inserts.\<close>

definition backfill_row ::
  "SysDB \<Rightarrow> sched_lib \<Rightarrow> (gotime \<Rightarrow> string option \<Rightarrow> (string option \<times> string) res) \<Rightarrow> WorkflowSchedule \<Rightarrow> string \<Rightarrow> string \<Rightarrow>
   instant \<Rightarrow> gotime \<Rightarrow> wf_row" where
  "backfill_row s l enc sched name ver now t =
     insert_row s now \<lparr>in_Status = scheduled_status s sched name (tick_id l name t) (projr (enc t (S_Context sched))) ver now,
       in_Tx = True, in_OwnerXID = None\<rparr>"

lemma backfill_row_sel [simp]:
  "ws_workflow_uuid (backfill_row s l enc sched name ver now t) = tick_id l name t"
  "ws_status (backfill_row s l enc sched name ver now t) = WorkflowStatusEnqueued"
  "ws_name (backfill_row s l enc sched name ver now t) = S_WorkflowName sched"
  "ws_queue_name (backfill_row s l enc sched name ver now t) = Some (if S_QueueName sched \<noteq> [] then S_QueueName sched else InternalQueueName)"
  "ws_schedule_name (backfill_row s l enc sched name ver now t) = nonempty name"
  by (simp_all add: backfill_row_def insert_row_def scheduled_status_def zero_WorkflowStatus_def nonempty_def InternalQueueName_def Let_def)

lemma undeduplicated_insert:
  assumes "in_Tx inp" and "find_wf (W_ID (in_Status inp)) db = None" and "W_DeduplicationID (in_Status inp) = []"
  shows "\<exists>res. InsertWorkflowStatus s now inp db = Inr (res, db\<lparr>workflow_status := workflow_status db @ [insert_row s now inp]\<rparr>)"
proof -
  have "dedup_slot (insert_row s now inp) = None"
    using assms(3) by (simp add: dedup_slot_def insert_row_def nonempty_def Let_def split: option.splits)
  moreover obtain res where "insert_result (in_Status inp) (insert_row s now inp) = Inr res"
    using insert_result_fresh by (metis sum.exhaust)
  ultimately show ?thesis using assms(1,2) by (simp add: InsertWorkflowStatus_def dedup_conflict_def Let_def)
qed

lemma backfill_one_effect:
  assumes "enc t (S_Context sched) = Inr e"
  shows "backfill_one s l enc sched name ver now t db =
    Inr (if find_wf (tick_id l name t) db \<noteq> None then db
         else db\<lparr>workflow_status := workflow_status db @ [backfill_row s l enc sched name ver now t]\<rparr>)"
proof -
  let ?inp = "\<lparr>in_Status = scheduled_status s sched name (tick_id l name t) e ver now, in_Tx = True, in_OwnerXID = None\<rparr>"
  have "W_ID (in_Status ?inp) = tick_id l name t" "W_DeduplicationID (in_Status ?inp) = []"
    by (simp_all add: scheduled_status_def zero_WorkflowStatus_def)
  with undeduplicated_insert [of ?inp db s now] show ?thesis
    using assms by (auto simp: backfill_one_def backfill_row_def Let_def)
qed

text \<open>\<open>fill row wid\<close> adds what is missing for a list of activations.\<close>

definition fill_one :: "(instant \<Rightarrow> wf_row) \<Rightarrow> (instant \<Rightarrow> string) \<Rightarrow> instant \<Rightarrow> sysdb \<Rightarrow> sysdb" where
  "fill_one row wid a db = (if find_wf (wid a) db \<noteq> None then db else db\<lparr>workflow_status := workflow_status db @ [row a]\<rparr>)"

lemma fill_find:
  assumes "\<And>a. ws_workflow_uuid (row a) = wid a"
  shows "find_wf w (fold (fill_one row wid) as db) =
    (case find_wf w db of Some r \<Rightarrow> Some r | None \<Rightarrow> map_option row (List.find (\<lambda>a. wid a = w) as))"
proof (induction as arbitrary: db)
  case (Cons a as)
  have "find_wf w (fill_one row wid a db) = (case find_wf w db of Some r \<Rightarrow> Some r | None \<Rightarrow> if wid a = w then Some (row a) else None)"
    using assms by (auto simp: fill_one_def lookup_by_append split: option.splits)
  with Cons show ?case by (auto split: option.splits)
qed (simp split: option.splits)

lemma fill_tables:
  "(fold (fill_one row wid) as db)\<lparr>workflow_status := rows\<rparr> = db\<lparr>workflow_status := rows\<rparr>"
  by (induction as arbitrary: db) (auto simp: fill_one_def)

lemma fill_again: "(\<And>a. a \<in> set as \<Longrightarrow> find_wf (wid a) db \<noteq> None) \<Longrightarrow> fold (fill_one row wid) as db = db"
  by (induction as) (auto simp: fill_one_def)

lemma backfill_list_fill:
  assumes "\<And>t. \<exists>x. enc t (S_Context sched) = Inr x"
  shows "backfill_list (backfill_one s l enc sched name ver now) as db =
    Inr (fold (fill_one (\<lambda>a. backfill_row s l enc sched name ver now (Some a)) (\<lambda>a. tick_id l name (Some a))) as db)"
proof (induction as arbitrary: db)
  case (Cons a as)
  obtain x where "enc (Some a) (S_Context sched) = Inr x" using assms by blast
  with Cons show ?case by (simp add: backfill_one_effect fill_one_def del: not_None_eq)
qed simp

definition backfillable ::
  "sched_lib \<Rightarrow> string \<Rightarrow> sysdb \<Rightarrow> WorkflowSchedule \<Rightarrow> (gotime \<Rightarrow> string option \<Rightarrow> (string option \<times> string) res) \<Rightarrow> (gotime \<Rightarrow> gotime) \<Rightarrow> bool" where
  "backfillable l name db sched enc Next \<longleftrightarrow>
     sysdb_GetSchedule l name db = Inr (Some sched) \<and> encodeScheduledInput l = Some enc \<and>
     cronParse l (cron_spec (S_Schedule sched) (S_CronTimezone sched)) = Inr Next \<and> (\<forall>t. \<exists>x. enc t (S_Context sched) = Inr x)"

lemma sysdb_BackfillSchedule_fill:
  assumes "backfillable l name db sched enc Next" and "cron_next A Next"
  shows "sysdb_BackfillSchedule s l now \<lparr>bf_ScheduleName = name, bf_StartTime = Some st, bf_EndTime = Some en\<rparr> db =
    Some (Inr (map (\<lambda>a. tick_id l name (Some a)) (window A st en),
      fold (fill_one (\<lambda>a. backfill_row s l enc sched name (latest_version s (schedule_owner s sched) db) now (Some a))
        (\<lambda>a. tick_id l name (Some a))) (window A st en) db))"
  using assms(1) backfill_loop_window [OF assms(2)]
  by (simp add: sysdb_BackfillSchedule_def backfillable_def backfill_list_fill)

lemma sysdb_GetSchedule_cong:
  "workflow_schedules db' = workflow_schedules db \<Longrightarrow> sysdb_GetSchedule l name db' = sysdb_GetSchedule l name db"
  by (simp add: sysdb_GetSchedule_def)

lemma fill_schedules [simp]: "workflow_schedules (fold (fill_one row wid) as db) = workflow_schedules db"
  by (induction as arbitrary: db) (simp_all add: fill_one_def)

lemma find_in: "a \<in> set as \<Longrightarrow> \<exists>b. List.find (\<lambda>x. f x = f a) as = Some b"
  by (induction as) auto

lemma fill_covers:
  assumes "\<And>a. ws_workflow_uuid (row a) = wid a" and "a \<in> set as"
  shows "find_wf (wid a) (fold (fill_one row wid) as db) \<noteq> None"
  using find_in [OF assms(2), of wid] by (auto simp: fill_find [of row wid, OF assms(1)] split: option.splits)

text \<open>
  C36: A backfill returns, with the ids of exactly the activations strictly between the start and
  the end of its window, in order. Afterwards each of them has a workflow; one that had none is
  ENQUEUED on the queue of the schedule, under the name of its workflow. Every workflow that
  existed, and every other one, is untouched. Running the same backfill again returns the same
  ids and changes nothing.
\<close>

theorem backfill_covers_window:
  assumes "backfillable l name db sched enc Next" and "cron_next A Next"
    and "inp = \<lparr>bf_ScheduleName = name, bf_StartTime = Some st, bf_EndTime = Some en\<rparr>"
  shows "\<exists>ids db'. sysdb_BackfillSchedule s l now inp db = Some (Inr (ids, db')) \<and>
    ids = map (\<lambda>a. tick_id l name (Some a)) (sorted_list_of_set {a \<in> A. st < a \<and> a < en}) \<and>
    (\<forall>w. w \<notin> set ids \<longrightarrow> find_wf w db' = find_wf w db) \<and>
    (\<forall>w \<in> set ids. case find_wf w db of
       Some r \<Rightarrow> find_wf w db' = Some r
     | None \<Rightarrow> \<exists>r. find_wf w db' = Some r \<and> ws_status r = WorkflowStatusEnqueued \<and> ws_name r = S_WorkflowName sched \<and>
         ws_queue_name r = Some (if S_QueueName sched \<noteq> [] then S_QueueName sched else InternalQueueName)) \<and>
    sysdb_BackfillSchedule s l now' inp db' = Some (Inr (ids, db'))"
proof -
  let ?wid = "\<lambda>a. tick_id l name (Some a)"
  let ?row = "\<lambda>a. backfill_row s l enc sched name (latest_version s (schedule_owner s sched) db) now (Some a)"
  let ?db' = "fold (fill_one ?row ?wid) (window A st en) db" and ?ids = "map ?wid (window A st en)"
  have run: "sysdb_BackfillSchedule s l now inp db = Some (Inr (?ids, ?db'))"
    using sysdb_BackfillSchedule_fill [OF assms(1,2)] assms(3) by simp
  have find: "find_wf w ?db' = (case find_wf w db of Some r \<Rightarrow> Some r | None \<Rightarrow> map_option ?row (List.find (\<lambda>a. ?wid a = w) (window A st en)))" for w
    by (rule fill_find) simp
  have out: "find_wf w ?db' = find_wf w db" if "w \<notin> set ?ids" for w
  proof -
    have "List.find (\<lambda>a. ?wid a = w) (window A st en) = None" using that by (auto simp: find_None_iff)
    then show ?thesis using find [of w] by (simp split: option.splits)
  qed
  have new: "\<exists>r. find_wf w ?db' = Some r \<and> ws_status r = WorkflowStatusEnqueued \<and> ws_name r = S_WorkflowName sched \<and>
      ws_queue_name r = Some (if S_QueueName sched \<noteq> [] then S_QueueName sched else InternalQueueName)"
    if w: "w \<in> set ?ids" "find_wf w db = None" for w
  proof -
    obtain a where "a \<in> set (window A st en)" "w = ?wid a" using w(1) by auto
    with find_in [of a "window A st en" ?wid] obtain b where "List.find (\<lambda>x. ?wid x = w) (window A st en) = Some b" by auto
    with find [of w] w(2) show ?thesis by simp
  qed
  have able: "backfillable l name ?db' sched enc Next"
    using assms(1) sysdb_GetSchedule_cong [of ?db' db l name] by (simp add: backfillable_def)
  have "find_wf (?wid a) ?db' \<noteq> None" if "a \<in> set (window A st en)" for a using that by (intro fill_covers) simp_all
  then have "sysdb_BackfillSchedule s l now' inp ?db' = Some (Inr (?ids, ?db'))"
    using sysdb_BackfillSchedule_fill [OF able assms(2)] assms(3) fill_again [of "window A st en" ?wid ?db'] by simp
  with run out new find show ?thesis unfolding window_def [symmetric] by (intro exI conjI) (auto split: option.splits)
qed

text \<open>A schedule that fires at every multiple of a period, and the formats and encoder of the examples.\<close>

definition hour :: int where "hour = 3600000000000"

definition every :: "int \<Rightarrow> gotime \<Rightarrow> gotime" where
  "every p t = (case t of None \<Rightarrow> Some 0 | Some x \<Rightarrow> Some ((x div p + 1) * p))"

definition sample_lib :: "(gotime \<Rightarrow> gotime) \<Rightarrow> sched_lib" where
  "sample_lib Next = \<lparr>cronParse = (\<lambda>_. Inr Next), FormatRFC3339 = (\<lambda>t. case t of None \<Rightarrow> ''-'' | Some x \<Rightarrow> show_int x),
     FormatRFC3339Nano = (\<lambda>t. case t of None \<Rightarrow> ''-'' | Some x \<Rightarrow> show_int x), ParseRFC3339 = (\<lambda>_. None),
     ParseRFC3339Nano = (\<lambda>_. Some (Some (5 * hour - 1000000000))), encodeScheduledInput = Some (\<lambda>_ _. Inr (Some ''i'', ''DBOS_JSON''))\<rparr>"

definition sample_schedule :: schedule_row where
  "sample_schedule = \<lparr>sc_schedule_id = ''u'', sc_schedule_name = ''nightly'', sc_workflow_name = ''report'',
     sc_workflow_class_name = None, sc_schedule = ''0 0 * * * *'', sc_status = ScheduleStatusActive, sc_context = ''null'',
     sc_last_fired_at = Some ''t'', sc_automatic_backfill = True, sc_cron_timezone = Some [], sc_queue_name = None,
     sc_application_name = None\<rparr>"

definition sample_scheduled :: sysdb where
  "sample_scheduled = empty_sysdb\<lparr>workflow_schedules := [sample_schedule]\<rparr>"

lemma every_next:
  assumes h: "0 < p"
  shows "cron_next {a. p dvd a} (every p)"
  unfolding cron_next_def
proof
  fix t :: int
  have "t - p * (t div p) < p" using pos_mod_bound [OF h, of t] by (simp add: minus_mult_div_eq_mod)
  then have "t < (t div p + 1) * p" by (simp add: algebra_simps)
  moreover have "(t div p + 1) * p \<le> b" if b: "p dvd b" "t < b" for b
  proof -
    obtain k where k: "b = p * k" using b(1) by auto
    have "0 \<le> t - p * (t div p)" using pos_mod_sign [OF h, of t] by (simp add: minus_mult_div_eq_mod)
    then have "p * (t div p) < p * k" using b(2) k by linarith
    then have "t div p + 1 \<le> k" using h by simp
    then have "(t div p + 1) * p \<le> k * p" using h by (intro mult_right_mono) simp_all
    then show ?thesis using k by (simp add: mult.commute)
  qed
  ultimately show "\<exists>a\<in>{a. p dvd a}. every p (Some t) = Some a \<and> t < a \<and> (\<forall>b\<in>{a. p dvd a}. t < b \<longrightarrow> a \<le> b)"
    by (auto simp: every_def)
qed

lemma sample_backfillable:
  "\<exists>sched enc. backfillable (sample_lib Next) ''nightly'' sample_scheduled sched enc Next \<and> S_WorkflowName sched = ''report'' \<and>
     S_QueueName sched = InternalQueueName"
  by (simp add: backfillable_def sysdb_GetSchedule_def sample_scheduled_def sample_schedule_def scanSchedule_def sample_lib_def)

theorem backfill_covers_window_witness:
  "\<exists>ids db'. sysdb_BackfillSchedule sample_sysdb_ctx (sample_lib (every hour)) 0
      \<lparr>bf_ScheduleName = ''nightly'', bf_StartTime = Some 1, bf_EndTime = Some (hour + 1)\<rparr> sample_scheduled = Some (Inr (ids, db')) \<and>
     ids = [tick_id (sample_lib (every hour)) ''nightly'' (Some hour)]"
proof -
  obtain sched enc where able: "backfillable (sample_lib (every hour)) ''nightly'' sample_scheduled sched enc (every hour)"
    using sample_backfillable by blast
  have only: "{a \<in> {a. hour dvd a}. 1 < a \<and> a < hour + 1} = {hour}"
  proof -
    have "a = hour" if "hour dvd a" "1 < a" "a < hour + 1" for a
      using zdvd_imp_le [OF that(1)] that(2,3) by simp
    moreover have "1 < hour" by (simp add: hour_def)
    ultimately show ?thesis by auto
  qed
  have "cron_next {a. hour dvd a} (every hour)" by (rule every_next) (simp add: hour_def)
  note run = backfill_covers_window [OF able this refl, where s = sample_sysdb_ctx and now = 0 and st = 1 and en = "hour + 1" and now' = 0]
  show ?thesis using run unfolding only by (elim exE conjE) (intro exI conjI, assumption, simp)
qed

section \<open>A schedule without activations\<close>

lemma backfill_loop_stuck:
  assumes "\<And>t. Next t = None" and "\<And>db. \<exists>db'. one None db = Inr db'"
  shows "backfill_loop wid Next (Some en) one None ids db \<noteq> Some r"
proof
  let ?Q = "\<lambda>w N e o' (t :: gotime) (ids :: string list) (db :: sysdb) (r :: (string list \<times> sysdb) res).
      w = wid \<longrightarrow> N = Next \<longrightarrow> e = Some en \<longrightarrow> o' = one \<longrightarrow> t = None \<longrightarrow> False"
  assume run: "backfill_loop wid Next (Some en) one None ids db = Some r"
  have "?Q wid Next (Some en) one None ids db r"
  proof (rule backfill_loop.raw_induct [where P = ?Q, OF _ run], intro impI)
    fix loop w N e o' t ids db r
    assume IH: "\<And>w N e o' t ids db r. loop w N e o' t ids db = Some r \<Longrightarrow> ?Q w N e o' t ids db r"
      and eqs: "w = wid" "N = Next" "e = Some en" "o' = one" "t = None"
      and body: "(if Before t e then case o' t db of Inl e \<Rightarrow> Some (Inl e) | Inr db' \<Rightarrow> loop w N e o' (N t) (ids @ [w t]) db'
        else Some (Inr (ids, db))) = Some r"
    obtain db' where "one None db = Inr db'" using assms(2) by blast
    with body have "loop wid Next (Some en) one None (ids @ [wid None]) db' = Some r" by (simp add: eqs assms(1))
    from IH [OF this] show False by simp
  qed
  then show False by simp
qed

text \<open>
  C40: A backfill of a schedule that never fires does not return. The cron library gives the zero
  time when it finds no activation (a cron expression for February 30 parses), the zero time is
  before every end, and the next one after it is the zero time again.
\<close>

theorem backfill_never_returns:
  assumes "backfillable l name db sched enc Next" and "\<And>t. Next t = None"
  shows "sysdb_BackfillSchedule s l now \<lparr>bf_ScheduleName = name, bf_StartTime = st, bf_EndTime = Some en\<rparr> db = None"
proof -
  obtain x where "enc None (S_Context sched) = Inr x" using assms(1) unfolding backfillable_def by blast
  then have one: "\<exists>db'. backfill_one s l enc sched name ver now None d = Inr db'" for ver d by (simp add: backfill_one_effect)
  have stuck: "backfill_loop wid Next (Some en) (backfill_one s l enc sched name ver now) None [] db = None" for wid ver
  proof (rule ccontr)
    assume "backfill_loop wid Next (Some en) (backfill_one s l enc sched name ver now) None [] db \<noteq> None"
    then obtain r where "backfill_loop wid Next (Some en) (backfill_one s l enc sched name ver now) None [] db = Some r" by (elim not_None_eq [THEN iffD1, THEN exE])
    then show False using backfill_loop_stuck [of Next "backfill_one s l enc sched name ver now" wid en "[]" db r, OF assms(2) one] by (rule notE [rotated])
  qed
  show ?thesis using assms(1) by (simp add: sysdb_BackfillSchedule_def backfillable_def assms(2) stuck)
qed

theorem backfill_never_returns_witness:
  "sysdb_BackfillSchedule sample_sysdb_ctx (sample_lib (\<lambda>_. None)) 0
     \<lparr>bf_ScheduleName = ''nightly'', bf_StartTime = Some 1, bf_EndTime = Some 2\<rparr> sample_scheduled = None"
  using sample_backfillable [of "\<lambda>_. None"] by (auto intro: backfill_never_returns)

section \<open>Automatic backfill\<close>

text \<open>
  When a schedule is installed, automatic backfill starts one second after the last firing, so
  an activation within that second is not backfilled although it was missed.
\<close>

lemma automatic_backfill_skips:
  assumes "backfillable l (S_ScheduleName sched) db sched enc Next" and "cron_next A Next"
    and "S_LastFiredAt sched = Some (Some t)" and "a \<in> A" and "t < a" and "a \<le> t + Second" and "a < now"
    and "inj_on (FormatRFC3339 l) (Some ` A)" and "find_wf (tick_id l (S_ScheduleName sched) (Some a)) db = None"
  shows "\<exists>db'. maybeAutomaticBackfill s l now sched db = Some db' \<and> find_wf (tick_id l (S_ScheduleName sched) (Some a)) db' = None"
proof -
  let ?wid = "\<lambda>a. tick_id l (S_ScheduleName sched) (Some a)" and ?as = "window A (t + Second) now"
  let ?row = "\<lambda>a. backfill_row s l enc sched (S_ScheduleName sched) (latest_version s (schedule_owner s sched) db) now (Some a)"
  have "?wid b \<noteq> ?wid a" if "b \<in> set ?as" for b
    using that assms(4,6) inj_onD [OF assms(8), of "Some b" "Some a"] by (auto simp: tick_id_def)
  then have "List.find (\<lambda>b. ?wid b = ?wid a) ?as = None" by (auto simp: find_None_iff)
  then have "find_wf (?wid a) (fold (fill_one ?row ?wid) ?as db) = None"
    using assms(9) by (simp add: fill_find)
  then show ?thesis using assms(3,9) sysdb_BackfillSchedule_fill [OF assms(1,2)]
    by (simp add: maybeAutomaticBackfill_def Let_def)
qed

lemma automatic_backfill_skips_witness:
  "\<exists>sched db'. sysdb_GetSchedule (sample_lib (every Second)) ''nightly'' sample_scheduled = Inr (Some sched) \<and>
     maybeAutomaticBackfill sample_sysdb_ctx (sample_lib (every Second)) (5 * hour + 1) sched sample_scheduled = Some db' \<and>
     find_wf (tick_id (sample_lib (every Second)) ''nightly'' (Some (5 * hour))) db' = None"
proof -
  let ?l = "sample_lib (every Second)"
  obtain sched enc where able: "backfillable ?l ''nightly'' sample_scheduled sched enc (every Second)" using sample_backfillable by blast
  then have get: "sysdb_GetSchedule ?l ''nightly'' sample_scheduled = Inr (Some sched)" by (simp add: backfillable_def)
  then have s: "S_ScheduleName sched = ''nightly''" "S_LastFiredAt sched = Some (Some (5 * hour - Second))"
    by (auto simp: sysdb_GetSchedule_def sample_scheduled_def sample_schedule_def scanSchedule_def sample_lib_def)
  have next': "cron_next {a. Second dvd a} (every Second)" by (rule every_next) simp
  have a: "5 * hour \<in> {a. Second dvd a}" "5 * hour - Second < 5 * hour" "5 * hour \<le> 5 * hour - Second + Second" "5 * hour < 5 * hour + 1"
    by (simp_all add: hour_def)
  have inj: "inj_on (FormatRFC3339 ?l) (Some ` A)" for A by (auto simp: inj_on_def sample_lib_def dest: show_int_inj)
  have "find_wf (tick_id ?l (S_ScheduleName sched) (Some (5 * hour))) sample_scheduled = None"
    by (simp add: sample_scheduled_def empty_sysdb_def)
  from automatic_backfill_skips [OF able [folded s(1)] next' s(2) a inj this, of sample_sysdb_ctx] obtain db' where
    "maybeAutomaticBackfill sample_sysdb_ctx ?l (5 * hour + 1) sched sample_scheduled = Some db'"
    "find_wf (tick_id ?l (S_ScheduleName sched) (Some (5 * hour))) db' = None" by blast
  with get s(1) show ?thesis by (intro exI conjI) (assumption, assumption, simp)
qed

section \<open>A tick enqueues its workflow once\<close>

lemma find_wf_last_fired [simp]: "find_wf w (UpdateScheduleLastFiredAt l name t db) = find_wf w db"
  by (simp add: UpdateScheduleLastFiredAt_def)

definition tick_queue :: "WorkflowSchedule \<Rightarrow> string" where
  "tick_queue sched = (if S_QueueName sched \<noteq> [] then S_QueueName sched else InternalQueueName)"

text \<open>Whoever enqueues for the tick does so under the name and on the queue of the schedule.\<close>

definition tick_compatible :: "WorkflowSchedule \<Rightarrow> wf_row option \<Rightarrow> bool" where
  "tick_compatible sched found = (case found of None \<Rightarrow> True
     | Some r \<Rightarrow> ws_name r = S_WorkflowName sched \<and> ws_queue_name r = Some (tick_queue sched))"

lemma tick_insert:
  assumes "tick_compatible sched (find_wf wid db)" and "wid = tick_id l (S_ScheduleName sched) t"
    and "inp = \<lparr>in_Status = tick_status s l e sched t enc ver, in_Tx = True, in_OwnerXID = None\<rparr>"
  shows "\<exists>res db'. InsertWorkflowStatus s now inp db = Inr (res, db') \<and> (\<forall>w. w \<noteq> wid \<longrightarrow> find_wf w db' = find_wf w db) \<and>
    find_wf wid db' = Some (case find_wf wid db of
      Some r0 \<Rightarrow> r0\<lparr>ws_updated_at := UnixMilli now\<rparr> | None \<Rightarrow> insert_row s now inp)"
proof -
  have st: "W_ID (in_Status inp) = wid" "W_DeduplicationID (in_Status inp) = []" "W_Name (in_Status inp) = S_WorkflowName sched"
      "W_QueueName (in_Status inp) = tick_queue sched" "W_Status (in_Status inp) = WorkflowStatusEnqueued" "W_UpdatedAt (in_Status inp) = None"
    using assms(2,3) by (simp_all add: tick_status_def scheduled_status_def tick_queue_def zero_WorkflowStatus_def)
  have re: "reinsert_set (insert_row s now inp) r = r\<lparr>ws_updated_at := UnixMilli now\<rparr>" for r
    using st by (simp add: reinsert_set_def insert_row_def Let_def)
  obtain res db' where ins: "InsertWorkflowStatus s now inp db = Inr (res, db')"
  proof (cases "find_wf wid db")
    case None
    with undeduplicated_insert [of inp db s now] st that show ?thesis using assms(3) by auto
  next
    case (Some r)
    with assms(1) st that show ?thesis
      using assms(3) by (simp add: InsertWorkflowStatus_def insert_result_def re tick_compatible_def Let_def)
  qed
  note find = InsertWorkflowStatus_find [OF ins, unfolded st(1) re]
  show ?thesis using ins find [of wid] find by (intro exI conjI) (auto split: option.splits)
qed


definition sample_tick :: "(sysdb \<Rightarrow> sysdb) \<Rightarrow> tick_env" where
  "sample_tick others = \<lparr>te_now = 7000000, te_fired = 8000000, te_encode = (\<lambda>_ _. Inr (Some ''i'', ''DBOS_JSON'')),
     te_applicationID = [], te_executorID = ''e'', te_others = others\<rparr>"


section \<open>The reconciler installs exactly the active schedules\<close>

definition parses :: "sched_lib \<Rightarrow> WorkflowSchedule \<Rightarrow> bool" where
  "parses l sched \<longleftrightarrow> (\<exists>Next. cronParse l (cron_spec (S_Schedule sched) (S_CronTimezone sched)) = Inr Next)"

text \<open>
  The two maps agree with the cron entries: every installed name has an entry that runs a schedule of
  that name and of the installed signature, and there is no other entry.
\<close>

definition scheduler_ok :: "sched_lib \<Rightarrow> scheduler \<Rightarrow> bool" where
  "scheduler_ok l c \<longleftrightarrow>
     (\<forall>name. case scheduleEntryIDs c name of
        None \<Rightarrow> scheduleInstalledSignatures c name = None
      | Some i \<Rightarrow> \<exists>sched. cron_entries c i = Some sched \<and> S_ScheduleName sched = name \<and> parses l sched \<and>
          scheduleInstalledSignatures c name = Some (calculateSignature sched)) \<and>
     (\<forall>i sched. cron_entries c i = Some sched \<longrightarrow> i < nextEntryID c \<and> scheduleEntryIDs c (S_ScheduleName sched) = Some i)"

lemma scheduler_okD:
  assumes "scheduler_ok l c"
  shows "scheduleEntryIDs c name = None \<Longrightarrow> scheduleInstalledSignatures c name = None"
    and "scheduleEntryIDs c name = Some i \<Longrightarrow> \<exists>sched. cron_entries c i = Some sched \<and> S_ScheduleName sched = name \<and>
      parses l sched \<and> scheduleInstalledSignatures c name = Some (calculateSignature sched)"
    and "cron_entries c i = Some sched \<Longrightarrow> i < nextEntryID c \<and> scheduleEntryIDs c (S_ScheduleName sched) = Some i"
proof -
  note a = assms [unfolded scheduler_ok_def, THEN conjunct1, THEN spec, of name]
  show "scheduleEntryIDs c name = None \<Longrightarrow> scheduleInstalledSignatures c name = None" using a by simp
  show "scheduleEntryIDs c name = Some i \<Longrightarrow> \<exists>sched. cron_entries c i = Some sched \<and> S_ScheduleName sched = name \<and>
      parses l sched \<and> scheduleInstalledSignatures c name = Some (calculateSignature sched)" using a by simp
  show "cron_entries c i = Some sched \<Longrightarrow> i < nextEntryID c \<and> scheduleEntryIDs c (S_ScheduleName sched) = Some i"
    using assms unfolding scheduler_ok_def by simp
qed

lemma scheduler_okI:
  assumes "\<And>name. scheduleEntryIDs c name = None \<Longrightarrow> scheduleInstalledSignatures c name = None"
    and "\<And>name i. scheduleEntryIDs c name = Some i \<Longrightarrow> \<exists>sched. cron_entries c i = Some sched \<and> S_ScheduleName sched = name \<and>
      parses l sched \<and> scheduleInstalledSignatures c name = Some (calculateSignature sched)"
    and "\<And>i sched. cron_entries c i = Some sched \<Longrightarrow> i < nextEntryID c \<and> scheduleEntryIDs c (S_ScheduleName sched) = Some i"
  shows "scheduler_ok l c"
  unfolding scheduler_ok_def using assms by (simp split: option.split)

lemma remove_maps:
  assumes ok: "scheduler_ok l c"
  shows "scheduleEntryIDs (removeDBScheduleFromScheduler name c) = (scheduleEntryIDs c)(name := None)"
    and "scheduleInstalledSignatures (removeDBScheduleFromScheduler name c) = (scheduleInstalledSignatures c)(name := None)"
  using scheduler_okD(1) [OF ok, of name] by (auto simp: removeDBScheduleFromScheduler_def split: option.splits)

lemma remove_ok:
  assumes ok: "scheduler_ok l c"
  shows "scheduler_ok l (removeDBScheduleFromScheduler name c)"
proof (cases "scheduleEntryIDs c name")
  case None
  then show ?thesis using ok by (simp add: removeDBScheduleFromScheduler_def)
next
  case (Some i)
  let ?c = "removeDBScheduleFromScheduler name c"
  have entries: "cron_entries ?c = (cron_entries c)(i := None)" "nextEntryID ?c = nextEntryID c"
    using Some by (simp_all add: removeDBScheduleFromScheduler_def)
  show ?thesis
  proof (rule scheduler_okI; unfold remove_maps [OF ok] entries)
    show "((scheduleInstalledSignatures c)(name := None)) n = None" if "((scheduleEntryIDs c)(name := None)) n = None" for n
      using that scheduler_okD(1) [OF ok, of n] by (simp split: if_splits)
  next
    fix n j assume n: "((scheduleEntryIDs c)(name := None)) n = Some j"
    then have n: "n \<noteq> name" "scheduleEntryIDs c n = Some j" by (simp_all split: if_splits)
    from scheduler_okD(2) [OF ok n(2)] scheduler_okD(2) [OF ok Some] n(1) have "j \<noteq> i" by auto
    with scheduler_okD(2) [OF ok n(2)] n(1) show "\<exists>sched. ((cron_entries c)(i := None)) j = Some sched \<and> S_ScheduleName sched = n \<and>
        parses l sched \<and> ((scheduleInstalledSignatures c)(name := None)) n = Some (calculateSignature sched)" by simp
  next
    fix j sched assume j: "((cron_entries c)(i := None)) j = Some sched"
    then have "j \<noteq> i" "cron_entries c j = Some sched" by (simp_all split: if_splits)
    with scheduler_okD(3) [OF ok this(2)] Some show "j < nextEntryID c \<and> ((scheduleEntryIDs c)(name := None)) (S_ScheduleName sched) = Some j"
      by auto
  qed
qed

lemma add_maps:
  "scheduleEntryIDs (addDBScheduleToScheduler l sched c) =
     (if parses l sched then (scheduleEntryIDs c)(S_ScheduleName sched \<mapsto> nextEntryID c) else scheduleEntryIDs c)"
  "scheduleInstalledSignatures (addDBScheduleToScheduler l sched c) =
     (if parses l sched then (scheduleInstalledSignatures c)(S_ScheduleName sched \<mapsto> calculateSignature sched)
      else scheduleInstalledSignatures c)"
  by (auto simp: addDBScheduleToScheduler_def parses_def Let_def split: sum.splits)

lemma add_ok:
  assumes ok: "scheduler_ok l c" and new: "scheduleEntryIDs c (S_ScheduleName sched) = None"
  shows "scheduler_ok l (addDBScheduleToScheduler l sched c)"
proof (cases "parses l sched")
  case False
  then show ?thesis using ok by (auto simp: addDBScheduleToScheduler_def parses_def split: sum.splits)
next
  case True
  let ?c = "addDBScheduleToScheduler l sched c"
  have entries: "cron_entries ?c = (cron_entries c)(nextEntryID c \<mapsto> sched)" "nextEntryID ?c = nextEntryID c + 1"
    using True by (auto simp: addDBScheduleToScheduler_def parses_def Let_def)
  show ?thesis
  proof (rule scheduler_okI; unfold add_maps entries if_P [OF True])
    show "((scheduleInstalledSignatures c)(S_ScheduleName sched \<mapsto> calculateSignature sched)) n = None"
      if "((scheduleEntryIDs c)(S_ScheduleName sched \<mapsto> nextEntryID c)) n = None" for n
      using that scheduler_okD(1) [OF ok, of n] by (simp split: if_splits)
  next
    fix n j assume n: "((scheduleEntryIDs c)(S_ScheduleName sched \<mapsto> nextEntryID c)) n = Some j"
    show "\<exists>x. ((cron_entries c)(nextEntryID c \<mapsto> sched)) j = Some x \<and> S_ScheduleName x = n \<and> parses l x \<and>
        ((scheduleInstalledSignatures c)(S_ScheduleName sched \<mapsto> calculateSignature sched)) n = Some (calculateSignature x)"
    proof (cases "n = S_ScheduleName sched")
      case False
      then have "scheduleEntryIDs c n = Some j" using n by simp
      with scheduler_okD(2) [OF ok this] scheduler_okD(3) [OF ok] False show ?thesis by fastforce
    qed (use n True in auto)
  next
    fix j x assume "((cron_entries c)(nextEntryID c \<mapsto> sched)) j = Some x"
    then show "j < nextEntryID c + 1 \<and> ((scheduleEntryIDs c)(S_ScheduleName sched \<mapsto> nextEntryID c)) (S_ScheduleName x) = Some j"
      using scheduler_okD(3) [OF ok, of j x] new by (auto split: if_splits)
  qed
qed

text \<open>What the reconciler should have installed for a schedule.\<close>

definition target :: "sched_lib \<Rightarrow> WorkflowSchedule \<Rightarrow> scheduleSignature option" where
  "target l sched = (if S_Status sched = ScheduleStatusActive \<and> parses l sched then Some (calculateSignature sched) else None)"

lemma parses_signature: "calculateSignature a = calculateSignature b \<Longrightarrow> parses l a = parses l b"
  by (simp add: calculateSignature_def parses_def)

lemma reconcile_one_ok:
  assumes ok: "scheduler_ok l c" and run: "reconcile_one s l now sched (c, db) = Some (c', db')"
    and idle: "S_Status sched \<noteq> ScheduleStatusActive \<Longrightarrow> scheduleInstalledSignatures c (S_ScheduleName sched) = None"
  shows "scheduler_ok l c' \<and> scheduleInstalledSignatures c' = (scheduleInstalledSignatures c)(S_ScheduleName sched := target l sched)"
proof (cases "S_Status sched = ScheduleStatusActive")
  case False
  then show ?thesis using ok run idle by (auto simp: reconcile_one_def target_def fun_upd_idem)
next
  case active: True
  let ?name = "S_ScheduleName sched"
  show ?thesis
  proof (cases "scheduleEntryIDs c ?name")
    case None
    then have c': "c' = addDBScheduleToScheduler l sched c" using run active by (auto simp: reconcile_one_def Let_def)
    have "scheduleInstalledSignatures c ?name = None" using scheduler_okD(1) [OF ok None] .
    then show ?thesis unfolding c' using add_ok [OF ok None] active by (auto simp: add_maps target_def fun_upd_idem)
  next
    case (Some i)
    from scheduler_okD(2) [OF ok Some] obtain x where x: "parses l x" "scheduleInstalledSignatures c ?name = Some (calculateSignature x)" by blast
    show ?thesis
    proof (cases "scheduleInstalledSignatures c ?name = Some (calculateSignature sched)")
      case True
      then have "parses l sched" using x parses_signature [of x sched l] by simp
      then show ?thesis using True run active Some ok by (auto simp: reconcile_one_def target_def fun_upd_idem)
    next
      case False
      then have c': "c' = addDBScheduleToScheduler l sched (removeDBScheduleFromScheduler ?name c)"
        using run active Some by (simp add: reconcile_one_def Let_def)
      have "scheduleEntryIDs (removeDBScheduleFromScheduler ?name c) ?name = None" by (simp add: remove_maps [OF ok])
      from add_ok [OF remove_ok [OF ok] this] show ?thesis unfolding c' using active by (simp add: add_maps remove_maps [OF ok] target_def)
    qed
  qed
qed

lemma reconcile_all_ok:
  assumes "scheduler_ok l c" and "reconcile_all s l now scheds (c, db) = Some (c', db')" and "distinct (map S_ScheduleName scheds)"
    and "\<And>sched. sched \<in> set scheds \<Longrightarrow> S_Status sched \<noteq> ScheduleStatusActive \<Longrightarrow> scheduleInstalledSignatures c (S_ScheduleName sched) = None"
  shows "scheduler_ok l c' \<and> (\<forall>name. scheduleInstalledSignatures c' name =
    (case lookup_by S_ScheduleName name scheds of Some sched \<Rightarrow> target l sched | None \<Rightarrow> scheduleInstalledSignatures c name))"
  using assms
proof (induction scheds arbitrary: c db)
  case (Cons sched scheds)
  obtain c1 db1 where one: "reconcile_one s l now sched (c, db) = Some (c1, db1)" and rest: "reconcile_all s l now scheds (c1, db1) = Some (c', db')"
    using Cons.prems(2) by (auto simp: bind_eq_Some_conv)
  note step = reconcile_one_ok [OF Cons.prems(1) one Cons.prems(4), simplified]
  have "scheduleInstalledSignatures c1 (S_ScheduleName x) = None" if "x \<in> set scheds" "S_Status x \<noteq> ScheduleStatusActive" for x
    using step Cons.prems(3,4) that by (auto simp: image_iff)
  with Cons.IH [OF _ rest] step Cons.prems(3) have ih: "scheduler_ok l c' \<and> (\<forall>name. scheduleInstalledSignatures c' name =
    (case lookup_by S_ScheduleName name scheds of Some sched \<Rightarrow> target l sched | None \<Rightarrow> scheduleInstalledSignatures c1 name))" by simp
  have "lookup_by S_ScheduleName (S_ScheduleName sched) scheds = None" using Cons.prems(3) by (auto simp: lookup_by_eq_None)
  with ih step show ?case by (auto split: option.split)
qed simp

lemma remove_all_ok:
  "scheduler_ok l c \<Longrightarrow> scheduler_ok l (fold removeDBScheduleFromScheduler names c) \<and>
   scheduleInstalledSignatures (fold removeDBScheduleFromScheduler names c) =
     (\<lambda>n. if n \<in> set names then None else scheduleInstalledSignatures c n)"
  by (induction names arbitrary: c) (auto simp: remove_ok remove_maps fun_eq_iff)

lemma scan_names: "scanSchedules l rows = Inr scheds \<Longrightarrow> map S_ScheduleName scheds = map sc_schedule_name rows"
proof (induction rows arbitrary: scheds)
  case (Cons r rows)
  then obtain x xs where "scanSchedule l r = Inr x" "scanSchedules l rows = Inr xs" "scheds = x # xs"
    by (auto split: sum.splits simp: map_sum_def)
  moreover from this(1) have "S_ScheduleName x = sc_schedule_name r" by (auto simp: scanSchedule_def split: option.splits)
  ultimately show ?case using Cons.IH by simp
qed simp

abbreviation all_schedules :: ListSchedulesDBInput where
  "all_schedules \<equiv> \<lparr>ls_Statuses = [], ls_WorkflowNames = [], ls_ScheduleNames = [], ls_ScheduleNamePrefixes = [], ls_ApplicationName = None\<rparr>"


definition idle_scheduler :: scheduler where
  "idle_scheduler = \<lparr>scheduleEntryIDs = Map.empty, scheduleInstalledSignatures = Map.empty, cron_entries = Map.empty, nextEntryID = 1\<rparr>"


lemma scan_fails: "r \<in> set rows \<Longrightarrow> scanSchedule l r = Inl e \<Longrightarrow> \<exists>e'. scanSchedules l rows = Inl e'"
  by (induction rows) (auto split: sum.splits)

text \<open>One visible row without a time zone keeps the reconciler from doing anything.\<close>

lemma null_timezone_stops_reconciler:
  assumes "r \<in> set (workflow_schedules db)" and "schedule_where s all_schedules r" and "sc_cron_timezone r = None"
  shows "reconcileSchedules s l now installed (c, db) = Some (c, db)"
proof -
  have "r \<in> set (filter (schedule_where s all_schedules) (workflow_schedules db))" using assms(1,2) by simp
  from scan_fails [OF this, of l] assms(3) have "\<exists>e. sysdb_ListSchedules s l all_schedules db = Inl e"
    by (simp add: scanSchedule_def sysdb_ListSchedules_def)
  then show ?thesis by (auto simp: reconcileSchedules_def)
qed

section \<open>Applying a set of schedules\<close>

lemma find_schedule_update:
  assumes "\<And>r. sc_schedule_name (f r) = sc_schedule_name r"
  shows "lookup_by sc_schedule_name n (update_where (\<lambda>r. sc_schedule_name r = name) f rows) =
    map_option (\<lambda>r. if n = name then f r else r) (lookup_by sc_schedule_name n rows)"
proof -
  have "lookup_by sc_schedule_name n rows = Some r \<Longrightarrow> sc_schedule_name r = n" for r using lookup_by_SomeD by fast
  then show ?thesis by (cases "lookup_by sc_schedule_name n rows") (auto simp: lookup_by_update_where assms)
qed

lemma schedule_set_sel [simp]:
  "sc_schedule_name (schedule_set ex r) = sc_schedule_name r" "sc_schedule_id (schedule_set ex r) = sc_schedule_id r"
  "sc_status (schedule_set ex r) = sc_status r" "sc_last_fired_at (schedule_set ex r) = sc_last_fired_at r"
  "sc_schedule (schedule_set ex r) = sc_schedule ex" "sc_workflow_name (schedule_set ex r) = sc_workflow_name ex"
  "sc_application_name (schedule_set ex r) = coalesce (sc_application_name r) (sc_application_name ex)"
  by (simp_all add: schedule_set_def)

text \<open>\<open>kept r r'\<close>: what an application of schedules preserves of an existing row.\<close>

definition kept :: "schedule_row \<Rightarrow> schedule_row \<Rightarrow> bool" where
  "kept r r' \<longleftrightarrow> sc_schedule_name r' = sc_schedule_name r \<and> sc_schedule_id r' = sc_schedule_id r \<and> sc_status r' = sc_status r \<and>
     sc_last_fired_at r' = sc_last_fired_at r \<and> (sc_application_name r \<noteq> None \<longrightarrow> sc_application_name r' = sc_application_name r)"

lemma kept_refl: "kept r r" by (simp add: kept_def)

lemma kept_trans: "kept a b \<Longrightarrow> kept b c \<Longrightarrow> kept a c" by (auto simp: kept_def)

lemma UpsertSchedule_find:
  assumes "UpsertSchedule inp db = Inr (u, db')"
  shows "\<exists>own. find_schedule n db' =
    (if n \<noteq> us_ScheduleName inp then find_schedule n db
     else Some (case find_schedule n db of None \<Rightarrow> schedule_insert inp own | Some r \<Rightarrow> schedule_set (schedule_insert inp own) r)) \<and>
    workflow_status db' = workflow_status db"
proof -
  obtain own where db': "db' = (if find_schedule (us_ScheduleName inp) db = None
      then db\<lparr>workflow_schedules := workflow_schedules db @ [schedule_insert inp own]\<rparr>
      else db\<lparr>workflow_schedules := update_where (\<lambda>r. sc_schedule_name r = us_ScheduleName inp)
        (schedule_set (schedule_insert inp own)) (workflow_schedules db)\<rparr>)"
    using assms by (auto simp: UpsertSchedule_def Let_def map_sum_def split: sum.splits if_splits)
  have "sc_schedule_name (schedule_insert inp own) = us_ScheduleName inp" by (simp add: schedule_insert_def)
  then show ?thesis unfolding db'
    by (intro exI [of _ own]) (auto simp: lookup_by_append find_schedule_update split: option.splits)
qed

text \<open>The row has the definition of the entry.\<close>

definition defined_by :: "'f wf_registry \<Rightarrow> ScheduleSpec \<Rightarrow> schedule_row \<Rightarrow> bool" where
  "defined_by reg spec r \<longleftrightarrow> sc_schedule r = sp_Schedule spec \<and> resolveScheduleWorkflowName reg spec = Inr (sc_workflow_name r)"

lemma apply_one_find:
  assumes "apply_one s reg uuid spec db = Inr db'"
  shows "n \<noteq> sp_ScheduleName spec \<Longrightarrow> find_schedule n db' = find_schedule n db"
    and "\<exists>r'. find_schedule (sp_ScheduleName spec) db' = Some r' \<and> defined_by reg spec r' \<and>
      (\<forall>r. find_schedule (sp_ScheduleName spec) db = Some r \<longrightarrow> kept r r')"
    and "workflow_status db' = workflow_status db"
proof -
  let ?n = "sp_ScheduleName spec"
  obtain wn ctx q u where wn: "resolveScheduleWorkflowName reg spec = Inr wn"
    and up: "UpsertSchedule (schedule_input s spec uuid wn ctx q) db = Inr (u, db')"
    using assms by (auto simp: apply_one_def Let_def split: sum.splits)
  let ?inp = "schedule_input s spec uuid wn ctx q"
  have sel: "us_ScheduleName ?inp = ?n" "us_Schedule ?inp = sp_Schedule spec" "us_WorkflowName ?inp = wn" by (simp_all add: schedule_input_def)
  note find = UpsertSchedule_find [OF up, unfolded sel]
  show "n \<noteq> ?n \<Longrightarrow> find_schedule n db' = find_schedule n db" using find [of n] by simp
  show "workflow_status db' = workflow_status db" using find [of n] by simp
  obtain own where own: "find_schedule ?n db' = Some (case find_schedule ?n db of None \<Rightarrow> schedule_insert ?inp own
      | Some r \<Rightarrow> schedule_set (schedule_insert ?inp own) r)" using find [of ?n] by auto
  have "defined_by reg spec (schedule_insert ?inp own)" "defined_by reg spec (schedule_set (schedule_insert ?inp own) r)"
    "kept r (schedule_set (schedule_insert ?inp own) r)" for r
    using wn sel by (auto simp: defined_by_def schedule_insert_def kept_def)
  with own show "\<exists>r'. find_schedule ?n db' = Some r' \<and> defined_by reg spec r' \<and> (\<forall>r. find_schedule ?n db = Some r \<longrightarrow> kept r r')"
    by (cases "find_schedule ?n db") auto
qed

lemma apply_all_other:
  assumes "apply_all s reg entries db = Inr db'"
  shows "workflow_status db' = workflow_status db \<and>
    (n \<notin> sp_ScheduleName ` snd ` set entries \<longrightarrow> find_schedule n db' = find_schedule n db)"
  using assms
proof (induction entries arbitrary: db)
  case (Cons e es)
  then obtain db1 where one: "apply_one s reg (fst e) (snd e) db = Inr db1" and "apply_all s reg es db1 = Inr db'" by (auto split: sum.splits)
  with Cons.IH [of db1] apply_one_find(1,3) [OF one] show ?case by auto
qed simp

lemma apply_all_kept:
  assumes "apply_all s reg entries db = Inr db'" and "find_schedule n db = Some r"
  shows "\<exists>r'. find_schedule n db' = Some r' \<and> kept r r'"
  using assms
proof (induction entries arbitrary: db r)
  case Nil
  then show ?case by (simp add: kept_refl)
next
  case (Cons e es)
  then obtain db1 where one: "apply_one s reg (fst e) (snd e) db = Inr db1" and rest: "apply_all s reg es db1 = Inr db'" by (auto split: sum.splits)
  have "\<exists>r1. find_schedule n db1 = Some r1 \<and> kept r r1"
    using apply_one_find(1) [OF one, of n] apply_one_find(2) [OF one] Cons.prems(2) kept_refl [of r] by (cases "n = sp_ScheduleName (snd e)") auto
  with Cons.IH [OF rest] kept_trans show ?case by blast
qed

lemma apply_all_defined:
  assumes "apply_all s reg entries db = Inr db'" and "distinct (map (\<lambda>e. sp_ScheduleName (snd e)) entries)" and "x \<in> set entries"
  shows "\<exists>r'. find_schedule (sp_ScheduleName (snd x)) db' = Some r' \<and> defined_by reg (snd x) r'"
  using assms
proof (induction entries arbitrary: db)
  case (Cons e es)
  then obtain db1 where one: "apply_one s reg (fst e) (snd e) db = Inr db1" and rest: "apply_all s reg es db1 = Inr db'" by (auto split: sum.splits)
  show ?case
  proof (cases "x = e")
    case True
    then have "sp_ScheduleName (snd e) \<notin> sp_ScheduleName ` snd ` set es" using Cons.prems by (simp add: image_image)
    then show ?thesis using apply_one_find(2) [OF one] apply_all_other [OF rest, of "sp_ScheduleName (snd e)"] True by auto
  qed (use Cons rest in auto)
qed simp

text \<open>
  C39: Applying a set of schedules is atomic: if it fails, nothing changed. If it succeeds, every entry
  has a row with its cron expression and workflow; a schedule that existed keeps its id, its status
  (a paused one stays paused), the time it last fired and its owner; schedules that are not named
  and all workflows are untouched.
\<close>

theorem apply_schedules_atomic:
  assumes "ApplySchedules s l reg wfState entries db = (err, db')"
  shows "(err \<noteq> None \<longrightarrow> db' = db) \<and>
    (err = None \<longrightarrow> workflow_status db' = workflow_status db \<and>
      (\<forall>n. n \<notin> sp_ScheduleName ` snd ` set entries \<longrightarrow> find_schedule n db' = find_schedule n db) \<and>
      (\<forall>n r. find_schedule n db = Some r \<longrightarrow> (\<exists>r'. find_schedule n db' = Some r' \<and> kept r r')) \<and>
      (distinct (map (\<lambda>e. sp_ScheduleName (snd e)) entries) \<longrightarrow>
        (\<forall>x \<in> set entries. \<exists>r'. find_schedule (sp_ScheduleName (snd x)) db' = Some r' \<and> defined_by reg (snd x) r')))"
proof (cases "err = None")
  case False
  then show ?thesis using assms by (auto simp: ApplySchedules_def split: if_splits sum.splits)
next
  case True
  then have "apply_all s reg entries db = Inr db'"
    using assms by (cases "entries = []") (auto simp: ApplySchedules_def split: if_splits sum.splits)
  from apply_all_other [OF this] apply_all_kept [OF this] apply_all_defined [OF this] True show ?thesis by simp
qed

definition sample_spec :: ScheduleSpec where
  "sample_spec = \<lparr>sp_ScheduleName = ''nightly'', sp_Schedule = ''@daily'', sp_WorkflowName = ''report2'', sp_Workflow = None,
     sp_WorkflowClassName = [], sp_Context = Inr ''null'', sp_AutomaticBackfill = True, sp_CronTimezone = [], sp_QueueName = [],
     sp_ApplicationName = []\<rparr>"

theorem apply_schedules_atomic_witness:
  "\<exists>db' r'. ApplySchedules sample_sysdb_ctx (sample_lib (every hour)) (empty_registry :: unit wf_registry) (None :: unit workflowState option)
      [(''u2'', sample_spec)] sample_scheduled = (None, db') \<and>
    find_schedule ''nightly'' db' = Some r' \<and> sc_schedule r' = ''@daily'' \<and> sc_last_fired_at r' = Some ''t''"
proof -
  let ?l = "sample_lib (every hour)" and ?reg = "empty_registry :: unit wf_registry" and ?w = "None :: unit workflowState option"
  obtain db' where run: "ApplySchedules sample_sysdb_ctx ?l ?reg ?w [(''u2'', sample_spec)] sample_scheduled = (None, db')"
    by (simp add: ApplySchedules_def validate_entry_def validateCronSchedule_def resolveScheduleWorkflowName_def apply_one_def
        UpsertSchedule_def scheduleOwner_def resolveRowOwner_def schedule_input_def requestedOwner_def sample_spec_def
        sample_scheduled_def sample_schedule_def sample_lib_def schedule_insert_def schedule_set_def owner_def sample_sysdb_ctx_def Let_def)
  have old: "find_schedule ''nightly'' sample_scheduled = Some sample_schedule" by (simp add: sample_scheduled_def sample_schedule_def)
  have s: "sp_ScheduleName sample_spec = ''nightly''" "sp_Schedule sample_spec = ''@daily''" by (simp_all add: sample_spec_def)
  from apply_schedules_atomic [OF run] old have "\<exists>r'. find_schedule ''nightly'' db' = Some r' \<and> kept sample_schedule r'" by blast
  moreover from apply_schedules_atomic [OF run] s have "\<exists>r'. find_schedule ''nightly'' db' = Some r' \<and> defined_by ?reg sample_spec r'" by simp
  ultimately show ?thesis using run s by (auto simp: kept_def defined_by_def sample_schedule_def)
qed

end
