(* ===== verification/Notifier.thy ===== *)
theory Notifier
  imports Comms
begin

text \<open>
  In-memory notification of waiters (\<^verbatim>\<open>src/dbos/internal/sysdb/notifier.go\<close>): the registry of wake channels,
  the queue of payloads this process pushes to the others, and the loop that flushes it. The last
  section is the waiting protocol of \<^verbatim>\<open>StartRecvListener\<close> and \<^verbatim>\<open>StartEventListener\<close> as a step relation over
  any interleaving of waiters and writers.

  A channel is a number; all of them have a buffer of one, and \<open>full\<close> is the set of channels whose buffer
  holds a value. Slices built by ranging over a Go map have no order and are sets here.
\<close>

section \<open>The registry\<close>

type_synonym chan = nat

record notifyRegistry =
  ng_channel :: string
  ng_subs :: "string \<rightharpoonup> chan set"
  ng_pending :: "string set option"

definition newNotifyRegistry :: "string \<Rightarrow> bool \<Rightarrow> notifyRegistry" where
  "newNotifyRegistry channel push =
     \<lparr>ng_channel = channel, ng_subs = Map.empty, ng_pending = (if push then Some {} else None)\<rparr>"

text \<open>Indexing a Go map with a missing key gives the nil set.\<close>

definition waiters :: "string \<Rightarrow> notifyRegistry \<Rightarrow> chan set" where
  "waiters p n = (case ng_subs n p of None \<Rightarrow> {} | Some s \<Rightarrow> s)"

definition addLocked :: "string \<Rightarrow> chan \<Rightarrow> notifyRegistry \<Rightarrow> notifyRegistry" where
  "addLocked p ch n = n\<lparr>ng_subs := (ng_subs n)(p \<mapsto> insert ch (waiters p n))\<rparr>"

text \<open>\<open>ch\<close> is the channel that \<^verbatim>\<open>make\<close> returns.\<close>

definition subscribe :: "chan \<Rightarrow> string \<Rightarrow> notifyRegistry \<Rightarrow> notifyRegistry" where
  "subscribe ch p n = addLocked p ch n"

definition subscribeExclusive :: "chan \<Rightarrow> string \<Rightarrow> notifyRegistry \<Rightarrow> notifyRegistry option" where
  "subscribeExclusive ch p n = (if waiters p n \<noteq> {} then None else Some (addLocked p ch n))"

definition unsubscribe :: "string \<Rightarrow> chan \<Rightarrow> notifyRegistry \<Rightarrow> notifyRegistry" where
  "unsubscribe p ch n =
     (let s = waiters p n - {ch} in
      n\<lparr>ng_subs := (if s = {} then (ng_subs n)(p := None) else (ng_subs n)(p \<mapsto> s))\<rparr>)"

definition notifyLocked :: "string \<Rightarrow> notifyRegistry \<Rightarrow> chan set \<Rightarrow> chan set" where
  "notifyLocked p n full = full \<union> waiters p n"

definition notify :: "string \<Rightarrow> notifyRegistry \<Rightarrow> chan set \<Rightarrow> chan set" where
  "notify p n full = notifyLocked p n full"

definition signal :: "string \<Rightarrow> notifyRegistry \<Rightarrow> chan set \<Rightarrow> notifyRegistry \<times> chan set" where
  "signal p n full = (n\<lparr>ng_pending := map_option (insert p) (ng_pending n)\<rparr>, notifyLocked p n full)"

definition pushes :: "notifyRegistry option \<Rightarrow> bool" where
  "pushes n = (case n of None \<Rightarrow> False | Some r \<Rightarrow> ng_pending r \<noteq> None)"

definition drainPending :: "notifyRegistry \<Rightarrow> string set \<times> notifyRegistry" where
  "drainPending n = (case ng_pending n of
     None \<Rightarrow> ({}, n)
   | Some ps \<Rightarrow> if ps = {} then ({}, n) else (ps, n\<lparr>ng_pending := Some {}\<rparr>))"

definition notifyAll :: "notifyRegistry \<Rightarrow> chan set \<Rightarrow> chan set" where
  "notifyAll n full = full \<union> \<Union> (ran (ng_subs n))"

definition payloads :: "notifyRegistry \<Rightarrow> string set" where
  "payloads n = dom (ng_subs n)"

definition Has :: "string \<Rightarrow> notifyRegistry \<Rightarrow> bool" where
  "Has p n = (waiters p n \<noteq> {})"

definition WaiterCount :: "string \<Rightarrow> notifyRegistry \<Rightarrow> nat" where
  "WaiterCount p n = card (waiters p n)"

definition clear_subs :: "notifyRegistry \<Rightarrow> notifyRegistry" where
  "clear_subs n = n\<lparr>ng_subs := Map.empty\<rparr>"

section \<open>The notifier loop\<close>

record notifiers =
  EventNotifier :: notifyRegistry
  streamNotifier :: notifyRegistry
  buffers :: "chan set"

definition pushRegistries :: "notifiers \<Rightarrow> notifyRegistry list" where
  "pushRegistries s = filter (\<lambda>r. pushes (Some r)) [EventNotifier s, streamNotifier s]"

definition pushesNotifications :: "notifiers \<Rightarrow> bool" where
  "pushesNotifications s = (0 < length (pushRegistries s))"

definition SignalStreamWrite :: "string \<Rightarrow> string \<Rightarrow> notifiers \<Rightarrow> notifiers" where
  "SignalStreamWrite wid key s =
     (case signal (payload wid key) (streamNotifier s) (buffers s) of
        (n, full) \<Rightarrow> s\<lparr>streamNotifier := n, buffers := full\<rparr>)"

definition SignalEventSet :: "string \<Rightarrow> string \<Rightarrow> notifiers \<Rightarrow> notifiers" where
  "SignalEventSet wid key s =
     (case signal (payload wid key) (EventNotifier s) (buffers s) of
        (n, full) \<Rightarrow> s\<lparr>EventNotifier := n, buffers := full\<rparr>)"

text \<open>
  One registry of a flush; \<open>exec\<close> says whether the retried \<^verbatim>\<open>pg_notify\<close> statement of a batch went through.
  The result lists the notifications that were sent.
\<close>

definition flush_registry ::
  "(string \<Rightarrow> string set \<Rightarrow> bool) \<Rightarrow> notifyRegistry \<Rightarrow> (string \<times> string) set \<times> notifyRegistry" where
  "flush_registry exec r =
     (if \<not> pushes (Some r) then ({}, r)
      else case drainPending r of (ps, r') \<Rightarrow>
        (if ps = {} \<or> \<not> exec (ng_channel r) ps then {} else {ng_channel r} \<times> ps, r'))"

definition flushNotifications ::
  "(string \<Rightarrow> string set \<Rightarrow> bool) \<Rightarrow> notifiers \<Rightarrow> (string \<times> string) set \<times> notifiers" where
  "flushNotifications exec s =
     (case flush_registry exec (EventNotifier s) of (b1, e) \<Rightarrow>
      case flush_registry exec (streamNotifier s) of (b2, t) \<Rightarrow>
        (b1 \<union> b2, s\<lparr>EventNotifier := e, streamNotifier := t\<rparr>))"

text \<open>
  The loop flushes at every tick and once more when its context is cancelled. Each element of the list
  is what the other goroutines do before the next tick, \<open>final\<close> what they do before the cancellation.
\<close>

fun notifierLoop ::
  "(string \<Rightarrow> string set \<Rightarrow> bool) \<Rightarrow> (notifiers \<Rightarrow> notifiers) list \<Rightarrow> (notifiers \<Rightarrow> notifiers) \<Rightarrow> notifiers \<Rightarrow>
   (string \<times> string) set \<times> notifiers" where
  "notifierLoop exec [] final s = flushNotifications exec (final s)"
| "notifierLoop exec (f # fs) final s =
     (case flushNotifications exec (f s) of (b, s1) \<Rightarrow>
      case notifierLoop exec fs final s1 of (bs, s2) \<Rightarrow> (b \<union> bs, s2))"

section \<open>Registry laws\<close>

lemma waiters_new [simp]: "waiters p (newNotifyRegistry channel push) = {}"
  by (simp add: waiters_def newNotifyRegistry_def)

lemma waiters_addLocked: "waiters q (addLocked p ch n) = (if q = p then insert ch (waiters p n) else waiters q n)"
  by (simp add: waiters_def addLocked_def)

lemma waiters_subscribe [simp]: "waiters q (subscribe ch p n) = (if q = p then insert ch (waiters p n) else waiters q n)"
  by (simp add: subscribe_def waiters_addLocked)

lemma subscribeExclusive_Some:
  "subscribeExclusive ch p n = Some n' \<longleftrightarrow> waiters p n = {} \<and> n' = subscribe ch p n"
  by (auto simp: subscribeExclusive_def subscribe_def)

lemma waiters_unsubscribe [simp]: "waiters q (unsubscribe p ch n) = (if q = p then waiters p n - {ch} else waiters q n)"
  by (auto simp: waiters_def unsubscribe_def Let_def split: option.splits)

lemma waiters_signal [simp]: "waiters q (fst (signal p n full)) = waiters q n"
  by (simp add: waiters_def signal_def)

lemma notifyAll_covers: "waiters p n \<subseteq> notifyAll n full"
  by (force simp: waiters_def notifyAll_def ran_def split: option.splits)

text \<open>The subscriptions hold no empty set, so that the payloads are those somebody waits for.\<close>

definition registry_ok :: "notifyRegistry \<Rightarrow> bool" where
  "registry_ok n = ({} \<notin> ran (ng_subs n))"

lemma registry_ok_ops:
  "registry_ok (newNotifyRegistry channel push)" "registry_ok n \<Longrightarrow> registry_ok (subscribe ch p n)"
  "registry_ok n \<Longrightarrow> registry_ok (unsubscribe p ch n)" "registry_ok n \<Longrightarrow> registry_ok (fst (signal p n full))"
  "registry_ok (clear_subs n)"
  by (auto simp: registry_ok_def newNotifyRegistry_def subscribe_def addLocked_def unsubscribe_def signal_def clear_subs_def
      Let_def ran_def split: if_splits)

lemma payloads_waited: "registry_ok n \<Longrightarrow> payloads n = {p. Has p n}"
  by (auto simp: registry_ok_def payloads_def Has_def waiters_def ran_def split: option.splits)

section \<open>Everything signalled is pushed\<close>

datatype signalled = StreamWrite string string | EventSet string string

fun send_signal :: "signalled \<Rightarrow> notifiers \<Rightarrow> notifiers" where
  "send_signal (StreamWrite wid key) s = SignalStreamWrite wid key s"
| "send_signal (EventSet wid key) s = SignalEventSet wid key s"

definition pushing :: "notifiers \<Rightarrow> bool" where
  "pushing s = (ng_pending (EventNotifier s) \<noteq> None \<and> ng_pending (streamNotifier s) \<noteq> None)"

definition queued :: "notifiers \<Rightarrow> (string \<times> string) set" where
  "queued s = {ng_channel (EventNotifier s)} \<times> the (ng_pending (EventNotifier s)) \<union>
     {ng_channel (streamNotifier s)} \<times> the (ng_pending (streamNotifier s))"

fun wire :: "notifiers \<Rightarrow> signalled \<Rightarrow> string \<times> string" where
  "wire s (StreamWrite wid key) = (ng_channel (streamNotifier s), payload wid key)"
| "wire s (EventSet wid key) = (ng_channel (EventNotifier s), payload wid key)"

definition same_channels :: "notifiers \<Rightarrow> notifiers \<Rightarrow> bool" where
  "same_channels s s' = (ng_channel (EventNotifier s') = ng_channel (EventNotifier s) \<and>
     ng_channel (streamNotifier s') = ng_channel (streamNotifier s))"

lemma wire_same: "same_channels s s' \<Longrightarrow> wire s' g = wire s g"
  by (cases g) (simp_all add: same_channels_def)

lemma send_signals:
  "pushing s \<Longrightarrow> pushing (fold send_signal gs s) \<and> same_channels s (fold send_signal gs s) \<and>
     queued (fold send_signal gs s) = queued s \<union> wire s ` set gs"
proof (induction gs arbitrary: s)
  case (Cons g gs)
  have one: "pushing (send_signal g s)" "same_channels s (send_signal g s)" "queued (send_signal g s) = insert (wire s g) (queued s)"
    using Cons.prems
    by (cases g; auto simp: pushing_def same_channels_def queued_def SignalStreamWrite_def SignalEventSet_def signal_def)+
  have img: "wire (send_signal g s) ` A = wire s ` A" for A by (rule image_cong) (simp_all add: wire_same [OF one(2)])
  show ?case using Cons.IH [OF one(1)] one by (auto simp: img same_channels_def)
qed (simp add: same_channels_def)

lemma flush_all:
  assumes "pushing s" and "flushNotifications (\<lambda>_ _. True) s = (b, s')"
  shows "b = queued s" and "pushing s'" and "same_channels s s'" and "queued s' = {}"
  using assms by (auto simp: pushing_def queued_def same_channels_def flushNotifications_def flush_registry_def pushes_def
      drainPending_def split: if_splits)

lemma notifierLoop_pushes:
  "pushing s \<Longrightarrow> notifierLoop (\<lambda>_ _. True) (map (fold send_signal) gss) (fold send_signal gs) s = (b, s') \<Longrightarrow>
     b = queued s \<union> wire s ` (\<Union> (set ` set gss) \<union> set gs) \<and> queued s' = {}"
proof (induction gss arbitrary: s b)
  case Nil
  then show ?case using flush_all [OF send_signals [OF Nil.prems(1), THEN conjunct1]] send_signals [OF Nil.prems(1)] by auto
next
  case (Cons hs gss)
  let ?s1 = "fold send_signal hs s"
  obtain b1 s2 where fl: "flushNotifications (\<lambda>_ _. True) ?s1 = (b1, s2)" by fastforce
  obtain b2 where rest: "notifierLoop (\<lambda>_ _. True) (map (fold send_signal) gss) (fold send_signal gs) s2 = (b2, s')" "b = b1 \<union> b2"
    using Cons.prems(2) fl by (auto split: prod.splits)
  note s1 = send_signals [OF Cons.prems(1), of hs]
  note f = flush_all [OF s1 [THEN conjunct1] fl]
  have "same_channels s s2" using s1 f(3) by (auto simp: same_channels_def)
  then have img: "wire s2 ` A = wire s ` A" for A by (intro image_cong) (simp_all add: wire_same)
  show ?case using Cons.IH [OF f(2) rest(1)] rest(2) f(1,4) s1 by (auto simp: img)
qed

text \<open>
  The notifier loop loses nothing that was signalled before it is cancelled: with a database that
  takes the statements, the notifications sent are those queued at the start and one for every
  signal of any goroutine, and both queues are empty when the loop returns.
\<close>

lemma notifier_pushes_everything:
  assumes "pushing s"
    and "notifierLoop (\<lambda>_ _. True) (map (fold send_signal) gss) (fold send_signal gs) s = (b, s')"
  shows "b = queued s \<union> wire s ` (\<Union> (set ` set gss) \<union> set gs) \<and> queued s' = {}"
  using notifierLoop_pushes [OF assms] .

section \<open>The waiting protocol\<close>

text \<open>
  A waiter subscribes, looks for the row, and if there is none waits for its channel before it looks again.
  A writer commits the row and then signals. \<open>Probing\<close> is a waiter about to query the database.
\<close>

datatype wait_phase = Probing | Waiting

record wait_state =
  wz_rows :: "string set"
  wz_unsignalled :: "string set"
  wz_registry :: notifyRegistry
  wz_full :: "chan set"
  wz_waiters :: "chan \<rightharpoonup> string \<times> wait_phase"

definition set_phase :: "chan \<Rightarrow> string \<Rightarrow> wait_phase \<Rightarrow> wait_state \<Rightarrow> wait_state" where
  "set_phase ch p ph s = s\<lparr>wz_waiters := (wz_waiters s)(ch \<mapsto> (p, ph))\<rparr>"

definition release :: "chan \<Rightarrow> string \<Rightarrow> wait_state \<Rightarrow> wait_state" where
  "release ch p s = s\<lparr>wz_waiters := (wz_waiters s)(ch := None), wz_registry := unsubscribe p ch (wz_registry s)\<rparr>"

text \<open>
  \<open>register_shared\<close> is \<^verbatim>\<open>StartEventListener\<close>, \<open>register_sole\<close> is \<^verbatim>\<open>StartRecvListener\<close>; \<open>excl\<close> says which of the
  two the registry is for. \<open>observed\<close> is a payload that arrives on the wire or from the polling loop, \<open>reconnected\<close> the
  repoll after a lost connection, \<open>fallback\<close> the ticker of \<^verbatim>\<open>notificationWait\<close>, \<open>expired\<close> its deadline or cancellation.
\<close>

inductive wait_step :: "bool \<Rightarrow> wait_state \<Rightarrow> wait_state \<Rightarrow> bool" for excl :: bool where
  register_shared: "\<not> excl \<Longrightarrow> wz_waiters s ch = None \<Longrightarrow>
    wait_step excl s (set_phase ch p Probing
      (s\<lparr>wz_registry := subscribe ch p (wz_registry s), wz_full := wz_full s - {ch}\<rparr>))"
| register_sole: "excl \<Longrightarrow> wz_waiters s ch = None \<Longrightarrow> subscribeExclusive ch p (wz_registry s) = Some n \<Longrightarrow>
    wait_step excl s (set_phase ch p Probing (s\<lparr>wz_registry := n, wz_full := wz_full s - {ch}\<rparr>))"
| found: "wz_waiters s ch = Some (p, Probing) \<Longrightarrow> p \<in> wz_rows s \<Longrightarrow> wait_step excl s (release ch p s)"
| not_found: "wz_waiters s ch = Some (p, Probing) \<Longrightarrow> p \<notin> wz_rows s \<Longrightarrow> wait_step excl s (set_phase ch p Waiting s)"
| woken: "wz_waiters s ch = Some (p, Waiting) \<Longrightarrow> ch \<in> wz_full s \<Longrightarrow>
    wait_step excl s (set_phase ch p Probing (s\<lparr>wz_full := wz_full s - {ch}\<rparr>))"
| fallback: "wz_waiters s ch = Some (p, Waiting) \<Longrightarrow> pushes (Some (wz_registry s)) \<Longrightarrow>
    wait_step excl s (set_phase ch p Probing s)"
| expired: "wz_waiters s ch = Some (p, ph) \<Longrightarrow> wait_step excl s (release ch p s)"
| committed: "wait_step excl s (s\<lparr>wz_rows := insert p (wz_rows s), wz_unsignalled := insert p (wz_unsignalled s)\<rparr>)"
| signals: "p \<in> wz_unsignalled s \<Longrightarrow> signal p (wz_registry s) (wz_full s) = (n, full) \<Longrightarrow>
    wait_step excl s (s\<lparr>wz_unsignalled := wz_unsignalled s - {p}, wz_registry := n, wz_full := full\<rparr>)"
| observed: "wait_step excl s (s\<lparr>wz_full := notify p (wz_registry s) (wz_full s)\<rparr>)"
| reconnected: "wait_step excl s (s\<lparr>wz_full := notifyAll (wz_registry s) (wz_full s)\<rparr>)"
| row_consumed: "wait_step excl s (s\<lparr>wz_rows := wz_rows s - {p}\<rparr>)"

definition wait_init :: "string \<Rightarrow> bool \<Rightarrow> wait_state" where
  "wait_init channel push = \<lparr>wz_rows = {}, wz_unsignalled = {}, wz_registry = newNotifyRegistry channel push,
     wz_full = {}, wz_waiters = Map.empty\<rparr>"

definition wait_inv :: "bool \<Rightarrow> wait_state \<Rightarrow> bool" where
  "wait_inv excl s =
     ((\<forall>p. waiters p (wz_registry s) = {ch. \<exists>ph. wz_waiters s ch = Some (p, ph)}) \<and>
      (\<forall>ch p. wz_waiters s ch = Some (p, Waiting) \<and> p \<in> wz_rows s \<longrightarrow> p \<in> wz_unsignalled s \<or> ch \<in> wz_full s) \<and>
      (excl \<longrightarrow> (\<forall>p ch ch'. ch \<in> waiters p (wz_registry s) \<and> ch' \<in> waiters p (wz_registry s) \<longrightarrow> ch = ch')))"

lemma wait_inv_init: "wait_inv excl (wait_init channel push)"
  by (simp add: wait_inv_def wait_init_def)

lemma wait_inv_set_phase:
  assumes "wait_inv excl s" and "wz_waiters s ch = Some (p, ph0)" and "ph = Waiting \<longrightarrow> p \<notin> wz_rows s"
  shows "wait_inv excl (set_phase ch p ph (s\<lparr>wz_full := wz_full s - (if ph = Waiting then {} else {ch})\<rparr>))"
    and "wait_inv excl (set_phase ch p ph s)"
  using assms by (auto simp: wait_inv_def set_phase_def)

lemma wait_inv_release: "wait_inv excl s \<Longrightarrow> wz_waiters s ch = Some (p, ph) \<Longrightarrow> wait_inv excl (release ch p s)"
  by (auto simp: wait_inv_def release_def)

lemma wait_inv_register:
  assumes "wait_inv excl s" and "wz_waiters s ch = None" and "excl \<longrightarrow> waiters p (wz_registry s) = {}"
  shows "wait_inv excl (set_phase ch p Probing (s\<lparr>wz_registry := subscribe ch p (wz_registry s), wz_full := wz_full s - {ch}\<rparr>))"
  using assms by (auto simp: wait_inv_def set_phase_def)

lemma wait_inv_buffers:
  assumes "wait_inv excl s" and "wz_full s \<subseteq> full"
  shows "wait_inv excl (s\<lparr>wz_full := full\<rparr>)"
  using assms unfolding wait_inv_def by simp blast

lemma wait_inv_signal:
  assumes "wait_inv excl s" and "signal p (wz_registry s) (wz_full s) = (n, full)"
  shows "wait_inv excl (s\<lparr>wz_unsignalled := wz_unsignalled s - {p}, wz_registry := n, wz_full := full\<rparr>)"
proof -
  have w: "waiters q n = waiters q (wz_registry s)" for q using waiters_signal [of q p "wz_registry s" "wz_full s"] assms(2) by simp
  have "full = wz_full s \<union> waiters p (wz_registry s)" using assms(2) by (auto simp: signal_def notifyLocked_def)
  then show ?thesis using assms(1) by (auto simp: wait_inv_def w)
qed

lemma wait_step_inv: "wait_step excl s s' \<Longrightarrow> wait_inv excl s \<Longrightarrow> wait_inv excl s'"
proof (induction rule: wait_step.induct)
  case (register_shared s ch p)
  then show ?case by (intro wait_inv_register) simp_all
next
  case (register_sole s ch p n)
  then show ?case by (auto simp: subscribeExclusive_Some intro!: wait_inv_register)
next
  case (woken s ch p)
  then show ?case using wait_inv_set_phase(1) [OF woken.prems woken.hyps(1), of Probing] by simp
next
  case (signals p s n full)
  then show ?case by (intro wait_inv_signal)
next
  case (observed s p)
  then show ?case by (intro wait_inv_buffers) (simp_all add: notify_def notifyLocked_def)
next
  case (reconnected s)
  then show ?case by (intro wait_inv_buffers) (simp_all add: notifyAll_def)
next
  case (committed s p)
  then show ?case by (auto simp: wait_inv_def)
next
  case (row_consumed s p)
  then show ?case by (auto simp: wait_inv_def)
qed (auto intro: wait_inv_set_phase(2) wait_inv_release)

lemma wait_reachable_inv:
  assumes "(wait_step excl)\<^sup>*\<^sup>* (wait_init channel push) s"
  shows "wait_inv excl s"
  using assms by (induction rule: rtranclp_induct) (auto intro: wait_inv_init wait_step_inv)


text \<open>A receiver that subscribed, found nothing, and whose message was then committed and signalled.\<close>

lemma sample_wait_run:
  "\<exists>s. (wait_step True)\<^sup>*\<^sup>* (wait_init ''c'' False) s \<and> wz_waiters s 0 = Some (''a'', Waiting) \<and>
     ''a'' \<in> wz_rows s \<and> ''a'' \<notin> wz_unsignalled s"
proof -
  let ?n = "newNotifyRegistry ''c'' False"
  let ?s1 = "set_phase 0 ''a'' Probing ((wait_init ''c'' False)\<lparr>wz_registry := subscribe 0 ''a'' ?n, wz_full := {} - {0}\<rparr>)"
  let ?s2 = "set_phase 0 ''a'' Waiting ?s1"
  let ?s3 = "?s2\<lparr>wz_rows := insert ''a'' (wz_rows ?s2), wz_unsignalled := insert ''a'' (wz_unsignalled ?s2)\<rparr>"
  let ?g = "signal ''a'' (wz_registry ?s3) (wz_full ?s3)"
  let ?s4 = "?s3\<lparr>wz_unsignalled := wz_unsignalled ?s3 - {''a''}, wz_registry := fst ?g, wz_full := snd ?g\<rparr>"
  have "wait_step True (wait_init ''c'' False) ?s1"
    using register_sole [of True "wait_init ''c'' False" 0 "''a''"] by (simp add: wait_init_def subscribeExclusive_Some)
  moreover have "wait_step True ?s1 ?s2" by (rule not_found) (simp_all add: set_phase_def wait_init_def)
  moreover have "wait_step True ?s2 ?s3" by (rule committed)
  moreover have "wait_step True ?s3 ?s4" by (rule signals) simp_all
  ultimately have "(wait_step True)\<^sup>*\<^sup>* (wait_init ''c'' False) ?s4" by (meson converse_rtranclp_into_rtranclp rtranclp.rtrancl_refl)
  then show ?thesis by (intro exI [of _ ?s4]) (simp add: set_phase_def wait_init_def)
qed


lemma notifier_pushes_everything_witness:
  "notifierLoop (\<lambda>_ _. True) (map (fold send_signal) [[StreamWrite ''a'' ''k'', StreamWrite ''a'' ''k'']]) (fold send_signal [EventSet ''a'' ''e''])
     \<lparr>EventNotifier = newNotifyRegistry ''events'' True, streamNotifier = newNotifyRegistry ''streams'' True, buffers = {}\<rparr> =
   ({(''streams'', ''a::k''), (''events'', ''a::e'')},
     \<lparr>EventNotifier = newNotifyRegistry ''events'' True, streamNotifier = newNotifyRegistry ''streams'' True, buffers = {}\<rparr>)"
proof -
  let ?s = "\<lparr>EventNotifier = newNotifyRegistry ''events'' True, streamNotifier = newNotifyRegistry ''streams'' True, buffers = {}\<rparr>"
  obtain b s' where run: "notifierLoop (\<lambda>_ _. True) (map (fold send_signal) [[StreamWrite ''a'' ''k'', StreamWrite ''a'' ''k'']])
      (fold send_signal [EventSet ''a'' ''e'']) ?s = (b, s')" by fastforce
  have "pushing ?s" by (simp add: pushing_def newNotifyRegistry_def)
  from notifier_pushes_everything [OF this run] have "b = {(''streams'', ''a::k''), (''events'', ''a::e'')}"
    by (auto simp: queued_def newNotifyRegistry_def payload_def)
  moreover have "s' = ?s"
    using run by (auto simp: flushNotifications_def flush_registry_def pushes_def drainPending_def SignalStreamWrite_def
        SignalEventSet_def signal_def notifyLocked_def waiters_def newNotifyRegistry_def)
  ultimately show ?thesis using run by simp
qed

end
