(* ===== verification/Ops.thy ===== *)
theory Ops
  imports Api Gates Notifier Queues
begin

text \<open>
  The durable operations a workflow calls on its context (\<^verbatim>\<open>src/dbos/workflow.go\<close>, \<^verbatim>\<open>src/dbos/gates.go\<close>): messages, gates,
  events, streams, sleeps and patches, with durable suspension, which parks a workflow in the database and
  unwinds its goroutine by a panic.
\<close>

section \<open>The environment of an operation\<close>

text \<open>
  What the operations use beyond the context: \<open>o_threshold\<close> is \<^verbatim>\<open>DurableSleepThreshold\<close>, \<open>o_others\<close> what other
  goroutines and executors do between two statements, \<open>o_uuid\<close> a generated id, \<open>o_int64\<close>, \<open>o_raw\<close> and \<open>o_string\<close> how an
  \<^verbatim>\<open>int64\<close>, a \<^verbatim>\<open>rawStepOutput\<close> and a \<^verbatim>\<open>string\<close> are values, \<open>o_duration\<close> the verb \<^verbatim>\<open>%v\<close> of a duration. \<open>o_subscribed\<close> says whether
  the exclusive subscription of a payload succeeds, \<open>o_select\<close> is the select of \<^verbatim>\<open>notificationWait\<close> with the given deadline, and
  \<open>o_queryErr\<close> the error of a query that is interrupted by its context.
\<close>

datatype wait_event = Signalled | FallbackTick | WaitDone

record ('v, 'w) op_env =
  o_ctx :: "('v, 'w) dbosContext"
  o_retryable :: "go_error \<Rightarrow> bool"
  o_threshold :: duration
  o_EnablePatching :: bool
  o_others :: "'w state \<Rightarrow> 'w state"
  o_uuid :: "'w state \<Rightarrow> string"
  o_int64 :: "('v, int) boxed"
  o_raw :: "string option \<times> string \<Rightarrow> 'v"
  o_string :: "string \<Rightarrow> 'v"
  o_duration :: "duration \<Rightarrow> string"
  o_subscribed :: "string \<Rightarrow> 'w state \<Rightarrow> bool"
  o_select :: "instant \<Rightarrow> 'w state \<Rightarrow> wait_event \<times> 'w state"
  o_queryErr :: "'w state \<Rightarrow> go_error option"

abbreviation o_now :: "('v, 'w) op_env \<Rightarrow> 'w state \<Rightarrow> instant" where
  "o_now e st \<equiv> c_now (o_ctx e) st"

text \<open>The encoder of the context \<open>c\<close>: the format of its workflow, if there is one.\<close>

definition ctx_encoder :: "('v, 'w) op_env \<Rightarrow> 'w workflowState option \<Rightarrow> 'v Serializer" where
  "ctx_encoder e wfState =
     resolveEncoder (c_any (o_ctx e)) (case wfState of None \<Rightarrow> False | Some ws \<Rightarrow> isPortableWorkflow ws) (c_serializer (o_ctx e))"

definition chosen_encoder :: "('v, 'w) op_env \<Rightarrow> bool \<Rightarrow> 'w workflowState option \<Rightarrow> 'v Serializer" where
  "chosen_encoder e usePortable wfState =
     (if usePortable then newPortableSerializer (c_any (o_ctx e)) else ctx_encoder e wfState)"

text \<open>A step body that executes one statement, at the time and with the ids of its state.\<close>

definition stmt_body :: "'v \<Rightarrow> 'v \<Rightarrow> ('w state \<Rightarrow> sysdb \<Rightarrow> (unit \<times> sysdb) res) \<Rightarrow> ('v, 'w) body" where
  "stmt_body zero ok op st =
     (case op st (fst st) of
        Inl err \<Rightarrow> ((zero, Some err), st)
      | Inr (_, db') \<Rightarrow> ((ok, None), (db', snd st)))"

definition run_statement ::
  "('w state \<Rightarrow> sysdb \<Rightarrow> (unit \<times> sysdb) res) \<Rightarrow> 'w state \<Rightarrow> go_error option \<times> 'w state" where
  "run_statement op st = (case op st (fst st) of Inl err \<Rightarrow> (Some err, st) | Inr (_, db') \<Rightarrow> (None, (db', snd st)))"

section \<open>Suspension\<close>

record workflowSuspension =
  su_workflowID :: string
  su_delayUntil :: instant
  su_awaitedWorkflowID :: string

text \<open>An operation returns, or panics with a \<^verbatim>\<open>workflowSuspension\<close>.\<close>

datatype 'r control = Returned 'r | Suspended workflowSuspension

definition waiterWakeFallbackInterval :: duration where
  "waiterWakeFallbackInterval = 3600 * Second"

definition suspendableWaiter :: "('v, 'w) op_env \<Rightarrow> 'w workflowState option \<Rightarrow> duration \<Rightarrow> 'w workflowState option" where
  "suspendableWaiter e wfState userTimeout =
     (if o_threshold e \<le> 0 \<or> 0 < userTimeout then None
      else case wfState of None \<Rightarrow> None | Some ws \<Rightarrow> if isWithinStep ws then None else Some ws)"

definition suspendForResult ::
  "('v, 'w) op_env \<Rightarrow> 'w workflowState \<Rightarrow> string \<Rightarrow> 'w state \<Rightarrow> unit control \<times> 'w state" where
  "suspendForResult e ws awaited st =
     (let delayUntil = o_now e st + waiterWakeFallbackInterval in
      case SuspendWorkflowForResult (o_now e st) (workflowID ws) awaited delayUntil (fst st) of
        Inl _ \<Rightarrow> (Returned (), st)
      | Inr (suspended, db1) \<Rightarrow>
          if \<not> suspended then (Returned (), (db1, snd st))
          else
            let st2 = o_others e (db1, snd st);
                st3 = (case ListWorkflows (c_systemDB (o_ctx e)) (zero_ListWorkflowsDBInput\<lparr>l_WorkflowIDs := [awaited]\<rparr>) (fst st2) of
                         Inr [s] \<Rightarrow> if isTerminalStatus (W_Status s)
                                    then (WakeWorkflowWaiters (o_now e st2) False awaited (fst st2), snd st2) else st2
                       | _ \<Rightarrow> st2)
            in (Suspended \<lparr>su_workflowID = workflowID ws, su_delayUntil = delayUntil, su_awaitedWorkflowID = awaited\<rparr>, st3))"

definition suspension_end :: "('v, 'w) op_env \<Rightarrow> instant \<Rightarrow> 'w state \<Rightarrow> instant" where
  "suspension_end e deadline st =
     (let fallback = o_now e st + waiterWakeFallbackInterval in if fallback < deadline then fallback else deadline)"

definition suspendForRecv ::
  "('v, 'w) op_env \<Rightarrow> 'w workflowState \<Rightarrow> string \<Rightarrow> instant \<Rightarrow> 'w state \<Rightarrow> unit control \<times> 'w state" where
  "suspendForRecv e ws topic deadline st =
     (let delayUntil = suspension_end e deadline st; wid = workflowID ws in
      case SuspendWorkflowForResult (o_now e st) wid wid delayUntil (fst st) of
        Inl _ \<Rightarrow> (Returned (), st)
      | Inr (suspended, db1) \<Rightarrow>
          if \<not> suspended then (Returned (), (db1, snd st))
          else
            let st2 = o_others e (db1, snd st);
                st3 = (if HasUnconsumedNotification wid topic (fst st2)
                       then (WakeSuspendedWorkflow (o_now e st2) wid (fst st2), snd st2) else st2)
            in (Suspended \<lparr>su_workflowID = wid, su_delayUntil = delayUntil, su_awaitedWorkflowID = []\<rparr>, st3))"

definition suspendForEvent ::
  "('v, 'w) op_env \<Rightarrow> 'w workflowState \<Rightarrow> string \<Rightarrow> string \<Rightarrow> instant \<Rightarrow> 'w state \<Rightarrow> unit control \<times> 'w state" where
  "suspendForEvent e ws target key deadline st =
     (let delayUntil = suspension_end e deadline st; wid = workflowID ws in
      case SuspendWorkflowForResult (o_now e st) wid target delayUntil (fst st) of
        Inl _ \<Rightarrow> (Returned (), st)
      | Inr (suspended, db1) \<Rightarrow>
          if \<not> suspended then (Returned (), (db1, snd st))
          else
            let st2 = o_others e (db1, snd st);
                st3 = (if HasWorkflowEvent target key (fst st2)
                       then (WakeSuspendedWorkflow (o_now e st2) wid (fst st2), snd st2) else st2)
            in (Suspended \<lparr>su_workflowID = wid, su_delayUntil = delayUntil, su_awaitedWorkflowID = target\<rparr>, st3))"

section \<open>Waiting for a notification\<close>

text \<open>
  The loop of \<^verbatim>\<open>notificationWait\<close>; True is a timeout. \<open>recheck\<close> looks for the row. The loop may wait forever on a context without
  deadline; then the result is \<open>None\<close>.
\<close>

partial_function (option) wait_loop ::
  "('w state \<Rightarrow> wait_event \<times> 'w state) \<Rightarrow> ('w state \<Rightarrow> bool res) \<Rightarrow> ('w state \<Rightarrow> go_error option) \<Rightarrow> ('w state \<Rightarrow> bool) \<Rightarrow>
   'w state \<Rightarrow> ((bool \<times> go_error option) \<times> 'w state) option" where
  "wait_loop sel recheck ctxErr waitDone st =
     (case sel st of (ev, st1) \<Rightarrow>
        if ev = WaitDone then
          Some (case ctxErr st1 of Some err \<Rightarrow> ((False, Some err), st1) | None \<Rightarrow> ((True, None), st1))
        else
          (case recheck st1 of
             Inl err \<Rightarrow> Some (case ctxErr st1 of
                 Some cerr \<Rightarrow> ((False, Some cerr), st1)
               | None \<Rightarrow> if waitDone st1 then ((True, None), st1) else ((False, Some err), st1))
           | Inr found \<Rightarrow> if found then Some ((False, None), st1) else wait_loop sel recheck ctxErr waitDone st1))"

definition notificationWait ::
  "('v, 'w) op_env \<Rightarrow> (sysdb \<Rightarrow> bool) \<Rightarrow> instant \<Rightarrow> 'w state \<Rightarrow> ((bool \<times> go_error option) \<times> 'w state) option" where
  "notificationWait e row deadline st =
     wait_loop (o_select e deadline)
       (\<lambda>s. case o_queryErr e s of Some err \<Rightarrow> Inl err | None \<Rightarrow> Inr (row (fst s)))
       (c_Err (o_ctx e)) (\<lambda>s. c_Err (o_ctx e) s \<noteq> None \<or> deadline \<le> o_now e s) st"

text \<open>
  \<^verbatim>\<open>StartRecvListener\<close> and \<^verbatim>\<open>StartEventListener\<close> up to the waiter they return, of which the answer is \<^verbatim>\<open>Pending\<close>.
\<close>

definition pending_message :: "string \<Rightarrow> string \<Rightarrow> sysdb \<Rightarrow> bool" where
  "pending_message dest topic db =
     exists_where (\<lambda>r. nt_destination_uuid r = dest \<and> nt_topic r = topic \<and> \<not> nt_consumed r) (notifications db)"

definition StartRecvListener :: "('v, 'w) op_env \<Rightarrow> string \<Rightarrow> string \<Rightarrow> 'w state \<Rightarrow> bool res" where
  "StartRecvListener e dest topic st =
     (if \<not> o_subscribed e (payload dest topic) st then Inl (NewWorkflowConflictIDError dest)
      else case o_queryErr e st of Some err \<Rightarrow> Inl err | None \<Rightarrow> Inr (pending_message dest topic (fst st)))"

definition StartEventListener :: "('v, 'w) op_env \<Rightarrow> string \<Rightarrow> string \<Rightarrow> 'w state \<Rightarrow> bool res" where
  "StartEventListener e target key st =
     (case o_queryErr e st of Some err \<Rightarrow> Inl err | None \<Rightarrow> Inr (HasWorkflowEvent target key (fst st)))"

text \<open>The step that records the deadline of a wait.\<close>

definition deadline_step ::
  "('v, 'w) op_env \<Rightarrow> 'w workflowState \<Rightarrow> ('w state \<Rightarrow> instant) \<Rightarrow> 'w StepOption list \<Rightarrow> 'w state \<Rightarrow>
   ((int \<times> go_error option) \<times> 'w workflowState option \<times> 'w state) option" where
  "deadline_step e ws deadline opts st =
     map_option (\<lambda>((v, err), r). ((bx_unwrap (o_int64 e) v, err), r))
       (runAsTxn (o_ctx e) (o_retryable e) (bx_type (o_int64 e)) [] (Some ws)
         (Some (\<lambda>s. ((bx_wrap (o_int64 e) (UnixMilli (deadline s)), None), s))) (WithStepName ''DBOS.sleep'' # opts) st)"

text \<open>
  The wait of \<^verbatim>\<open>recvWithGate\<close> and of a \<^verbatim>\<open>GetEvent\<close> in a workflow after the deadline is recorded: in process up to the threshold,
  then parked by \<open>suspend\<close>, and in process again when that fails. The answer is whether the wait timed out.
\<close>

definition wait_or_suspend ::
  "('v, 'w) op_env \<Rightarrow> (instant \<Rightarrow> 'w state \<Rightarrow> ((bool \<times> go_error option) \<times> 'w state) option) \<Rightarrow>
   (instant \<Rightarrow> 'w state \<Rightarrow> unit control \<times> 'w state) \<Rightarrow> instant \<Rightarrow> 'w state \<Rightarrow>
   ((bool \<times> go_error option) control \<times> 'w state) option" where
  "wait_or_suspend e wait suspend deadline st =
     (let final = (\<lambda>s. map_option (\<lambda>(r, s'). (Returned r, s')) (wait deadline s)) in
      if 0 < o_threshold e \<and> o_threshold e < deadline - o_now e st then
        (case wait (o_now e st + o_threshold e) st of
           None \<Rightarrow> None
         | Some ((thresholdTimedOut, Some err), st1) \<Rightarrow> Some (Returned (False, Some err), st1)
         | Some ((thresholdTimedOut, None), st1) \<Rightarrow>
             if thresholdTimedOut then
               (case suspend deadline st1 of
                  (Suspended s, st2) \<Rightarrow> Some (Suspended s, st2)
                | (Returned _, st2) \<Rightarrow> final st2)
             else Some (Returned (False, None), st1))
      else final st)"

section \<open>Receiving a message\<close>

record recvResult =
  rv_message :: "string option"
  rv_serialization :: string
  rv_deliveryID :: string

text \<open>
  The variables \<^verbatim>\<open>consumedMessageUUID\<close> and \<^verbatim>\<open>deliveryID\<close> are captured by the closures of the last transaction; they are a component of
  the world there.
\<close>

type_synonym 'w captured = "'w \<times> string option \<times> string"

definition below :: "('w state \<Rightarrow> 'a) \<Rightarrow> 'w captured state \<Rightarrow> 'a" where
  "below f = (\<lambda>(db, w, _). f (db, w))"

definition captured_ctx :: "('v, 'w) dbosContext \<Rightarrow> ('v, 'w captured) dbosContext" where
  "captured_ctx c = \<lparr>c_systemDB = c_systemDB c, c_executorID = c_executorID c, c_serializer = c_serializer c, c_any = c_any c,
     c_codecs = c_codecs c, c_typeName = c_typeName c, c_asRaw = c_asRaw c, c_asString = c_asString c,
     c_now = below (c_now c), c_Err = below (c_Err c), c_Cause = below (c_Cause c),
     c_wait = (\<lambda>d (db, w, k). case c_wait c d (db, w) of (ok, db', w') \<Rightarrow> (ok, (db', w', k))), c_rand = c_rand c\<rparr>"

definition captured_workflow :: "'w workflowState \<Rightarrow> 'w captured workflowState" where
  "captured_workflow ws = \<lparr>workflowID = workflowID ws, stepID = stepID ws, isWithinStep = isWithinStep ws,
     isWithinTransaction = isWithinTransaction ws, isPortableWorkflow = isPortableWorkflow ws,
     authenticatedUser = authenticatedUser ws, assumedRole = assumedRole ws, authenticatedRoles = authenticatedRoles ws,
     workflowCtx = map_option below (workflowCtx ws)\<rparr>"

definition serialization_or :: "string \<Rightarrow> string option \<Rightarrow> string" where
  "serialization_or fallback stored = (case stored of None \<Rightarrow> fallback | Some s \<Rightarrow> if s \<noteq> [] then s else fallback)"

definition recv_body ::
  "('v, 'w) op_env \<Rightarrow> 'w workflowState \<Rightarrow> string \<Rightarrow> duration \<Rightarrow> bool \<Rightarrow> ('v, 'w captured) body" where
  "recv_body e ws topic timeout timeoutOccurred = (\<lambda>(db, w, _, deliveryID).
     case ConsumeMessageWithUUID (workflowID ws) topic db of ((message, msgSerialization, messageUUID), db') \<Rightarrow>
       let output = o_raw e (message, serialization_or (Name (ctx_encoder e (Some ws))) msgSerialization);
           err = (if message = None \<and> timeoutOccurred
                  then Some (NewTimeoutError (workflowID ws) ''DBOS.recv'' (''no message received within '' @ o_duration e timeout) (Some DeadlineExceeded))
                  else None)
       in ((output, err), (db', w, messageUUID, deliveryID)))"

definition gate_post :: "('v, 'w) op_env \<Rightarrow> 'w workflowState \<Rightarrow> GateSpec \<Rightarrow> 'w captured state \<Rightarrow> (unit \<times> 'w captured state) res" where
  "gate_post e ws g = (\<lambda>(db, w, messageUUID, _).
     case CloseGate (o_now e (db, w)) (workflowID ws) (gs_Name g) messageUUID db of
       (deliveryID, db') \<Rightarrow> Inr ((), (db', w, messageUUID, deliveryID)))"

text \<open>What \<^verbatim>\<open>recvWithGate\<close> and \<^verbatim>\<open>GetEvent\<close> make of the outcome of their last transaction.\<close>

definition recv_outcome ::
  "('v, 'w) op_env \<Rightarrow> string \<Rightarrow> string \<Rightarrow> 'v step_result \<times> go_error option \<Rightarrow> recvResult option \<times> go_error option" where
  "recv_outcome e wid deliveryID = (\<lambda>(out, err).
     case out of
       NilResult \<Rightarrow> (None, err)
     | CheckpointedOutcome value serialization \<Rightarrow>
         (Some \<lparr>rv_message = value, rv_serialization = serialization, rv_deliveryID = []\<rparr>, err)
     | Direct v \<Rightarrow>
         (case c_asRaw (o_ctx e) v of
            Some (value, serialization) \<Rightarrow> (Some \<lparr>rv_message = value, rv_serialization = serialization, rv_deliveryID = deliveryID\<rparr>, err)
          | None \<Rightarrow> (None, Some (NewWorkflowUnexpectedResultType wid ''rawStepOutput'' (c_typeName (o_ctx e) v)))))"

definition recv_txn ::
  "('v, 'w) op_env \<Rightarrow> 'w workflowState \<Rightarrow> string \<Rightarrow> duration \<Rightarrow> int \<Rightarrow> GateSpec option \<Rightarrow> bool \<Rightarrow> 'w state \<Rightarrow>
   ((recvResult option \<times> go_error option) \<times> 'w state) option" where
  "recv_txn e ws topic timeout sid gate timeoutOccurred = (\<lambda>(db, w).
     map_option (\<lambda>(r, _, (db', w', _, deliveryID)). (recv_outcome e (workflowID ws) deliveryID r, (db', w')))
       (dbosContext_runAsTxn (captured_ctx (o_ctx e)) (o_retryable e) (Some (captured_workflow ws))
          (Some (recv_body e ws topic timeout timeoutOccurred))
          ([WithStepName ''DBOS.recv'', withNextStepID sid] @
            (case gate of None \<Rightarrow> [] | Some g \<Rightarrow> [withPostStepInTxn (Some (gate_post e ws g))]))
          (db, (w, None, []))))"

definition recvWithGate ::
  "('v, 'w) op_env \<Rightarrow> 'w workflowState \<Rightarrow> string \<Rightarrow> duration \<Rightarrow> int \<Rightarrow> int \<Rightarrow> GateSpec option \<Rightarrow> 'w state \<Rightarrow>
   ((recvResult option \<times> go_error option) control \<times> 'w state) option" where
  "recvWithGate e ws topic timeout sid sleepID gate st =
     (let wid = workflowID ws; fail = (\<lambda>err s. Some (Returned (None, Some err), s)) in
      case CheckOperationExecution wid sid ''DBOS.recv'' (fst st) of
        Inl err \<Rightarrow> fail err st
      | Inr (Some recorded) \<Rightarrow>
          Some (Returned (Some \<lparr>rv_message = rr_Output recorded, rv_serialization = rr_Serialization recorded, rv_deliveryID = []\<rparr>,
                  deserializeWorkflowError (c_codecs (o_ctx e)) (rr_ErrStr recorded)), st)
      | Inr None \<Rightarrow>
          (case (case gate of None \<Rightarrow> Inr ((), fst st) | Some g \<Rightarrow> OpenGate (o_now e st) wid sid g (fst st)) of
             Inl err \<Rightarrow> fail (Errorf ''failed to open gate: '' err) st
           | Inr (_, db1) \<Rightarrow>
               let st1 = (db1, snd st) in
               (case StartRecvListener e wid topic st1 of
                  Inl err \<Rightarrow> fail err st1
                | Inr pending \<Rightarrow>
                    let consume = (\<lambda>timeoutOccurred s. map_option (\<lambda>(r, s'). (Returned r, s'))
                          (recv_txn e ws topic timeout sid gate timeoutOccurred s))
                    in if pending then consume False st1
                       else (case deadline_step e ws (\<lambda>s. o_now e s + timeout) [withNextStepID sleepID] st1 of
                               None \<Rightarrow> None
                             | Some ((_, Some err), _, st2) \<Rightarrow> fail err st2
                             | Some ((deadlineMs, None), _, st2) \<Rightarrow>
                                 (case wait_or_suspend e (notificationWait e (pending_message wid topic))
                                         (suspendForRecv e ws topic) (time_of_ms deadlineMs) st2 of
                                    None \<Rightarrow> None
                                  | Some (Suspended s, st3) \<Rightarrow> Some (Suspended s, st3)
                                  | Some (Returned (_, Some err), st3) \<Rightarrow> fail err st3
                                  | Some (Returned (timeoutOccurred, None), st3) \<Rightarrow> consume timeoutOccurred st3)))))"

text \<open>The two step ids of a receive.\<close>

definition two_step_ids :: "'w workflowState \<Rightarrow> int \<times> int \<times> 'w workflowState" where
  "two_step_ids ws = (case nextStepID ws of (s, ws1) \<Rightarrow> case nextStepID ws1 of (sleep, ws2) \<Rightarrow> (s, sleep, ws2))"

definition dbosContext_Recv ::
  "('v, 'w) op_env \<Rightarrow> 'w workflowState option \<Rightarrow> string \<Rightarrow> duration \<Rightarrow> 'w state \<Rightarrow>
   ((recvResult option \<times> go_error option) control \<times> 'w workflowState option \<times> 'w state) option" where
  "dbosContext_Recv e wfState topic timeout st =
     (case wfState of
        None \<Rightarrow> Some (Returned (None, Some (NewStepExecutionError [] ''DBOS.recv''
          (ErrorText ''workflow state not found in context: are you running this step within a workflow?''))), wfState, st)
      | Some ws \<Rightarrow>
          if isWithinStep ws then
            Some (Returned (None, Some (NewStepExecutionError (workflowID ws) ''DBOS.recv'' (ErrorText ''cannot call Recv within a step''))), wfState, st)
          else case two_step_ids ws of (sid, sleepID, ws') \<Rightarrow>
            map_option (\<lambda>(r, st'). (r, Some ws', st'))
              (recvWithGate e ws' (if topic = [] then NullTopic else topic) timeout sid sleepID None st))"

text \<open>The typed conversion of \<^verbatim>\<open>Recv\<close>, \<^verbatim>\<open>GateRecv\<close> and \<^verbatim>\<open>GetEvent\<close>; \<open>what\<close> names the value in the error. The context is a real one.\<close>

definition convertRecvResult ::
  "('v, 'w) op_env \<Rightarrow> 'v go_type \<Rightarrow> string \<Rightarrow> recvResult option \<Rightarrow> 'v \<times> go_error option" where
  "convertRecvResult e t what msg =
     (case msg of
        None \<Rightarrow> (ZeroValue t, None)
      | Some result \<Rightarrow>
          (case rv_message result of
             None \<Rightarrow> (ZeroValue t, None)
           | Some m \<Rightarrow>
               (case resolveDecoder t (rv_serialization result) (c_serializer (o_ctx e)) of
                  Inl err \<Rightarrow> (ZeroValue t, Some err)
                | Inr decoder \<Rightarrow>
                    (case Decode decoder (Some m) of
                       Inl err \<Rightarrow> (ZeroValue t, Some (Errorf (''decoding '' @ what @ '' to type '' @ c_typeName (o_ctx e) (ZeroValue t) @ '': '') err))
                     | Inr v \<Rightarrow> (v, None)))))"

definition Recv ::
  "('v, 'w) op_env \<Rightarrow> 'v go_type \<Rightarrow> 'w workflowState option \<Rightarrow> string \<Rightarrow> duration \<Rightarrow> 'w state \<Rightarrow>
   (('v \<times> go_error option) control \<times> 'w workflowState option \<times> 'w state) option" where
  "Recv e t wfState topic timeout st =
     map_option (\<lambda>(r, rest). (case r of
         Suspended s \<Rightarrow> Suspended s
       | Returned (_, Some err) \<Rightarrow> Returned (ZeroValue t, Some err)
       | Returned (msg, None) \<Rightarrow> Returned (convertRecvResult e t ''received message'' msg), rest))
       (dbosContext_Recv e wfState topic timeout st)"

section \<open>Gates\<close>

record GateRecvInput =
  gr_Gate :: string
  gr_Org :: string
  gr_Audience :: "GatePrincipal list"
  gr_Timeout :: duration
  gr_Expires :: gotime

definition gate_spec :: "GateRecvInput \<Rightarrow> GateSpec" where
  "gate_spec inp = \<lparr>gs_Name = gr_Gate inp, gs_Org = gr_Org inp, gs_Audience = gr_Audience inp, gs_ExpiresAt = gr_Expires inp\<rparr>"

definition dbosContext_GateRecv ::
  "('v, 'w) op_env \<Rightarrow> 'w workflowState option \<Rightarrow> GateRecvInput \<Rightarrow> 'w state \<Rightarrow>
   ((recvResult option \<times> string \<times> go_error option) control \<times> 'w workflowState option \<times> 'w state) option" where
  "dbosContext_GateRecv e wfState inp st =
     (let fail = (\<lambda>err. Some (Returned (None, [], Some err), wfState, st)) in
      case wfState of
        None \<Rightarrow> fail (NewStepExecutionError [] ''DBOS.recv''
          (ErrorText ''workflow state not found in context: are you running this step within a workflow?''))
      | Some ws \<Rightarrow>
          if isWithinStep ws then
            fail (NewStepExecutionError (workflowID ws) ''DBOS.recv'' (ErrorText ''cannot call GateRecv within a step''))
          else if gr_Gate inp = [] then fail (ErrorText ''gate name cannot be empty'')
          else case two_step_ids ws of (sid, sleepID, ws') \<Rightarrow>
            map_option (\<lambda>(r, st'). (case r of
                Suspended s \<Rightarrow> Suspended s
              | Returned (result, Some err) \<Rightarrow> Returned (result, [], Some err)
              | Returned (None, None) \<Rightarrow> Returned (None, [], None)
              | Returned (Some rr, None) \<Rightarrow> Returned (Some rr, rv_deliveryID rr, None), Some ws', st'))
              (recvWithGate e ws' (GateTopic (gr_Gate inp)) (gr_Timeout inp) sid sleepID (Some (gate_spec inp)) st))"

definition GateRecv ::
  "('v, 'w) op_env \<Rightarrow> 'v go_type \<Rightarrow> 'w workflowState option \<Rightarrow> GateRecvInput \<Rightarrow> 'w state \<Rightarrow>
   (('v \<times> string \<times> go_error option) control \<times> 'w workflowState option \<times> 'w state) option" where
  "GateRecv e t wfState inp st =
     map_option (\<lambda>(r, rest). (case r of
         Suspended s \<Rightarrow> Suspended s
       | Returned (_, deliveryID, Some err) \<Rightarrow> Returned (ZeroValue t, deliveryID, Some err)
       | Returned (msg, deliveryID, None) \<Rightarrow>
           (case convertRecvResult e t ''received message'' msg of (v, err) \<Rightarrow> Returned (v, deliveryID, err)), rest))
       (dbosContext_GateRecv e wfState inp st)"

definition dbosContext_DeliverToGate ::
  "('v, 'w) op_env \<Rightarrow> delivery_env \<Rightarrow> 'w workflowState option \<Rightarrow> 'v DeliverInput \<Rightarrow> sysdb \<Rightarrow> ((GateOutcome \<times> string) \<times> sysdb) res" where
  "dbosContext_DeliverToGate e de wfState inp db =
     (if di_WorkflowID inp = [] \<or> di_Gate inp = [] \<or> di_Subject inp = []
      then Inl (ErrorText ''workflow ID, gate and subject are required'')
      else case Encode (ctx_encoder e wfState) (di_Payload inp) of
             Inl err \<Rightarrow> Inl (Errorf ''failed to serialize payload: '' err)
           | Inr encoded \<Rightarrow> DeliverToGate de inp encoded (Name (ctx_encoder e wfState)) db)"

definition dbosContext_IgnoreDelivery :: "string \<Rightarrow> sysdb \<Rightarrow> sysdb" where
  "dbosContext_IgnoreDelivery deliveryID db = (if deliveryID = [] then db else IgnoreDelivery deliveryID db)"

definition dbosContext_AddReadAudience :: "string \<Rightarrow> string \<Rightarrow> GatePrincipal list \<Rightarrow> sysdb \<Rightarrow> (unit \<times> sysdb) res" where
  "dbosContext_AddReadAudience wid org principals db =
     (if wid = [] then Inl (ErrorText ''workflow ID is required'') else AddReadAudience wid org principals db)"

section \<open>Sending a message\<close>

text \<open>\<open>so_tx\<close> is \<open>None\<close> without a transaction of the caller and otherwise what \<^verbatim>\<open>resolveUserTx\<close> says of it.\<close>

record sendOptions =
  so_usePortableSerializer :: bool
  so_idempotencyKey :: string
  so_tx :: "unit res option"

type_synonym SendOption = "sendOptions \<Rightarrow> sendOptions"

definition WithPortableSend :: SendOption where
  "WithPortableSend opts = opts\<lparr>so_usePortableSerializer := True\<rparr>"

definition WithIdempotencyKey :: "string \<Rightarrow> SendOption" where
  "WithIdempotencyKey key opts = opts\<lparr>so_idempotencyKey := key\<rparr>"

definition WithSendTransaction :: "unit res \<Rightarrow> SendOption" where
  "WithSendTransaction tx opts = opts\<lparr>so_tx := Some tx\<rparr>"

definition dbosContext_Send ::
  "('v, 'w) op_env \<Rightarrow> 'w workflowState option \<Rightarrow> string \<Rightarrow> 'v \<Rightarrow> string \<Rightarrow> SendOption list \<Rightarrow> 'w state \<Rightarrow>
   (go_error option \<times> 'w workflowState option \<times> 'w state) option" where
  "dbosContext_Send e wfState dest message topic opts st =
     (let fail = (\<lambda>err. Some (Some err, wfState, st));
          options = fold (\<lambda>opt. opt) opts \<lparr>so_usePortableSerializer = False, so_idempotencyKey = [], so_tx = None\<rparr>;
          sendSer = chosen_encoder e (so_usePortableSerializer options) wfState
      in if (case wfState of None \<Rightarrow> False | Some ws \<Rightarrow> isWithinStep ws)
         then fail (NewStepExecutionError (workflowID (the wfState)) ''DBOS.send'' (ErrorText ''cannot call Send within a step''))
         else if so_tx options \<noteq> None \<and> wfState \<noteq> None
         then fail (NewInvalidOptionError ''WithSendTransaction cannot be used within a workflow'')
         else case so_tx options of
           Some (Inl err) \<Rightarrow> fail err
         | _ \<Rightarrow>
             (case Encode sendSer message of
                Inl err \<Rightarrow> fail (Errorf ''failed to serialize message: '' err)
              | Inr encoded \<Rightarrow>
                  let input = \<lparr>si_DestinationID = dest, si_Message = Some encoded, si_Topic = topic, si_Serialization = Name sendSer,
                        si_IdempotencyKey = so_idempotencyKey options, si_MessageUUID = None\<rparr>;
                      op = (\<lambda>s. Send (o_now e s) (o_now e s) (o_uuid e s) input);
                      nil = ZeroValue (c_any (o_ctx e))
                  in if wfState \<noteq> None
                     then map_option (\<lambda>((_, err), rest). (err, rest))
                       (runAsTxn (o_ctx e) (o_retryable e) (c_any (o_ctx e)) [] wfState (Some (stmt_body nil nil op)) [WithStepName ''DBOS.send''] st)
                     else case run_statement op st of (err, st') \<Rightarrow> Some (err, wfState, st')))"

section \<open>Events\<close>

text \<open>
  \<^verbatim>\<open>SetEvent\<close> and \<^verbatim>\<open>WriteStream\<close>: a call within a step executes the statement directly, any other call as a transactional step. The
  signal to the waiters of this process is in \<open>Notifier\<close>.
\<close>

definition step_or_direct ::
  "('v, 'w) op_env \<Rightarrow> string \<Rightarrow> 'v \<Rightarrow> (string \<Rightarrow> int \<Rightarrow> 'w state \<Rightarrow> sysdb \<Rightarrow> (unit \<times> sysdb) res) \<Rightarrow> 'w workflowState option \<Rightarrow> 'w state \<Rightarrow>
   (go_error option \<times> 'w workflowState option \<times> 'w state) option" where
  "step_or_direct e name ok op wfState st =
     (case wfState of
        Some ws \<Rightarrow>
          if isWithinStep ws
          then (case run_statement (op (workflowID ws) (stepID ws)) st of (err, st') \<Rightarrow> Some (err, wfState, st'))
          else map_option (\<lambda>((_, err), rest). (err, rest))
            (runAsTxn (o_ctx e) (o_retryable e) (c_any (o_ctx e)) [] wfState
              (Some (stmt_body ok ok (op (workflowID ws) (stepID ws + 1)))) [WithStepName name] st)
      | None \<Rightarrow> map_option (\<lambda>((_, err), rest). (err, rest))
            (runAsTxn (o_ctx e) (o_retryable e) (c_any (o_ctx e)) [] None
              (Some (stmt_body ok ok (op [] 0))) [WithStepName name] st))"

definition dbosContext_SetEvent ::
  "('v, 'w) op_env \<Rightarrow> 'w workflowState option \<Rightarrow> string \<Rightarrow> 'v \<Rightarrow> bool \<Rightarrow> 'w state \<Rightarrow>
   (go_error option \<times> 'w workflowState option \<times> 'w state) option" where
  "dbosContext_SetEvent e wfState key message usePortable st =
     (let evtSer = chosen_encoder e usePortable wfState in
      case Encode evtSer message of
        Inl err \<Rightarrow> Some (Some (Errorf ''failed to serialize event value: '' err), wfState, st)
      | Inr encoded \<Rightarrow>
          step_or_direct e ''DBOS.setEvent'' (ZeroValue (c_any (o_ctx e)))
            (\<lambda>wid sid s. SetEvent (o_now e s) \<lparr>se_Key = key, se_Message = Some encoded, se_Serialization = Name evtSer,
               se_WorkflowID = wid, se_StepID = sid\<rparr>) wfState st)"

text \<open>The result of an event read has the shape of a receive's, without delivery.\<close>

definition event_result :: "('v, 'w) op_env \<Rightarrow> 'w workflowState option \<Rightarrow> string option \<times> string option \<Rightarrow> string option \<times> string" where
  "event_result e wfState = (\<lambda>(value, evtSerialization). (value, serialization_or (Name (ctx_encoder e wfState)) evtSerialization))"

definition event_timeout ::
  "('v, 'w) op_env \<Rightarrow> string \<Rightarrow> string \<Rightarrow> duration \<Rightarrow> bool \<Rightarrow> string option \<Rightarrow> go_error option" where
  "event_timeout e wid key timeout timeoutOccurred value =
     (if value = None \<and> timeoutOccurred
      then Some (NewTimeoutError wid ''DBOS.getEvent''
        (''no event found for key '' @ quoted key @ '' within '' @ o_duration e timeout) (Some DeadlineExceeded))
      else None)"

definition event_body ::
  "('v, 'w) op_env \<Rightarrow> 'w workflowState \<Rightarrow> string \<Rightarrow> string \<Rightarrow> duration \<Rightarrow> bool \<Rightarrow> ('v, 'w) body" where
  "event_body e ws target key timeout timeoutOccurred st =
     (let r = event_result e (Some ws) (GetEventValue target key (fst st))
      in ((o_raw e r, event_timeout e (workflowID ws) key timeout timeoutOccurred (fst r)), st))"

definition event_txn ::
  "('v, 'w) op_env \<Rightarrow> 'w workflowState \<Rightarrow> string \<Rightarrow> string \<Rightarrow> duration \<Rightarrow> int \<Rightarrow> bool \<Rightarrow> 'w state \<Rightarrow>
   ((recvResult option \<times> go_error option) \<times> 'w state) option" where
  "event_txn e ws target key timeout sid timeoutOccurred st =
     map_option (\<lambda>(r, _, st'). (recv_outcome e (workflowID ws) [] r, st'))
       (dbosContext_runAsTxn (o_ctx e) (o_retryable e) (Some ws) (Some (event_body e ws target key timeout timeoutOccurred))
          [WithStepName ''DBOS.getEvent'', withNextStepID sid] st)"

text \<open>\<^verbatim>\<open>GetEvent\<close> outside of a workflow: it waits in process and records nothing.\<close>

definition event_outside ::
  "('v, 'w) op_env \<Rightarrow> string \<Rightarrow> string \<Rightarrow> duration \<Rightarrow> 'w state \<Rightarrow>
   ((recvResult option \<times> go_error option) control \<times> 'w state) option" where
  "event_outside e target key timeout st =
     (let fail = (\<lambda>err s. Some (Returned (None, Some err), s));
          read = (\<lambda>timeoutOccurred s.
            case event_result e None (GetEventValue target key (fst s)) of (value, serialization) \<Rightarrow>
              (case event_timeout e [] key timeout timeoutOccurred value of
                 Some err \<Rightarrow> fail err s
               | None \<Rightarrow> Some (Returned (Some \<lparr>rv_message = value, rv_serialization = serialization, rv_deliveryID = []\<rparr>, None), s)))
      in case StartEventListener e target key st of
           Inl err \<Rightarrow> fail err st
         | Inr pending \<Rightarrow>
             if pending then read False st
             else (case notificationWait e (HasWorkflowEvent target key) (o_now e st + timeout) st of
                     None \<Rightarrow> None
                   | Some ((_, Some err), st1) \<Rightarrow> fail err st1
                   | Some ((timeoutOccurred, None), st1) \<Rightarrow> read timeoutOccurred st1))"

definition event_inside ::
  "('v, 'w) op_env \<Rightarrow> 'w workflowState \<Rightarrow> string \<Rightarrow> string \<Rightarrow> duration \<Rightarrow> int \<Rightarrow> int \<Rightarrow> 'w state \<Rightarrow>
   ((recvResult option \<times> go_error option) control \<times> 'w state) option" where
  "event_inside e ws target key timeout sid sleepID st =
     (let fail = (\<lambda>err s. Some (Returned (None, Some err), s));
          read = (\<lambda>timeoutOccurred s. map_option (\<lambda>(r, s'). (Returned r, s')) (event_txn e ws target key timeout sid timeoutOccurred s))
      in case CheckOperationExecution (workflowID ws) sid ''DBOS.getEvent'' (fst st) of
           Inl err \<Rightarrow> fail err st
         | Inr (Some recorded) \<Rightarrow>
             Some (Returned (Some \<lparr>rv_message = rr_Output recorded, rv_serialization = rr_Serialization recorded, rv_deliveryID = []\<rparr>,
                     deserializeWorkflowError (c_codecs (o_ctx e)) (rr_ErrStr recorded)), st)
         | Inr None \<Rightarrow>
             (case StartEventListener e target key st of
                Inl err \<Rightarrow> fail err st
              | Inr pending \<Rightarrow>
                  if pending then read False st
                  else (case deadline_step e ws (\<lambda>s. o_now e s + timeout) [withNextStepID sleepID] st of
                          None \<Rightarrow> None
                        | Some ((_, Some err), _, st1) \<Rightarrow> fail err st1
                        | Some ((deadlineMs, None), _, st1) \<Rightarrow>
                            (case wait_or_suspend e (notificationWait e (HasWorkflowEvent target key))
                                    (suspendForEvent e ws target key) (time_of_ms deadlineMs) st1 of
                               None \<Rightarrow> None
                             | Some (Suspended s, st2) \<Rightarrow> Some (Suspended s, st2)
                             | Some (Returned (_, Some err), st2) \<Rightarrow> fail err st2
                             | Some (Returned (timeoutOccurred, None), st2) \<Rightarrow> read timeoutOccurred st2))))"

definition dbosContext_GetEvent ::
  "('v, 'w) op_env \<Rightarrow> 'w workflowState option \<Rightarrow> string \<Rightarrow> string \<Rightarrow> duration \<Rightarrow> 'w state \<Rightarrow>
   ((recvResult option \<times> go_error option) control \<times> 'w workflowState option \<times> 'w state) option" where
  "dbosContext_GetEvent e wfState target key timeout st =
     (case wfState of
        None \<Rightarrow> map_option (\<lambda>(r, st'). (r, wfState, st')) (event_outside e target key timeout st)
      | Some ws \<Rightarrow>
          if isWithinStep ws then
            Some (Returned (None, Some (NewStepExecutionError (workflowID ws) ''DBOS.getEvent'' (ErrorText ''cannot call GetEvent within a step''))), wfState, st)
          else case two_step_ids ws of (sid, sleepID, ws') \<Rightarrow>
            map_option (\<lambda>(r, st'). (r, Some ws', st')) (event_inside e ws' target key timeout sid sleepID st))"

definition GetEvent ::
  "('v, 'w) op_env \<Rightarrow> 'v go_type \<Rightarrow> 'w workflowState option \<Rightarrow> string \<Rightarrow> string \<Rightarrow> duration \<Rightarrow> 'w state \<Rightarrow>
   (('v \<times> go_error option) control \<times> 'w workflowState option \<times> 'w state) option" where
  "GetEvent e t wfState target key timeout st =
     map_option (\<lambda>(r, rest). (case r of
         Suspended s \<Rightarrow> Suspended s
       | Returned (_, Some err) \<Rightarrow> Returned (ZeroValue t, Some err)
       | Returned (value, None) \<Rightarrow> Returned (convertRecvResult e t ''event value'' value), rest))
       (dbosContext_GetEvent e wfState target key timeout st)"

section \<open>Streams\<close>

definition dbosContext_WriteStream ::
  "('v, 'w) op_env \<Rightarrow> 'w workflowState option \<Rightarrow> string \<Rightarrow> 'v \<Rightarrow> bool \<Rightarrow> 'w state \<Rightarrow>
   (go_error option \<times> 'w workflowState option \<times> 'w state) option" where
  "dbosContext_WriteStream e wfState key v usePortable st =
     (let ser = chosen_encoder e usePortable wfState in
      case Encode ser v of
        Inl err \<Rightarrow> Some (Some (Errorf ''failed to serialize stream value: '' err), wfState, st)
      | Inr encoded \<Rightarrow>
          step_or_direct e ''DBOS.writeStream'' (o_string e [])
            (\<lambda>wid sid s. WriteStream \<lparr>wi_Key = key, wi_Value = encoded, wi_Serialization = Name ser,
               wi_WorkflowID = wid, wi_StepID = sid\<rparr>) wfState st)"

definition dbosContext_CloseStream ::
  "('v, 'w) op_env \<Rightarrow> 'w workflowState option \<Rightarrow> string \<Rightarrow> 'w state \<Rightarrow>
   (go_error option \<times> 'w workflowState option \<times> 'w state) option" where
  "dbosContext_CloseStream e wfState key st =
     map_option (\<lambda>((_, err), rest). (err, rest))
       (runAsTxn (o_ctx e) (o_retryable e) (c_any (o_ctx e)) [] wfState
         (Some (stmt_body (o_string e []) (o_string e [])
           (\<lambda>s. WriteStream \<lparr>wi_Key = key, wi_Value = Some StreamClosedSentinel, wi_Serialization = [],
              wi_WorkflowID = (case wfState of None \<Rightarrow> [] | Some ws \<Rightarrow> workflowID ws),
              wi_StepID = (case wfState of None \<Rightarrow> 0 | Some ws \<Rightarrow> stepID ws + 1)\<rparr>))) [WithStepName ''DBOS.closeStream''] st)"

text \<open>
  The reader's loop. It appends to \<open>sent\<close> what goes through the channel to a consumer that takes everything; \<open>next\<close> is what happens
  elsewhere from one read to the next, which ends the reader with an error when its context is done while it waits.
\<close>

datatype stream_item = Entry string string | StreamErr go_error | StreamClosed

definition entry_item :: "StreamEntry \<Rightarrow> stream_item" where
  "entry_item en = Entry (en_Value en) (en_Serialization en)"

definition stream_status :: "SysDB \<Rightarrow> string \<Rightarrow> sysdb \<Rightarrow> WorkflowStatusType res" where
  "stream_status s wid db =
     (case ListWorkflows s (zero_ListWorkflowsDBInput\<lparr>l_WorkflowIDs := [wid]\<rparr>) db of
        Inl err \<Rightarrow> Inl err
      | Inr [] \<Rightarrow> Inl (NewNonExistentWorkflowError wid)
      | Inr (w # _) \<Rightarrow> Inr (W_Status w))"

record stream_env =
  se_systemDB :: SysDB
  se_between :: "nat \<Rightarrow> sysdb \<Rightarrow> sysdb"
  se_done :: "nat \<Rightarrow> go_error option"

text \<open>
  \<open>k\<close> counts the moments at which the loop lets others run: between the read and the status query, and before the next read.
\<close>

partial_function (option) readStream_loop ::
  "stream_env \<Rightarrow> string \<Rightarrow> string \<Rightarrow> bool \<Rightarrow> nat \<Rightarrow> int \<Rightarrow> bool \<Rightarrow> stream_item list \<Rightarrow> sysdb \<Rightarrow> (stream_item list \<times> sysdb) option" where
  "readStream_loop se wid key snapshot k currentOffset finalRead sent db =
     (case ReadStream wid key currentOffset db of (entries, isClosed) \<Rightarrow>
        let sent1 = sent @ map entry_item entries;
            offset1 = (if entries = [] then currentOffset else en_Offset (last entries) + 1);
            db1 = se_between se k db
        in if isClosed then Some (sent1 @ [StreamClosed], db)
           else if snapshot then Some (sent1, db)
           else if finalRead then Some (sent1 @ [StreamClosed], db)
           else if entries \<noteq> [] then readStream_loop se wid key snapshot (k + 1) offset1 False sent1 db1
           else
             (case stream_status (se_systemDB se) wid db1 of
                Inl err \<Rightarrow> Some (sent1 @ [StreamErr err], db1)
              | Inr status \<Rightarrow>
                  if status \<noteq> WorkflowStatusPending \<and> status \<noteq> WorkflowStatusEnqueued
                  then readStream_loop se wid key snapshot (k + 2) offset1 True sent1 (se_between se (k + 1) db1)
                  else
                    (case se_done se k of
                       Some err \<Rightarrow> Some (sent1 @ [StreamErr err], db1)
                     | None \<Rightarrow> readStream_loop se wid key snapshot (k + 2) offset1 False sent1 (se_between se (k + 1) db1))))"

definition readStream :: "stream_env \<Rightarrow> string \<Rightarrow> string \<Rightarrow> bool \<Rightarrow> int \<Rightarrow> sysdb \<Rightarrow> (stream_item list \<times> sysdb) option" where
  "readStream se wid key snapshot fromOffset db = readStream_loop se wid key snapshot 0 fromOffset False [] db"

record readStreamOptions =
  rs_snapshot :: bool
  rs_fromOffset :: int

definition WithReadStreamSnapshot :: "readStreamOptions \<Rightarrow> readStreamOptions" where
  "WithReadStreamSnapshot o' = o'\<lparr>rs_snapshot := True\<rparr>"

definition WithReadStreamFromOffset :: "int \<Rightarrow> readStreamOptions \<Rightarrow> readStreamOptions" where
  "WithReadStreamFromOffset offset o' = o'\<lparr>rs_fromOffset := offset\<rparr>"

fun collect_stream :: "stream_item list \<Rightarrow> (string \<times> string) list \<Rightarrow> ((string \<times> string) list \<times> bool) res" where
  "collect_stream [] acc = Inr (acc, False)"
| "collect_stream (StreamErr err # _) acc = Inl err"
| "collect_stream (StreamClosed # _) acc = Inr (acc, True)"
| "collect_stream (Entry v ser # rest) acc = collect_stream rest (acc @ [(v, ser)])"

definition dbosContext_ReadStream ::
  "stream_env \<Rightarrow> string \<Rightarrow> string \<Rightarrow> (readStreamOptions \<Rightarrow> readStreamOptions) list \<Rightarrow> sysdb \<Rightarrow>
   (((string \<times> string) list \<times> bool) res \<times> sysdb) option" where
  "dbosContext_ReadStream se wid key opts db =
     (let o' = fold (\<lambda>opt. opt) opts \<lparr>rs_snapshot = False, rs_fromOffset = 0\<rparr> in
      map_option (\<lambda>(sent, db'). (collect_stream sent [], db')) (readStream se wid key (rs_snapshot o') (rs_fromOffset o') db))"

fun decode_all :: "('v, 'w) dbosContext \<Rightarrow> 'v go_type \<Rightarrow> (string \<times> string) list \<Rightarrow> 'v list res" where
  "decode_all c t [] = Inr []"
| "decode_all c t ((v, ser) # rest) =
     (case resolveDecoder t ser (c_serializer c) of
        Inl err \<Rightarrow> Inl err
      | Inr decoder \<Rightarrow>
          (case Decode decoder (Some v) of
             Inl err \<Rightarrow> Inl (Errorf (''decoding stream value to type '' @ c_typeName c (ZeroValue t) @ '': '') err)
           | Inr x \<Rightarrow> (case decode_all c t rest of Inl err \<Rightarrow> Inl err | Inr xs \<Rightarrow> Inr (x # xs))))"

definition typed_ReadStream ::
  "('v, 'w) dbosContext \<Rightarrow> 'v go_type \<Rightarrow> stream_env \<Rightarrow> string \<Rightarrow> string \<Rightarrow> (readStreamOptions \<Rightarrow> readStreamOptions) list \<Rightarrow> sysdb \<Rightarrow>
   (('v list \<times> bool) res \<times> sysdb) option" where
  "typed_ReadStream c t se wid key opts db =
     map_option (\<lambda>(r, db'). (case r of
         Inl err \<Rightarrow> Inl err
       | Inr (vs, isClosed) \<Rightarrow> map_sum id (\<lambda>xs. (xs, isClosed)) (decode_all c t vs), db'))
       (dbosContext_ReadStream se wid key opts db)"

section \<open>Sleeping\<close>

definition Sleep ::
  "('v, 'w) op_env \<Rightarrow> 'w workflowState option \<Rightarrow> duration \<Rightarrow> 'w state \<Rightarrow>
   ((duration \<times> go_error option) control \<times> 'w workflowState option \<times> 'w state) option" where
  "Sleep e wfState duration st =
     (let fail = (\<lambda>err ws s. Some (Returned (0, Some err), ws, s)) in
      case wfState of
        None \<Rightarrow> fail (NewStepExecutionError [] ''DBOS.sleep''
          (ErrorText ''workflow state not found in context: are you running this step within a workflow?'')) wfState st
      | Some ws \<Rightarrow>
          if isWithinStep ws then
            fail (NewStepExecutionError (workflowID ws) ''DBOS.sleep'' (ErrorText ''cannot call Sleep within a step'')) wfState st
          else
            let deadline = o_now e st + duration in
            (case deadline_step e ws (\<lambda>_. deadline) [withCompletedAt deadline] st of
               None \<Rightarrow> None
             | Some ((_, Some err), ws1, st1) \<Rightarrow> fail err ws1 st1
             | Some ((deadlineMs, None), ws1, st1) \<Rightarrow>
                 let remaining = max 0 (time_of_ms deadlineMs - o_now e st1);
                     inProcess = (\<lambda>s. case c_wait (o_ctx e) remaining s of
                       (True, s') \<Rightarrow> Some (Returned (remaining, None), ws1, s')
                     | (False, s') \<Rightarrow> Some (Returned (o_now e s' - o_now e s, c_Err (o_ctx e) s'), ws1, s'))
                 in if 0 < o_threshold e \<and> o_threshold e < remaining then
                      let delayUntil = o_now e st1 + remaining in
                      (case SuspendWorkflowForSleep (o_now e st1) (workflowID ws) delayUntil (fst st1) of
                         Inl err \<Rightarrow> fail (NewStepExecutionError (workflowID ws) ''DBOS.sleep''
                           (Errorf ''suspending workflow for durable sleep: '' err)) ws1 st1
                       | Inr (suspended, db2) \<Rightarrow>
                           if suspended then Some (Suspended \<lparr>su_workflowID = workflowID ws, su_delayUntil = delayUntil,
                             su_awaitedWorkflowID = []\<rparr>, ws1, (db2, snd st1))
                           else inProcess (db2, snd st1))
                    else inProcess st1))"

section \<open>Patches\<close>

definition patchPrefix :: string where
  "patchPrefix = ''DBOS.patch-''"

definition patch_guard ::
  "('v, 'w) op_env \<Rightarrow> string \<Rightarrow> string \<Rightarrow> 'w workflowState option \<Rightarrow> string \<Rightarrow> 'w workflowState res" where
  "patch_guard e what verb wfState patchName =
     (if \<not> o_EnablePatching e then Inl NewPatchingNotEnabledError
      else if patchName = [] then Inl (ErrorText ''patch name cannot be empty'')
      else case wfState of
        None \<Rightarrow> Inl (ErrorText (what @ '' can only be called within a workflow''))
      | Some ws \<Rightarrow>
          if isWithinStep ws
          then Inl (NewStepExecutionError (workflowID ws) patchName (ErrorText (''cannot call '' @ verb @ '' within a step'')))
          else Inr ws)"

definition dbosContext_Patch ::
  "('v, 'w) op_env \<Rightarrow> 'w workflowState option \<Rightarrow> string \<Rightarrow> sysdb \<Rightarrow> (bool \<times> go_error option) \<times> 'w workflowState option \<times> sysdb" where
  "dbosContext_Patch e wfState patchName db =
     (case patch_guard e ''patch'' ''Patch'' wfState patchName of
        Inl err \<Rightarrow> ((False, Some err), wfState, db)
      | Inr ws \<Rightarrow>
          (case Patch (workflowID ws) (stepID ws + 1) (patchPrefix @ patchName) db of
             Inl err \<Rightarrow> ((False, Some err), wfState, db)
           | Inr (patched, db') \<Rightarrow>
               ((patched, None), Some (if patched then snd (nextStepID ws) else ws), db')))"

definition DeprecatePatch ::
  "('v, 'w) op_env \<Rightarrow> 'w workflowState option \<Rightarrow> string \<Rightarrow> sysdb \<Rightarrow> go_error option \<times> 'w workflowState option" where
  "DeprecatePatch e wfState patchName db =
     (case patch_guard e ''deprecate patch'' ''DeprecatePatch'' wfState patchName of
        Inl err \<Rightarrow> (Some err, wfState)
      | Inr ws \<Rightarrow>
          (case DoesPatchExists (workflowID ws) (stepID ws + 1) db of
             None \<Rightarrow> (None, wfState)
           | Some patchNameFromDB \<Rightarrow>
               (None, Some (if patchNameFromDB = patchPrefix @ patchName then snd (nextStepID ws) else ws))))"

section \<open>The current workflow and step\<close>

definition GetWorkflowID :: "'w workflowState option \<Rightarrow> string res" where
  "GetWorkflowID wfState = (case wfState of
     None \<Rightarrow> Inl (ErrorText ''not within a DBOS workflow context'') | Some ws \<Rightarrow> Inr (workflowID ws))"

definition GetStepID :: "'w workflowState option \<Rightarrow> int \<times> go_error option" where
  "GetStepID wfState = (case wfState of
     None \<Rightarrow> (- 1, Some (ErrorText ''not within a DBOS workflow context'')) | Some ws \<Rightarrow> (stepID ws, None))"

section \<open>A reader sees the stream once and in order\<close>

definition stream_log :: "string \<Rightarrow> string \<Rightarrow> sysdb \<Rightarrow> stream_row list" where
  "stream_log wid key db = order_by st_offset (stream_rows wid key db)"

abbreviation is_value :: "stream_row \<Rightarrow> bool" where
  "is_value r \<equiv> st_value r \<noteq> StreamClosedSentinel"

definition stream_values :: "string \<Rightarrow> string \<Rightarrow> sysdb \<Rightarrow> stream_row list" where
  "stream_values wid key db = takeWhile is_value (stream_log wid key db)"

definition stream_ok :: "string \<Rightarrow> string \<Rightarrow> sysdb \<Rightarrow> bool" where
  "stream_ok wid key db = (map st_offset (stream_log wid key db) = map int [0..<length (stream_log wid key db)])"

lemma filter_offsets:
  assumes "map st_offset rows = map int [0..<length rows]"
  shows "filter (\<lambda>r. off \<le> st_offset r) rows = drop (nat off) rows"
  using assms
proof (induction rows rule: rev_induct)
  case (snoc r rows)
  then have "st_offset r = int (length rows)" "map st_offset rows = map int [0..<length rows]" by simp_all
  then show ?case using snoc.IH by (auto simp: nat_le_iff)
qed simp

lemma takeWhile_dropWhile_Nil [simp]: "takeWhile P (dropWhile P xs) = []"
  by (induction xs) simp_all

lemma prefix_takeWhile: "prefix xs ys \<Longrightarrow> prefix (takeWhile P xs) (takeWhile P ys)"
  by (induction xs ys rule: list_induct2') simp_all

lemma ReadStream_at:
  assumes "stream_ok wid key db" and "nat off \<le> length (stream_values wid key db)"
  shows "ReadStream wid key off db = (map (stream_entry []) (drop (nat off) (stream_values wid key db)),
    \<exists>r \<in> set (stream_log wid key db). \<not> is_value r)"
proof -
  let ?log = "stream_log wid key db" and ?vs = "stream_values wid key db"
  have rows: "order_by st_offset (filter (\<lambda>r. off \<le> st_offset r) (stream_rows wid key db)) = drop (nat off) ?log"
    unfolding order_by_filter stream_log_def [symmetric] by (rule filter_offsets) (use assms(1) in \<open>simp add: stream_ok_def\<close>)
  have log: "?log = ?vs @ dropWhile is_value ?log" by (simp add: stream_values_def)
  have vs: "\<forall>r \<in> set ?vs. is_value r" by (auto simp: stream_values_def dest: set_takeWhileD)
  have d: "drop (nat off) ?log = drop (nat off) ?vs @ dropWhile is_value ?log" by (subst log) (simp add: assms(2))
  have "takeWhile is_value (drop (nat off) ?log) = drop (nat off) ?vs @ takeWhile is_value (dropWhile is_value ?log)"
    unfolding d using vs by (subst takeWhile_append2) (auto dest: in_set_dropD)
  moreover have "(\<exists>r \<in> set (drop (nat off) ?log). \<not> is_value r) = (\<exists>r \<in> set ?log. \<not> is_value r)"
    unfolding d by (subst (2) log) (use vs in \<open>auto dest: in_set_dropD\<close>)
  ultimately show ?thesis by (simp add: ReadStream_def read_entries_eq rows)
qed

text \<open>What others may do to a stream while it is read: append to it.\<close>

definition stream_grows :: "string \<Rightarrow> string \<Rightarrow> sysdb \<Rightarrow> sysdb \<Rightarrow> bool" where
  "stream_grows wid key db db' = (stream_ok wid key db' \<and> prefix (stream_log wid key db) (stream_log wid key db'))"

lemma stream_values_grow: "stream_grows wid key db db' \<Longrightarrow> prefix (stream_values wid key db) (stream_values wid key db')"
  by (auto simp: stream_grows_def stream_values_def prefix_takeWhile)

lemma take_prefix: "prefix xs ys \<Longrightarrow> n \<le> length xs \<Longrightarrow> take n ys = take n xs"
  by (auto simp: prefix_def)

definition delivered :: "string \<Rightarrow> string \<Rightarrow> nat \<Rightarrow> nat \<Rightarrow> sysdb \<Rightarrow> stream_item list" where
  "delivered wid key start n db = map (entry_item \<circ> stream_entry []) (drop start (take n (stream_values wid key db)))"

lemma delivered_grow:
  "stream_grows wid key db db' \<Longrightarrow> n \<le> length (stream_values wid key db) \<Longrightarrow> delivered wid key m n db' = delivered wid key m n db"
  by (simp add: delivered_def take_prefix [OF stream_values_grow])

lemma delivered_rest:
  assumes "m \<le> n" and "n \<le> length (stream_values wid key db)"
  shows "delivered wid key m n db @ map entry_item (map (stream_entry []) (drop n (stream_values wid key db))) =
    delivered wid key m (length (stream_values wid key db)) db"
proof -
  have "drop m (stream_values wid key db) = drop m (take n (stream_values wid key db)) @ drop n (stream_values wid key db)"
    using assms by (metis append_take_drop_id drop_append length_take min.absorb2 diff_is_0_eq drop0)
  then show ?thesis by (simp add: delivered_def)
qed

definition stream_result :: "string \<Rightarrow> string \<Rightarrow> nat \<Rightarrow> stream_item list \<times> sysdb \<Rightarrow> bool" where
  "stream_result wid key start = (\<lambda>(items, db').
     \<exists>n ending. start \<le> n \<and> n \<le> length (stream_values wid key db') \<and> items = delivered wid key start n db' @ ending \<and>
       (ending = [] \<or> ending = [StreamClosed] \<or> (\<exists>err. ending = [StreamErr err])) \<and>
       (ending = [StreamClosed] \<longrightarrow> n = length (stream_values wid key db')))"

lemma last_offset:
  assumes "stream_ok wid key db" and "n < length (stream_values wid key db)"
  shows "en_Offset (last (map (stream_entry []) (drop n (stream_values wid key db)))) + 1 = int (length (stream_values wid key db))"
proof -
  let ?vs = "stream_values wid key db" and ?log = "stream_log wid key db"
  let ?i = "length ?vs - 1"
  have le: "length ?vs \<le> length ?log" by (simp add: stream_values_def length_takeWhile_le)
  have i: "?i < length ?log" "?i < length ?vs" using assms(2) le by simp_all
  have "last (drop n ?vs) = ?vs ! ?i" using assms(2) by (simp add: last_drop last_conv_nth)
  moreover have "?vs ! ?i = ?log ! ?i" using i(2) unfolding stream_values_def by (rule takeWhile_nth)
  moreover have "map st_offset ?log ! ?i = map int [0..<length ?log] ! ?i" using assms(1) by (simp add: stream_ok_def)
  then have "st_offset (?log ! ?i) = int ?i" using i(1) by simp
  ultimately show ?thesis using assms(2) by (simp add: last_map stream_entry_def)
qed

lemma readStream_loop_result:
  assumes run: "readStream_loop se wid key snapshot k (int cur) finalRead sent db = Some res"
    and between: "\<And>k d. stream_ok wid key d \<Longrightarrow> stream_grows wid key d (se_between se k d)"
    and "stream_ok wid key db" and "start \<le> cur" and "cur \<le> length (stream_values wid key db)" and "sent = delivered wid key start cur db"
  shows "stream_result wid key start res"
proof -
  let ?Q = "\<lambda>(e :: stream_env) (w :: string) (ky :: string) (sn :: bool) (k :: nat) (off :: int) (fr :: bool) sent db res.
      e = se \<longrightarrow> w = wid \<longrightarrow> ky = key \<longrightarrow> sn = snapshot \<longrightarrow> (\<forall>cur. off = int cur \<longrightarrow> stream_ok wid key db \<longrightarrow> start \<le> cur \<longrightarrow>
        cur \<le> length (stream_values wid key db) \<longrightarrow> sent = delivered wid key start cur db \<longrightarrow> stream_result wid key start res)"
  have "?Q se wid key snapshot k (int cur) finalRead sent db res"
  proof (rule readStream_loop.raw_induct [where P = ?Q, OF _ run], intro impI allI)
    fix loop e w ky sn k off fr sent db res cur
    assume IH: "\<And>e w ky sn k off fr sent db res. loop e w ky sn k off fr sent db = Some res \<Longrightarrow> ?Q e w ky sn k off fr sent db res"
      and eqs: "e = se" "w = wid" "ky = key" "sn = snapshot" "off = int cur"
      and ok: "stream_ok wid key db" and cur: "start \<le> cur" "cur \<le> length (stream_values wid key db)" and sent: "sent = delivered wid key start cur db"
      and body: "(case ReadStream w ky off db of (entries, isClosed) \<Rightarrow>
        let sent1 = sent @ map entry_item entries;
            offset1 = (if entries = [] then off else en_Offset (last entries) + 1);
            db1 = se_between e k db
        in if isClosed then Some (sent1 @ [StreamClosed], db)
           else if sn then Some (sent1, db)
           else if fr then Some (sent1 @ [StreamClosed], db)
           else if entries \<noteq> [] then loop e w ky sn (k + 1) offset1 False sent1 db1
           else
             (case stream_status (se_systemDB e) w db1 of
                Inl err \<Rightarrow> Some (sent1 @ [StreamErr err], db1)
              | Inr status \<Rightarrow>
                  if status \<noteq> WorkflowStatusPending \<and> status \<noteq> WorkflowStatusEnqueued
                  then loop e w ky sn (k + 2) offset1 True sent1 (se_between e (k + 1) db1)
                  else
                    (case se_done e k of
                       Some err \<Rightarrow> Some (sent1 @ [StreamErr err], db1)
                     | None \<Rightarrow> loop e w ky sn (k + 2) offset1 False sent1 (se_between e (k + 1) db1)))) = Some res"
    let ?n = "length (stream_values wid key db)" and ?vs = "drop cur (stream_values wid key db)"
    let ?sent1 = "delivered wid key start ?n db" and ?off1 = "int ?n"
    let ?db1 = "se_between se k db"
    have rd: "ReadStream wid key (int cur) db = (map (stream_entry []) ?vs, \<exists>r \<in> set (stream_log wid key db). \<not> is_value r)"
      using ReadStream_at [OF ok, of "int cur"] cur(2) by simp
    have s1: "sent @ map entry_item (map (stream_entry []) ?vs) = ?sent1" unfolding sent by (rule delivered_rest [OF cur])
    have o1: "(if map (stream_entry []) ?vs = [] then int cur else en_Offset (last (map (stream_entry []) ?vs)) + 1) = ?off1"
      using last_offset [OF ok, of cur] cur(2) by auto
    have g1: "stream_grows wid key db ?db1" by (rule between [OF ok])
    have len: "?n \<le> length (stream_values wid key d)" if "stream_grows wid key db d" for d
      using prefix_length_le [OF stream_values_grow [OF that]] .
    have g2: "stream_grows wid key db (se_between se j ?db1)" for j
      using g1 between [of ?db1 j] by (auto simp: stream_grows_def)
    have here: "stream_result wid key start (?sent1 @ x, db)" if "x = [] \<or> x = [StreamClosed]" for x
      unfolding stream_result_def prod.case by (intro exI [of _ ?n] exI [of _ x]) (use cur that in auto)
    have err: "stream_result wid key start (?sent1 @ [StreamErr x], ?db1)" for x
      using len [OF g1] cur delivered_grow [OF g1, of ?n start] by (auto simp: stream_result_def intro!: exI [of _ ?n])
    have rec: "stream_result wid key start res" if "loop se wid key snapshot j ?off1 fr' ?sent1 d = Some res" "stream_grows wid key db d" for j fr' d
      using IH [OF that(1)] that(2) len [OF that(2)] cur delivered_grow [OF that(2), of ?n start] by (auto simp: stream_grows_def)
    show "stream_result wid key start res"
      using body unfolding eqs rd prod.case Let_def s1 o1
      by (auto split: if_splits sum.splits option.splits intro: here [of "[]", simplified] here err rec [OF _ g1] rec [OF _ g2])
  qed
  then show ?thesis using assms(3-6) by blast
qed

text \<open>
  C19: A reader of a stream gets its values exactly once and in order. While any number of values is appended
  under its eyes, what a reader that started at an offset has received when it returns is the stream
  from that offset on, without gap or repetition, followed by at most one end marker; when the marker is the
  close, the reader has everything there is. If the stream is closed at the first read, or the
  reader wants a snapshot, it returns.
\<close>

theorem stream_read_once_in_order:
  assumes between: "\<And>k d. stream_ok wid key d \<Longrightarrow> stream_grows wid key d (se_between se k d)"
    and "stream_ok wid key db" and "start \<le> length (stream_values wid key db)"
  shows "(\<forall>res. readStream se wid key snapshot (int start) db = Some res \<longrightarrow> stream_result wid key start res) \<and>
    (snapshot \<or> (\<exists>r \<in> set (stream_log wid key db). \<not> is_value r) \<longrightarrow> readStream se wid key snapshot (int start) db \<noteq> None)"
proof -
  have "delivered wid key start start db = []" by (simp add: delivered_def)
  then have "stream_result wid key start res" if "readStream se wid key snapshot (int start) db = Some res" for res
    using readStream_loop_result [OF that [unfolded readStream_def] between assms(2) order_refl assms(3)] by simp
  moreover have "readStream se wid key snapshot (int start) db \<noteq> None" if "snapshot \<or> (\<exists>r \<in> set (stream_log wid key db). \<not> is_value r)"
    using ReadStream_at [OF assms(2), of "int start"] that assms(3)
    by (simp add: readStream_def) (subst readStream_loop.simps, auto simp: Let_def)
  ultimately show ?thesis by blast
qed

text \<open>
  C30: The stream of a durably suspended workflow reads as closed. A reader that finds nothing more in the stream of a \<^verbatim>\<open>DELAYED\<close>
  workflow takes it for finished and reports the end, although the stream is open and its next value is accepted as soon as
  the workflow resumes.
\<close>

theorem suspended_stream_reads_closed:
  assumes "stream_ok wid key db" and "distinct (wf_ids (workflow_status db))" and "find_wf wid db = Some r"
    and "ws_status r = WorkflowStatusDelayed" and "\<forall>r \<in> set (stream_log wid key db). is_value r"
  shows "readStream \<lparr>se_systemDB = s, se_between = (\<lambda>_ d. d), se_done = d\<rparr> wid key False 0 db =
      Some (delivered wid key 0 (length (stream_values wid key db)) db @ [StreamClosed], db) \<and>
    (\<exists>db'. WriteStream \<lparr>wi_Key = key, wi_Value = Some v, wi_Serialization = ser, wi_WorkflowID = wid, wi_StepID = sid\<rparr> db = Inr ((), db'))"
proof -
  let ?se = "\<lparr>se_systemDB = s, se_between = (\<lambda>_ d. d), se_done = d\<rparr>"
  let ?n = "length (stream_values wid key db)"
  note rd = ReadStream_at [OF assms(1)]
  have status: "stream_status s wid db = Inr WorkflowStatusDelayed"
    using assms(2-4) by (simp add: stream_status_def ListWorkflows_one scan_row_def)
  have fin: "readStream_loop ?se wid key False k (int ?n) True sent db = Some (sent @ [StreamClosed], db)" for k sent
    using rd [of "int ?n"] assms(5) by (subst readStream_loop.simps) auto
  have idle: "readStream_loop ?se wid key False k (int ?n) False sent db = Some (sent @ [StreamClosed], db)" for k sent
    using rd [of "int ?n"] assms(5) status fin by (subst readStream_loop.simps) auto
  have all: "delivered wid key 0 ?n db = map entry_item (map (stream_entry []) (stream_values wid key db))" by (simp add: delivered_def)
  have "readStream ?se wid key False 0 db = Some (delivered wid key 0 ?n db @ [StreamClosed], db)"
  proof (cases "stream_values wid key db = []")
    case True
    then show ?thesis using idle [of 0 "[]"] all by (simp add: readStream_def)
  next
    case False
    have o: "en_Offset (last (map (stream_entry []) (stream_values wid key db))) + 1 = int ?n"
      using last_offset [OF assms(1), of 0] False by simp
    show ?thesis unfolding readStream_def all
      by (subst readStream_loop.simps) (use rd [of 0] assms(5) False o idle in \<open>auto simp: Let_def\<close>)
  qed
  moreover have "\<not> exists_where (\<lambda>r. st_value r = StreamClosedSentinel) (stream_rows wid key db)"
    using assms(5) by (auto simp: stream_log_def)
  ultimately show ?thesis using assms(3) by (simp add: WriteStream_def Let_def)
qed

text \<open>Every write keeps the promise the reader relies on.\<close>

lemma stream_ok_contiguous:
  assumes "stream_ok wid key db"
  shows "stream_contiguous (stream_rows wid key db)"
proof -
  let ?rows = "stream_rows wid key db"
  have eq: "map st_offset (order_by st_offset ?rows) = map int [0..<length ?rows]"
    using assms by (simp add: stream_ok_def stream_log_def)
  have "distinct (map st_offset (order_by st_offset ?rows))" unfolding eq by (simp add: distinct_map)
  then have "distinct (map st_offset ?rows)" by (simp only: distinct_map_order_by)
  moreover have "st_offset ` set ?rows = set (map st_offset (order_by st_offset ?rows))" by simp
  then have "st_offset ` set ?rows = {0..<int (length ?rows)}" unfolding eq by (auto simp: image_iff) (metis nat_0_le nat_less_iff atLeastLessThan_iff zero_le)
  ultimately show ?thesis by (simp add: stream_contiguous_def)
qed

lemma WriteStream_grows:
  assumes "stream_ok wid key db" and "WriteStream inp db = Inr (u, db')"
  shows "stream_grows wid key db db'"
proof (cases "(wi_WorkflowID inp, wi_Key inp) = (wid, key)")
  case True
  then obtain new where rows: "stream_rows wid key db' = stream_rows wid key db @ [new]"
    and off: "st_offset new = int (length (stream_rows wid key db))"
    using assms(2) next_offset_contiguous [OF stream_ok_contiguous [OF assms(1)]]
    by (auto simp: WriteStream_def stream_rows_def Let_def split: if_splits option.splits)
  then have "stream_log wid key db' = stream_log wid key db @ [new]"
    unfolding stream_log_def rows using stream_contiguous_lt [OF stream_ok_contiguous [OF assms(1)]]
    by (intro order_by_append_max) force
  moreover have "length (stream_log wid key db) = length (stream_rows wid key db)" by (simp add: stream_log_def)
  ultimately show ?thesis using assms(1) off by (simp add: stream_grows_def stream_ok_def)
next
  case False
  then have "stream_rows wid key db' = stream_rows wid key db"
    using assms(2) by (auto simp: WriteStream_def stream_rows_def Let_def split: if_splits option.splits)
  then show ?thesis using assms(1) by (simp add: stream_grows_def stream_ok_def stream_log_def)
qed

definition sample_stream :: "WorkflowStatusType \<Rightarrow> sysdb" where
  "sample_stream st = sample_family\<lparr>workflow_status := map (\<lambda>r. r\<lparr>ws_status := st\<rparr>) (workflow_status sample_family),
     streams := [\<lparr>st_workflow_uuid = ''a'', st_key = ''s'', st_value = ''v'', st_offset = 0, st_function_id = 0, st_serialization = None\<rparr>]\<rparr>"

lemma sample_stream_log [simp]: "stream_log ''a'' ''s'' (sample_stream st) =
    [\<lparr>st_workflow_uuid = ''a'', st_key = ''s'', st_value = ''v'', st_offset = 0, st_function_id = 0, st_serialization = None\<rparr>]"
  by (simp add: sample_stream_def stream_log_def stream_rows_def order_by_def)

lemma sample_stream_ok [simp]: "stream_ok ''a'' ''s'' (sample_stream st)"
  by (simp add: stream_ok_def)

theorem stream_read_once_in_order_witness:
  "\<exists>res. readStream \<lparr>se_systemDB = sample_sysdb_ctx, se_between = (\<lambda>_ d. d), se_done = (\<lambda>_. None)\<rparr> ''a'' ''s'' True 0
       (sample_stream WorkflowStatusPending) = Some res \<and> stream_result ''a'' ''s'' 0 res"
proof -
  let ?se = "\<lparr>se_systemDB = sample_sysdb_ctx, se_between = (\<lambda>_ d. d), se_done = (\<lambda>_. None)\<rparr>"
  have g: "stream_grows ''a'' ''s'' d (se_between ?se k d)" if "stream_ok ''a'' ''s'' d" for k d
    using that by (simp add: stream_grows_def)
  from stream_read_once_in_order [where se = ?se and wid = "''a''" and key = "''s''" and start = 0 and snapshot = True, OF g sample_stream_ok [of WorkflowStatusPending]]
  show ?thesis by auto
qed

theorem suspended_stream_reads_closed_witness:
  "readStream \<lparr>se_systemDB = sample_sysdb_ctx, se_between = (\<lambda>_ d. d), se_done = (\<lambda>_. None)\<rparr> ''a'' ''s'' False 0
       (sample_stream WorkflowStatusDelayed) = Some ([Entry ''v'' [], StreamClosed], sample_stream WorkflowStatusDelayed) \<and>
   (\<exists>db'. WriteStream \<lparr>wi_Key = ''s'', wi_Value = Some ''u'', wi_Serialization = [], wi_WorkflowID = ''a'', wi_StepID = 1\<rparr>
       (sample_stream WorkflowStatusDelayed) = Inr ((), db'))"
proof -
  let ?db = "sample_stream WorkflowStatusDelayed"
  obtain r where r: "find_wf ''a'' ?db = Some r" "ws_status r = WorkflowStatusDelayed"
    by (simp add: sample_stream_def sample_family_def)
  have d: "distinct (wf_ids (workflow_status ?db))" by (simp add: sample_stream_def sample_family_def)
  have v: "\<forall>r \<in> set (stream_log ''a'' ''s'' ?db). is_value r" by (simp add: StreamClosedSentinel_def)
  have "delivered ''a'' ''s'' 0 (length (stream_values ''a'' ''s'' ?db)) ?db = [Entry ''v'' []]"
    by (simp add: delivered_def stream_values_def StreamClosedSentinel_def entry_item_def stream_entry_def)
  with suspended_stream_reads_closed [OF sample_stream_ok d r v] show ?thesis by (metis append_Cons append_Nil)
qed

section \<open>A suspended workflow is woken\<close>

text \<open>A workflow that is not parked beyond \<open>t\<close>: the queue runner enqueues it at its first pass from then on.\<close>

definition due :: "instant \<Rightarrow> string \<Rightarrow> sysdb \<Rightarrow> bool" where
  "due t wid db = (\<forall>r. find_wf wid db = Some r \<and> ws_status r = WorkflowStatusDelayed \<longrightarrow>
     sql_le (ws_delay_until_epoch_ms r) (UnixMilli t))"

definition awaits :: "string \<Rightarrow> string \<Rightarrow> sysdb \<Rightarrow> bool" where
  "awaits waiter awaited db = (\<lparr>wt_waiter_workflow_uuid = waiter, wt_awaited_workflow_uuid = awaited\<rparr> \<in> set (workflow_waiters db))"

lemma due_promoted:
  assumes "due t wid db" and "t \<le> t'" and "find_wf wid db = Some r" and "ws_status r = WorkflowStatusDelayed"
    and "nameFilter s (ws_application_name r)"
  shows "\<exists>r'. find_wf wid (TransitionDelayedWorkflows s t' db) = Some r' \<and> ws_status r' = WorkflowStatusEnqueued"
proof -
  have "due_where s t' r"
    using assms UnixMilli_mono [OF assms(2)] by (auto simp: due_def due_where_def sql_le_def split: option.splits)
  then show ?thesis unfolding TransitionDelayedWorkflows_def using due.find_hit [OF assms(3)] by (auto simp: due_set_def)
qed

lemma due_later: "due t wid db \<Longrightarrow> t \<le> t' \<Longrightarrow> due t' wid db"
  using UnixMilli_mono [of t t'] by (fastforce simp: due_def sql_le_def split: option.splits)

lemma find_wf_eq_due: "find_wf wid db' = find_wf wid db \<Longrightarrow> due t wid db' = due t wid db"
  by (simp add: due_def)

lemma wake_due: "wid \<in> set ids \<Longrightarrow> due now wid (update_wf (wake_where ids) (wake_set now) db)"
  unfolding due_def
proof (intro allI impI, elim conjE)
  fix r' :: wf_row assume wid: "wid \<in> set ids" and r': "ws_status r' = WorkflowStatusDelayed"
  assume "find_wf wid (update_wf (wake_where ids) (wake_set now) db) = Some r'"
  then obtain r where r: "find_wf wid db = Some r" "r' = (if wake_where ids r then wake_set now r else r)" by (rule wake.find_SomeD)
  have "ws_workflow_uuid r = wid" using lookup_by_SomeD [OF r(1)] by simp
  then have "wake_where ids r" using wid r' r(2) by (auto simp: wake_where_def split: if_splits)
  then show "sql_le (ws_delay_until_epoch_ms r') (UnixMilli now)" using r(2) by (simp add: wake_set_def sql_le_def)
qed

lemma awaits_waiting: "awaits waiter awaited db \<Longrightarrow> waiter \<in> set (waiting_for awaited db)"
  by (force simp: awaits_def waiting_for_def)

lemma WakeWorkflowWaiters_due:
  assumes "awaits waiter awaited db"
  shows "due now waiter (WakeWorkflowWaiters now runner awaited db)"
proof -
  have "exists_where (\<lambda>w. wt_awaited_workflow_uuid w = awaited) (workflow_waiters db)"
    using assms by (force simp: awaits_def)
  then show ?thesis using wake_due [OF awaits_waiting [OF assms]]
    by (simp add: WakeWorkflowWaiters_def Let_def due_def)
qed

lemma Send_due:
  assumes "Send now wakeNow uuid inp db = Inr (u, db')" and "awaits (si_DestinationID inp) (si_DestinationID inp) db"
  shows "due wakeNow (si_DestinationID inp) db'"
proof -
  let ?w = "si_DestinationID inp"
  have "due wakeNow ?w (wake_receiver wakeNow ?w db1)" if "workflow_waiters db1 = workflow_waiters db" for db1
  proof -
    have "exists_where (\<lambda>w. wt_waiter_workflow_uuid w = ?w \<and> wt_awaited_workflow_uuid w = ?w) (workflow_waiters db1)"
      using assms(2) that by (force simp: awaits_def)
    then have "wake_receiver wakeNow ?w db1 = update_wf (wake_where [?w]) (wake_set wakeNow) db1"
      by (simp add: wake_receiver_def)
    then show ?thesis using wake_due [of ?w "[?w]"] by simp
  qed
  then show ?thesis using assms(1) by (auto simp: Send_def Let_def split: option.splits if_splits)
qed

lemma SetEvent_due:
  assumes "SetEvent now inp db = Inr (u, db')" and "awaits waiter (se_WorkflowID inp) db"
  shows "due now waiter db'"
proof -
  obtain d where d: "db' = notifyWorkflowWaiters now (se_WorkflowID inp) d" "workflow_waiters d = workflow_waiters db"
    using assms(1) by (auto simp: SetEvent_def Let_def split: option.splits if_splits)
  then have "awaits waiter (se_WorkflowID inp) d" using assms(2) by (simp add: awaits_def)
  then show ?thesis unfolding d(1) notifyWorkflowWaiters_def by (intro wake_due awaits_waiting)
qed

lemma outcome_due:
  assumes "UpdateWorkflowOutcome now tx awaited st out err db = (True, db')" and "awaits waiter awaited db"
  shows "due now waiter db'"
proof -
  let ?d = "update_wf (suspend_where awaited) (outcome_set now st out err) db"
  have "awaits waiter awaited ?d" using assms(2) by (simp add: awaits_def)
  from WakeWorkflowWaiters_due [OF this, of now tx] show ?thesis
    using assms(1) by (auto simp: UpdateWorkflowOutcome_def Let_def split: if_splits)
qed

text \<open>
  The waiter row lives until a wake-up takes it: whatever others do after a workflow is parked, its row is
  still there or the workflow is due.
\<close>

definition keeps_waiter :: "('v, 'w) op_env \<Rightarrow> instant \<Rightarrow> string \<Rightarrow> string \<Rightarrow> bool" where
  "keeps_waiter e t waiter awaited = (\<forall>st. awaits waiter awaited (fst st) \<longrightarrow>
     awaits waiter awaited (fst (o_others e st)) \<or> due t waiter (fst (o_others e st)))"

lemma wake_keeps_due: "due t wid db \<Longrightarrow> now \<le> t \<Longrightarrow> due t wid (update_wf (wake_where ids) (wake_set now) db)"
  unfolding due_def
proof (intro allI impI, elim conjE)
  fix r' :: wf_row assume d: "\<forall>r. find_wf wid db = Some r \<and> ws_status r = WorkflowStatusDelayed \<longrightarrow> sql_le (ws_delay_until_epoch_ms r) (UnixMilli t)"
    and t: "now \<le> t" and r': "ws_status r' = WorkflowStatusDelayed"
  assume "find_wf wid (update_wf (wake_where ids) (wake_set now) db) = Some r'"
  then obtain r where r: "find_wf wid db = Some r" "r' = (if wake_where ids r then wake_set now r else r)" by (rule wake.find_SomeD)
  then show "sql_le (ws_delay_until_epoch_ms r') (UnixMilli t)"
    using d r' UnixMilli_mono [OF t] by (auto simp: wake_set_def sql_le_def split: if_splits)
qed

lemma WakeWorkflowWaiters_keeps_due:
  assumes "due t wid db" and "now \<le> t"
  shows "due t wid (WakeWorkflowWaiters now runner awaited db)"
  using assms(1) wake_keeps_due [OF assms, of "waiting_for awaited db"] by (simp add: WakeWorkflowWaiters_def Let_def due_def)

lemma suspended_awaits:
  "SuspendWorkflowForResult now waiter awaited until db = Inr (True, db') \<Longrightarrow> awaits waiter awaited db'"
  by (auto simp: SuspendWorkflowForResult_def awaits_def Let_def split: sum.splits if_splits)

lemma WakeSuspendedWorkflow_due: "now \<le> t \<Longrightarrow> due t wid (WakeSuspendedWorkflow now wid db)"
  unfolding WakeSuspendedWorkflow_def by (rule due_later [OF wake_due]) simp_all

lemma update_wf_tables [simp]:
  "notifications (update_wf g u db) = notifications db" "workflow_events (update_wf g u db) = workflow_events db"
  by (simp_all add: update_wf_def)

text \<open>
  C18: A durable suspension loses no wake-up. When a workflow has parked itself for a message, an event or a result, then
  whatever the other executors did while it was doing so, it is due at once if the message, the event or the outcome is there;
  and as long as its waiter row stands, a later message, event or outcome makes it due. A due
  workflow is enqueued by the next pass of a queue runner that serves it. \<open>t\<close> is any time the clock has not passed.
\<close>

theorem suspension_loses_no_wakeup:
  assumes "\<And>s. o_now e s \<le> t" and wid: "wid = workflowID ws"
  shows "(\<forall>topic deadline st su st'. suspendForRecv e ws topic deadline st = (Suspended su, st') \<and>
        HasUnconsumedNotification wid topic (fst st') \<longrightarrow> due t wid (fst st')) \<and>
    (\<forall>target key deadline st su st'. suspendForEvent e ws target key deadline st = (Suspended su, st') \<and>
        HasWorkflowEvent target key (fst st') \<longrightarrow> due t wid (fst st')) \<and>
    (\<forall>awaited st su st' r. suspendForResult e ws awaited st = (Suspended su, st') \<and> keeps_waiter e t wid awaited \<and>
        (\<forall>d. distinct (wf_ids (workflow_status (fst (o_others e d))))) \<and>
        find_wf awaited (fst st') = Some r \<and> isTerminalStatus (ws_status r) \<longrightarrow> due t wid (fst st')) \<and>
    (\<forall>now wakeNow uuid inp db db'. si_DestinationID inp = wid \<and> awaits wid wid db \<and> Send now wakeNow uuid inp db = Inr ((), db') \<longrightarrow>
        due wakeNow wid db') \<and>
    (\<forall>now inp db db'. awaits wid (se_WorkflowID inp) db \<and> SetEvent now inp db = Inr ((), db') \<longrightarrow> due now wid db') \<and>
    (\<forall>now tx awaited st out err db db'. awaits wid awaited db \<and> UpdateWorkflowOutcome now tx awaited st out err db = (True, db') \<longrightarrow>
        due now wid db') \<and>
    (\<forall>s db r t'. due t wid db \<and> t \<le> t' \<and> find_wf wid db = Some r \<and> ws_status r = WorkflowStatusDelayed \<and>
        nameFilter s (ws_application_name r) \<longrightarrow>
      (\<exists>r'. find_wf wid (TransitionDelayedWorkflows s t' db) = Some r' \<and> ws_status r' = WorkflowStatusEnqueued))"
    (is "?recv \<and> ?event \<and> ?result \<and> ?send \<and> ?set \<and> ?outcome \<and> ?runner")
proof (intro conjI)
  show ?recv
    by (auto simp: suspendForRecv_def Let_def wid assms(1) HasUnconsumedNotification_def WakeSuspendedWorkflow_due
        split: sum.splits if_splits)
  show ?event
    by (auto simp: suspendForEvent_def Let_def wid assms(1) HasWorkflowEvent_def WakeSuspendedWorkflow_due
        split: sum.splits if_splits)
  show ?result
  proof (intro allI impI, elim conjE)
    fix awaited st su st' r
    assume run: "suspendForResult e ws awaited st = (Suspended su, st')" and kept: "keeps_waiter e t wid awaited"
      and dist: "\<forall>d. distinct (wf_ids (workflow_status (fst (o_others e d))))"
      and r: "find_wf awaited (fst st') = Some r" "isTerminalStatus (ws_status r)"
    obtain db1 where sus: "SuspendWorkflowForResult (o_now e st) wid awaited (o_now e st + waiterWakeFallbackInterval) (fst st) = Inr (True, db1)"
      using run by (auto simp: suspendForResult_def Let_def wid split: sum.splits if_splits)
    define st2 where "st2 = o_others e (db1, snd st)"
    have st': "st' = (case ListWorkflows (c_systemDB (o_ctx e)) (zero_ListWorkflowsDBInput\<lparr>l_WorkflowIDs := [awaited]\<rparr>) (fst st2) of
        Inr [s] \<Rightarrow> if isTerminalStatus (W_Status s) then (WakeWorkflowWaiters (o_now e st2) False awaited (fst st2), snd st2) else st2
      | _ \<Rightarrow> st2)"
      using run sus unfolding st2_def by (auto simp: suspendForResult_def Let_def wid)
    have two: "awaits wid awaited (fst st2) \<or> due t wid (fst st2)"
      using kept suspended_awaits [OF sus] unfolding keeps_waiter_def st2_def by fastforce
    have w: "st' = (case find_wf awaited (fst st2) of None \<Rightarrow> st2 | Some r2 \<Rightarrow>
        if isTerminalStatus (ws_status r2) then (WakeWorkflowWaiters (o_now e st2) False awaited (fst st2), snd st2) else st2)"
      using dist st' by (simp add: ListWorkflows_one st2_def scan_row_def split: option.splits)
    have "due t wid (WakeWorkflowWaiters (o_now e st2) False awaited (fst st2))"
      using two WakeWorkflowWaiters_due [THEN due_later, OF _ assms(1)] WakeWorkflowWaiters_keeps_due [OF _ assms(1)] by blast
    then show "due t wid (fst st')" using w r by (auto split: option.splits if_splits)
  qed
  show ?send by (auto intro: Send_due)
  show ?set by (auto intro: SetEvent_due)
  show ?outcome by (auto intro: outcome_due)
  show ?runner using due_promoted by blast
qed

definition sample_env :: "(sysdb \<Rightarrow> sysdb) \<Rightarrow> (bool, int) op_env" where
  "sample_env others = \<lparr>o_ctx = sample_context sample_error_lib, o_retryable = (\<lambda>_. False), o_threshold = 0, o_EnablePatching = True,
     o_others = (\<lambda>(db, w). (others db, w)), o_uuid = (\<lambda>_. ''u''),
     o_int64 = \<lparr>bx_type = bool_type, bx_wrap = (\<lambda>i. i = 0), bx_unwrap = (\<lambda>b. if b then 0 else 1)\<rparr>,
     o_raw = (\<lambda>(m, _). m \<noteq> None), o_string = (\<lambda>_. False), o_duration = (\<lambda>_. ''d''), o_subscribed = (\<lambda>_ _. True),
     o_select = (\<lambda>_ st. (WaitDone, st)), o_queryErr = (\<lambda>_. None)\<rparr>"

text \<open>A message arrives while the receiver parks itself.\<close>

definition sample_arrival :: "sysdb \<Rightarrow> sysdb" where
  "sample_arrival db = db\<lparr>notifications := [\<lparr>nt_destination_uuid = ''a'', nt_topic = ''t'', nt_message = ''m'', nt_created_at_epoch_ms = 0,
     nt_message_uuid = ''u'', nt_serialization = None, nt_consumed = False\<rparr>]\<rparr>"

theorem suspension_loses_no_wakeup_witness:
  "\<exists>su st'. suspendForRecv (sample_env sample_arrival) sample_workflow ''t'' 1000000000 (sample_pending, 0) = (Suspended su, st') \<and>
     HasUnconsumedNotification ''a'' ''t'' (fst st') \<and> due 0 ''a'' (fst st')"
proof -
  let ?e = "sample_env sample_arrival"
  have now: "o_now ?e s \<le> 0" for s by (simp add: sample_env_def sample_context_def)
  have sus: "\<exists>db1. SuspendWorkflowForResult 0 ''a'' ''a'' u sample_pending = Inr (True, db1)" for u
    by (simp add: SuspendWorkflowForResult_def suspendWorkflowToDelayed_def suspend_where_def suspend_set_def sample_pending_def
        default_wf_row_def dedup_unique_def rows_affected_def dedup_slot_def Let_def split: option.splits)
  obtain su st' where run: "suspendForRecv ?e sample_workflow ''t'' 1000000000 (sample_pending, 0) = (Suspended su, st')"
    "HasUnconsumedNotification ''a'' ''t'' (fst st')"
    using sus [of "suspension_end ?e 1000000000 (sample_pending, 0)"]
    by (auto simp: suspendForRecv_def sample_env_def sample_context_def sample_workflow_def sample_arrival_def HasUnconsumedNotification_def
        WakeSuspendedWorkflow_def Let_def)
  have "''a'' = workflowID sample_workflow" by (simp add: sample_workflow_def)
  from suspension_loses_no_wakeup [where e = ?e and t = 0, OF now this, THEN conjunct1] run show ?thesis by blast
qed

section \<open>Durable sleep\<close>

text \<open>
  How the library encodes an \<^verbatim>\<open>int64\<close>: it reads back, and it is neither a \<^verbatim>\<open>rawStepOutput\<close> nor nil.
\<close>

definition int64_ok :: "('v, 'w) op_env \<Rightarrow> bool" where
  "int64_ok e = (same_universe (c_any (o_ctx e)) (bx_type (o_int64 e)) \<and> custom_contract (c_serializer (o_ctx e)) \<and>
     (\<forall>i. bx_unwrap (o_int64 e) (bx_wrap (o_int64 e) i) = i \<and> c_asRaw (o_ctx e) (bx_wrap (o_int64 e) i) = None \<and>
       IsValid (bx_type (o_int64 e)) (bx_wrap (o_int64 e) i) \<and> isOfType (bx_type (o_int64 e)) (bx_wrap (o_int64 e) i) \<and>
       json_faithful (bx_type (o_int64 e)) (bx_wrap (o_int64 e) i)))"

text \<open>The clock and the timer: a timer that fires has waited, and only a cancelled context stops it.\<close>

definition timer_ok :: "('v, 'w) op_env \<Rightarrow> bool" where
  "timer_ok e = (\<forall>d s ok s'. c_wait (o_ctx e) d s = (ok, s') \<longrightarrow> fst s' = fst s \<and>
     (if ok then o_now e s + d \<le> o_now e s' else c_Err (o_ctx e) s' \<noteq> None))"

definition recorded_deadline :: "('v, 'w) op_env \<Rightarrow> 'w workflowState \<Rightarrow> int \<Rightarrow> sysdb \<Rightarrow> int \<Rightarrow> bool" where
  "recorded_deadline e ws sid db ms = (\<exists>r. find_op (workflowID ws) sid db = Some r \<and> oo_function_name r = ''DBOS.sleep'' \<and>
     oo_error r = None \<and> Encode (txn_encoder (o_ctx e) ws) (bx_wrap (o_int64 e) ms) = Inr (oo_output r) \<and>
     oo_serialization r = Some (Name (txn_encoder (o_ctx e) ws)))"

lemma int64_result:
  assumes "int64_ok e" and "Encode (txn_encoder (o_ctx e) ws) (bx_wrap (o_int64 e) ms) = Inr enc"
  shows "typed_result (o_ctx e) (bx_type (o_int64 e)) wso (CheckpointedOutcome enc (Name (txn_encoder (o_ctx e) ws)), None) =
    (bx_wrap (o_int64 e) ms, None)"
proof -
  have "value_survives (bx_type (o_int64 e)) (bx_wrap (o_int64 e) ms)"
    using assms(1) by (simp add: int64_ok_def value_survives_def)
  then have "typed_result (o_ctx e) (bx_type (o_int64 e)) wso (CheckpointedOutcome enc (Name (txn_encoder (o_ctx e) ws)), None) =
      typed_result (o_ctx e) (bx_type (o_int64 e)) wso (Direct (bx_wrap (o_int64 e) ms), None)"
    using assms unfolding txn_encoder_def by (intro decoded_result) (simp_all add: int64_ok_def)
  then show ?thesis using assms(1) by (simp add: typed_result_def convertStepResult_def int64_ok_def)
qed

lemma deadline_step_replayed:
  assumes "\<not> isWithinStep ws" and "so = parse_options (WithStepName ''DBOS.sleep'' # opts @ [WithStepName []])" and "stepName so = ''DBOS.sleep''"
    and "int64_ok e" and "runnable (workflowID ws) (fst st)" and "recorded_deadline e ws (step_id ws so) (fst st) ms"
  shows "deadline_step e ws dl opts st = Some ((ms, None), Some (step_counted ws so), st)"
proof -
  obtain r where r: "find_op (workflowID ws) (step_id ws so) (fst st) = Some r" "oo_function_name r = ''DBOS.sleep''" "oo_error r = None"
    "Encode (txn_encoder (o_ctx e) ws) (bx_wrap (o_int64 e) ms) = Inr (oo_output r)" "oo_serialization r = Some (Name (txn_encoder (o_ctx e) ws))"
    using assms(6) by (auto simp: recorded_deadline_def)
  note chk = check_recorded [OF assms(5) r(1), of "stepName so"]
  have "dbosContext_runAsTxn (o_ctx e) (o_retryable e) (Some ws) (Some body) (WithStepName ''DBOS.sleep'' # opts @ [WithStepName []]) st =
      Some ((CheckpointedOutcome (oo_output r) (Name (txn_encoder (o_ctx e) ws)), None), Some (step_counted ws so), st)" for body
    using txn_step_replayed [OF assms(1,2) chk refl, where c = "o_ctx e" and retryable = "o_retryable e" and body = body] r assms(3)
    by (simp add: deserializeWorkflowError_def nullif_empty_def)
  then show ?thesis using int64_result [OF assms(4) r(4)] assms(4)
    by (simp add: deadline_step_def runAsTxn_def int64_ok_def)
qed

lemma timer_waits:
  assumes "timer_ok e"
  shows "fst (snd (c_wait (o_ctx e) d s)) = fst s" and "c_wait (o_ctx e) d s = (False, s') \<Longrightarrow> c_Err (o_ctx e) s' \<noteq> None"
    and "c_wait (o_ctx e) d s = (True, s') \<Longrightarrow> o_now e s + d \<le> o_now e s'"
  using assms unfolding timer_ok_def by (metis fst_conv snd_conv surj_pair, metis, metis)

lemma deadline_step_fresh:
  assumes "\<not> isWithinStep ws" and "so = parse_options (WithStepName ''DBOS.sleep'' # opts @ [WithStepName []])" and "stepName so = ''DBOS.sleep''"
    and "int64_ok e" and "timer_ok e" and "postStepInTxn so = None" and "find_op (workflowID ws) (step_id ws so) (fst st) = None"
    and "deadline_step e ws dl opts st = Some ((ms, None), wso, st')" and "maxRetries so \<le> 0"
  obtains s where "fst s = fst st" "ms = UnixMilli (dl s)" "recorded_deadline e ws (step_id ws so) (fst st') ms"
    "db_inv (fst st) \<Longrightarrow> db_inv (fst st')"
proof -
  let ?c = "o_ctx e" and ?b = "o_int64 e"
  let ?body = "\<lambda>s. ((bx_wrap ?b (UnixMilli (dl s)), None :: go_error option), s)"
  obtain res err v where run: "dbosContext_runAsTxn ?c (o_retryable e) (Some ws) (Some ?body)
      (WithStepName ''DBOS.sleep'' # opts @ [WithStepName []]) st = Some ((res, err), wso, st')"
    and typed: "typed_result ?c (bx_type ?b) wso (res, err) = (v, None)" "ms = bx_unwrap ?b v"
    using assms(8) by (auto simp: deadline_step_def runAsTxn_def)
  have err: "err = None" using typed(1) by (auto simp: typed_result_def split: if_splits sum.splits step_result.splits)
  obtain s v' sb where s: "fst s = fst st" "?body s = ((v', None), sb)" "res = Direct v'" "txn_effect ?c ws so ?body (fst st) st' v' None"
    by (rule txn_single_run [OF assms(1,2) assms(9) _ run [unfolded err]]) (use timer_waits [OF assms(5)] assms(7) in \<open>blast, blast, blast, auto\<close>)
  then have v': "v' = bx_wrap ?b (UnixMilli (dl s))" by auto
  have ms: "ms = UnixMilli (dl s)"
    using typed s(3) v' err assms(4) by (auto simp: typed_result_def convertStepResult_def int64_ok_def)
  obtain r enc ser where "find_op (workflowID ws) (step_id ws so) (fst st') = Some r" "oo_function_name r = stepName so"
    "txn_encode ?c (txn_encoder ?c ws) (bx_wrap ?b (UnixMilli (dl s))) = Inr (enc, ser)" "oo_output r = enc" "oo_serialization r = Some ser" "oo_error r = None"
    by (rule txn_effect_row [OF s(4) [unfolded v']]) (use assms(6,7) in auto)
  then have "recorded_deadline e ws (step_id ws so) (fst st') ms"
    using assms(3,4) by (auto simp: recorded_deadline_def txn_encode_def int64_ok_def ms map_sum_def split: sum.splits)
  moreover have "db_inv (fst st')" if "db_inv (fst st)"
    using s(4) that assms(6) by (auto simp: txn_effect_def intro: RecordOperationResult_inv)
  ultimately show thesis by (rule that [OF s(1) ms])
qed

lemma sleep_options:
  "stepName (parse_options (WithStepName ''DBOS.sleep'' # [withCompletedAt dl] @ [WithStepName []])) = ''DBOS.sleep''"
  "postStepInTxn (parse_options (WithStepName ''DBOS.sleep'' # [withCompletedAt dl] @ [WithStepName []])) = None"
  "step_id ws (parse_options (WithStepName ''DBOS.sleep'' # [withCompletedAt dl] @ [WithStepName []])) = stepID ws + 1"
  "maxRetries (parse_options (WithStepName ''DBOS.sleep'' # [withCompletedAt dl] @ [WithStepName []])) \<le> 0"
  by (simp_all add: parse_options_def WithStepName_def withCompletedAt_def zero_stepOptions_def setDefaults_def step_id_def Let_def)

lemmas sleep_step_id = sleep_options(3) [simplified]

text \<open>The end of a sleep, once its deadline is known.\<close>

lemma suspended_for_sleep:
  assumes "db_inv db" and "SuspendWorkflowForSleep now wid (time_of_ms ms) db = Inr (suspended, db')"
  shows "operation_outputs db' = operation_outputs db" and "\<not> suspended \<Longrightarrow> db' = db"
    and "suspended \<Longrightarrow> \<exists>r. find_wf wid db' = Some r \<and> ws_status r = WorkflowStatusDelayed \<and> ws_delay_until_epoch_ms r = Some ms"
proof -
  have eq: "suspended = (0 < rows_affected (suspend_where wid) db)" "db' = update_wf (suspend_where wid) (suspend_set now (time_of_ms ms)) db"
    using assms(2) by (simp_all add: SuspendWorkflowForSleep_def suspendWorkflowToDelayed_ok [OF assms(1)])
  show "operation_outputs db' = operation_outputs db" by (simp add: eq update_wf_def)
  show "db' = db" if "\<not> suspended" using that by (simp add: eq rows_affected_pos update_wf_def update_where_none)
  show "\<exists>r. find_wf wid db' = Some r \<and> ws_status r = WorkflowStatusDelayed \<and> ws_delay_until_epoch_ms r = Some ms" if su: suspended
  proof -
    obtain r where r: "r \<in> set (workflow_status db)" "suspend_where wid r" using su by (auto simp: eq rows_affected_pos)
    then have "find_wf wid db = Some r" using find_wf_iff [OF assms(1)] by (simp add: suspend_where_def)
    from suspend.find_hit [OF this r(2)] show ?thesis by (simp add: eq suspend_set_def)
  qed
qed

lemma Sleep_after_deadline:
  assumes "\<not> isWithinStep ws" and "timer_ok e" and "db_inv (fst st1)"
    and "deadline_step e ws (\<lambda>_. o_now e st + d) [withCompletedAt (o_now e st + d)] st = Some ((ms, None), ws1, st1)"
    and "Sleep e (Some ws) d st = Some (res, wso, st')"
  shows "operation_outputs (fst st') = operation_outputs (fst st1) \<and>
    (case res of
       Returned (_, None) \<Rightarrow> time_of_ms ms \<le> o_now e st'
     | Returned (_, Some _) \<Rightarrow> True
     | Suspended su \<Rightarrow> su_delayUntil su = time_of_ms ms \<and>
         (\<exists>r. find_wf (workflowID ws) (fst st') = Some r \<and> ws_status r = WorkflowStatusDelayed \<and> ws_delay_until_epoch_ms r = Some ms))"
proof -
  let ?rem = "max 0 (time_of_ms ms - o_now e st1)"
  let ?inproc = "case c_wait (o_ctx e) ?rem st1 of
      (True, s') \<Rightarrow> Some (Returned (?rem, None), ws1, s')
    | (False, s') \<Rightarrow> Some (Returned (o_now e s' - o_now e st1, c_Err (o_ctx e) s'), ws1, s')"
  have wait: ?thesis if "?inproc = Some (res, wso, st')"
    using that timer_waits [OF assms(2), of ?rem st1] by (auto split: prod.splits bool.splits option.splits)
  show ?thesis
  proof (cases "0 < o_threshold e \<and> o_threshold e < ?rem")
    case False
    then have "?inproc = Some (res, wso, st')" using assms(1,4,5) by (auto simp: Sleep_def Let_def split: if_splits)
    then show ?thesis by (rule wait)
  next
    case True
    then have until: "o_now e st1 + ?rem = time_of_ms ms" by (auto simp: max_def split: if_splits)
    show ?thesis
    proof (cases "SuspendWorkflowForSleep (o_now e st1) (workflowID ws) (time_of_ms ms) (fst st1)")
      case (Inl err)
      then show ?thesis using assms(1,4,5) True until by (auto simp: Sleep_def Let_def)
    next
      case (Inr x)
      obtain suspended db2 where x: "x = (suspended, db2)" by fastforce
      note sus = suspended_for_sleep [OF assms(3) Inr [unfolded x]]
      show ?thesis
      proof (cases suspended)
        case s: True
        then show ?thesis using assms(1,4,5) True until Inr x sus by (auto simp: Sleep_def Let_def)
      next
        case s: False
        then have "db2 = fst st1" using sus(2) by simp
        then have "?inproc = Some (res, wso, st')" using assms(1,4,5) True until Inr x s
          by (auto simp: Sleep_def Let_def split: if_splits prod.splits bool.splits)
        then show ?thesis by (rule wait)
      qed
    qed
  qed
qed

text \<open>
  C17: A durable sleep keeps its deadline. Whatever duration it is called with, a sleep that was recorded waits for the recorded
  deadline; a sleep that runs for the first time records its deadline before it waits. It returns
  without error only when the deadline has passed, and when it suspends the workflow instead, the workflow is parked until
  exactly the deadline.
\<close>

theorem durable_sleep_deadline:
  assumes "\<not> isWithinStep ws" and "int64_ok e" and "timer_ok e" and "runnable (workflowID ws) (fst st)" and "db_inv (fst st)"
    and "Sleep e (Some ws) d st = Some (res, wso, st')" and "sid = stepID ws + 1"
    and "if find_op (workflowID ws) sid (fst st) = None then ms = UnixMilli (o_now e st + d) else recorded_deadline e ws sid (fst st) ms"
  shows "case res of
       Returned (_, None) \<Rightarrow> recorded_deadline e ws sid (fst st') ms \<and> time_of_ms ms \<le> o_now e st'
     | Returned (_, Some _) \<Rightarrow> True
     | Suspended su \<Rightarrow> recorded_deadline e ws sid (fst st') ms \<and> su_delayUntil su = time_of_ms ms \<and>
         (\<exists>r. find_wf (workflowID ws) (fst st') = Some r \<and> ws_status r = WorkflowStatusDelayed \<and> ws_delay_until_epoch_ms r = Some ms)"
proof (cases "deadline_step e ws (\<lambda>_. o_now e st + d) [withCompletedAt (o_now e st + d)] st")
  case None
  then show ?thesis using assms(1,6) by (simp add: Sleep_def Let_def)
next
  case (Some r)
  obtain ms' err ws1 st1 where r: "r = ((ms', err), ws1, st1)" by (cases r) auto
  show ?thesis
  proof (cases err)
    case err: (Some er)
    then show ?thesis using Some r assms(1,6) by (auto simp: Sleep_def Let_def)
  next
    case None
    note step = Some [unfolded r None]
    have one: "ms' = ms \<and> recorded_deadline e ws sid (fst st1) ms \<and> db_inv (fst st1)"
    proof (cases "find_op (workflowID ws) sid (fst st) = None")
      case True
      from deadline_step_fresh [OF assms(1) refl sleep_options(1) assms(2,3) sleep_options(2) _ step sleep_options(4)] show ?thesis
        using True assms(5,7,8) by (auto simp: sleep_step_id)
    next
      case False
      then have "deadline_step e ws (\<lambda>_. o_now e st + d) [withCompletedAt (o_now e st + d)] st =
          Some ((ms, None), Some (step_counted ws (parse_options (WithStepName ''DBOS.sleep'' # [withCompletedAt (o_now e st + d)] @ [WithStepName []]))), st)"
        using assms(7,8) False by (intro deadline_step_replayed [OF assms(1) refl sleep_options(1) assms(2,4)]) (auto simp: sleep_step_id)
      with step have "ms' = ms" "st1 = st" by simp_all
      then show ?thesis using assms(5,8) False by simp
    qed
    have "recorded_deadline e ws sid (fst st') ms"
      if "operation_outputs (fst st') = operation_outputs (fst st1)" using one that by (simp add: recorded_deadline_def)
    with Sleep_after_deadline [OF assms(1,3) one [THEN conjunct2, THEN conjunct2] step assms(6)] one show ?thesis
      by (auto split: control.splits option.splits)
  qed
qed

text \<open>A toy instance: integers in unary, and a clock that is the world.\<close>

definition int_type :: "int go_type" where
  "int_type = \<lparr>IsValid = (\<lambda>_. True), Kind = (\<lambda>_. OtherKind), IsNil = (\<lambda>_. False), isOfType = (\<lambda>_. True), ZeroValue = 0,
     json_Marshal = (\<lambda>i. Inr (if 0 \<le> i then replicate (nat i) CHR ''1'' else CHR ''-'' # replicate (nat (- i)) CHR ''1'')),
     json_Unmarshal = (\<lambda>s. Inr (case s of [] \<Rightarrow> 0 | ch # cs \<Rightarrow> if ch = CHR ''-'' then - int (length cs) else int (length s))),
     gob_Encode = (\<lambda>_. Inl (ErrorText ''unregistered'')), gob_Decode = (\<lambda>_. Inl (ErrorText ''unregistered''))\<rparr>"

definition clock_env :: "(int, int) op_env" where
  "clock_env = \<lparr>o_ctx = \<lparr>c_systemDB = sample_sysdb_ctx, c_executorID = ''e'', c_serializer = None, c_any = int_type,
       c_codecs = sample_error_lib, c_typeName = (\<lambda>_. ''int64''), c_asRaw = (\<lambda>_. None), c_asString = (\<lambda>_. None),
       c_now = snd, c_Err = (\<lambda>_. None), c_Cause = (\<lambda>_. None), c_wait = (\<lambda>d (db, t). (True, (db, t + max 0 d))), c_rand = (\<lambda>_. 0)\<rparr>,
     o_retryable = (\<lambda>_. False), o_threshold = 0, o_EnablePatching = True, o_others = id, o_uuid = (\<lambda>_. ''u''),
     o_int64 = \<lparr>bx_type = int_type, bx_wrap = id, bx_unwrap = id\<rparr>,
     o_raw = (\<lambda>_. 0), o_string = (\<lambda>_. 0), o_duration = (\<lambda>_. ''d''), o_subscribed = (\<lambda>_ _. True),
     o_select = (\<lambda>_ st. (WaitDone, st)), o_queryErr = (\<lambda>_. None)\<rparr>"

lemma replicate_eq_Cons: "replicate n a = b # xs \<longleftrightarrow> (\<exists>m. n = Suc m \<and> b = a \<and> xs = replicate m a)"
  by (cases n) auto

lemma clock_env_ok: "int64_ok clock_env" "timer_ok clock_env"
  by (auto simp: int64_ok_def timer_ok_def clock_env_def same_universe_def custom_contract_def json_faithful_def isNilValue_def
      int_type_def replicate_eq_Cons split: list.splits)

definition sample_slept :: sysdb where
  "sample_slept = sample_pending\<lparr>operation_outputs := [\<lparr>oo_workflow_uuid = ''a'', oo_function_id = 0, oo_function_name = ''DBOS.sleep'',
     oo_output = Some (EncodeToString ''11''), oo_error = None, oo_child_workflow_id = None, oo_started_at_epoch_ms = None,
     oo_completed_at_epoch_ms = None, oo_serialization = Some ''DBOS_JSON'', oo_application_name = None\<rparr>]\<rparr>"

theorem durable_sleep_deadline_witness:
  "\<exists>wso t. Sleep clock_env (Some sample_workflow) 100 (sample_slept, 0) = Some (Returned (2000000, None), wso, (sample_slept, t)) \<and> 2000000 \<le> t"
proof -
  have w: "\<not> isWithinStep sample_workflow" "workflowID sample_workflow = ''a''" "stepID sample_workflow = - 1" by (simp_all add: sample_workflow_def)
  have op: "find_op ''a'' 0 sample_slept = Some (hd (operation_outputs sample_slept))" by (simp add: sample_slept_def)
  have rec: "recorded_deadline clock_env sample_workflow 0 sample_slept 2"
    by (simp add: recorded_deadline_def w op) (simp add: sample_slept_def txn_encoder_def resolveEncoder_def newJSONSerializer_def
        clock_env_def int_type_def isNilValue_def sample_workflow_def numeral_2_eq_2)
  have run: "runnable ''a'' sample_slept" by (simp add: runnable_def sample_slept_def sample_pending_def default_wf_row_def)
  have inv: "db_inv sample_slept"
    by (simp add: sample_slept_def sample_pending_def empty_sysdb_def default_wf_row_def db_inv_def pk_ok_def fk_ok_def row_inv_def dedup_unique_def dedup_slot_def)
  obtain wso where "deadline_step clock_env sample_workflow (\<lambda>_. 0 + 100) [withCompletedAt (0 + 100)] (sample_slept, 0) =
      Some ((2, None), wso, (sample_slept, 0))"
    using deadline_step_replayed [OF w(1) refl sleep_options(1) clock_env_ok(1), of "(sample_slept, 0)" 100 2] rec run w
    by (simp add: sleep_step_id)
  then have "Sleep clock_env (Some sample_workflow) 100 (sample_slept, 0) = Some (Returned (2000000, None), wso, (sample_slept, 2000000))"
    using w(1) by (simp add: Sleep_def Let_def clock_env_def time_of_ms_def)
  moreover from durable_sleep_deadline [OF w(1) clock_env_ok _ _ this, of 0 2] have "2000000 \<le> (2000000 :: int)"
    using rec run inv w op by (simp add: clock_env_def time_of_ms_def)
  ultimately show ?thesis by blast
qed

section \<open>A message is consumed with the checkpoint of its receive\<close>

text \<open>The type assertion to \<^verbatim>\<open>rawStepOutput\<close> recovers a raw output, and the timeout of a receive is not a database error.\<close>

definition recv_env_ok :: "('v, 'w) op_env \<Rightarrow> bool" where
  "recv_env_ok e = (timer_ok e \<and> (\<forall>x. c_asRaw (o_ctx e) (o_raw e x) = Some x) \<and>
     (\<forall>x. o_retryable e x \<longrightarrow> \<not> errors_Is ErrorCodeTimeout x))"

lemma captured_sel [simp]:
  "workflowID (captured_workflow ws) = workflowID ws" "isWithinStep (captured_workflow ws) = isWithinStep ws"
  "isPortableWorkflow (captured_workflow ws) = isPortableWorkflow ws" "stepID (captured_workflow ws) = stepID ws"
  "c_any (captured_ctx c) = c_any c" "c_serializer (captured_ctx c) = c_serializer c" "c_asRaw (captured_ctx c) = c_asRaw c"
  "c_systemDB (captured_ctx c) = c_systemDB c" "c_codecs (captured_ctx c) = c_codecs c"
  by (simp_all add: captured_workflow_def captured_ctx_def)

lemma captured_waits:
  assumes "timer_ok e"
  shows "fst (snd (c_wait (captured_ctx (o_ctx e)) d s)) = fst s"
    and "c_wait (captured_ctx (o_ctx e)) d s = (False, s') \<Longrightarrow> c_Err (captured_ctx (o_ctx e)) s' \<noteq> None"
  using timer_waits [OF assms, of d "(fst s, fst (snd s))"]
  by (auto simp: captured_ctx_def below_def split: prod.splits)

definition recv_options :: "('v, 'w) op_env \<Rightarrow> 'w workflowState \<Rightarrow> int \<Rightarrow> GateSpec option \<Rightarrow> 'w captured StepOption list" where
  "recv_options e ws sid gate = [WithStepName ''DBOS.recv'', withNextStepID sid] @
     (case gate of None \<Rightarrow> [] | Some g \<Rightarrow> [withPostStepInTxn (Some (gate_post e ws g))])"

lemma recv_options_sel [simp]:
  "stepName (parse_options (recv_options e ws sid gate)) = ''DBOS.recv''"
  "maxRetries (parse_options (recv_options e ws sid gate)) = 0"
  "step_id w (parse_options (recv_options e ws sid gate)) = sid"
  "postStepInTxn (parse_options (recv_options e ws sid gate)) = map_option (gate_post e ws) gate"
  by (cases gate; simp add: recv_options_def parse_options_def WithStepName_def withNextStepID_def withPostStepInTxn_def
      zero_stepOptions_def setDefaults_def step_id_def Let_def)+

lemma consume_keeps [simp]:
  "ConsumeMessageWithUUID wid topic db = (x, db') \<Longrightarrow> operation_outputs db' = operation_outputs db"
  by (auto simp: ConsumeMessageWithUUID_def split: list.splits)

lemma record_keeps:
  "RecordOperationResult s inp db = Inr ((), db') \<Longrightarrow> notifications db' = notifications db \<and> workflow_gates db' = workflow_gates db"
  by (auto simp: RecordOperationResult_def map_sum_def refreshExecutorID_def update_wf_def split: option.splits if_splits sum.splits)

lemma recv_txn_effect:
  fixes e :: "('v, 'w) op_env"
  assumes "\<not> isWithinStep ws" and "recv_env_ok e" and "find_op (workflowID ws) sid (fst st) = None"
    and "recv_txn e ws topic timeout sid gate timedOut st = Some ((Some rr, None), st')"
    and "ConsumeMessageWithUUID (workflowID ws) topic (fst st) = ((m, ser, uuid), db1)"
    and out: "out = o_raw e (m, serialization_or (Name (ctx_encoder e (Some ws))) ser)"
  obtains w k where "rr = \<lparr>rv_message = m, rv_serialization = serialization_or (Name (ctx_encoder e (Some ws))) ser, rv_deliveryID = snd k\<rparr>"
    "txn_effect (captured_ctx (o_ctx e)) (captured_workflow ws) (parse_options (recv_options e ws sid gate))
       (recv_body e ws topic timeout timedOut) (fst st) (fst st', w, k) out None"
proof -
  let ?c = "captured_ctx (o_ctx e)" and ?ws = "captured_workflow ws"
  obtain res wso w k where run: "dbosContext_runAsTxn ?c (o_retryable e) (Some ?ws) (Some (recv_body e ws topic timeout timedOut))
      (recv_options e ws sid gate) (fst st, snd st, None, []) = Some (res, wso, (fst st', w, k))"
    and oc: "recv_outcome e (workflowID ws) (snd k) res = (Some rr, None)"
    using assms(4) by (cases st) (auto simp: recv_txn_def recv_options_def)
  obtain r eo where res: "res = (r, eo)" by fastforce
  have eo: "eo = None" using oc res by (auto simp: recv_outcome_def split: step_result.splits option.splits prod.splits)
  have body: "recv_body e ws topic timeout timedOut (fst st, x) =
      ((out, if m = None \<and> timedOut then Some (NewTimeoutError (workflowID ws) ''DBOS.recv'' (''no message received within '' @ o_duration e timeout) (Some DeadlineExceeded)) else None),
       (db1, fst x, uuid, snd (snd x)))" for x
    by (cases x) (simp add: recv_body_def assms(5) out Let_def)
  have nr: "\<not> o_retryable e x" if "recv_body e ws topic timeout timedOut s = ((v, Some x), s')" for s v x s'
  proof -
    have "x = NewTimeoutError (workflowID ws) ''DBOS.recv'' (''no message received within '' @ o_duration e timeout) (Some DeadlineExceeded)"
      using that by (cases s) (auto simp: recv_body_def Let_def split: prod.splits if_splits)
    then have "errors_Is ErrorCodeTimeout x" by (simp add: NewTimeoutError_def withCause_def Let_def)
    then show ?thesis using assms(2) by (auto simp: recv_env_ok_def)
  qed
  note tw = captured_waits [OF assms(2) [unfolded recv_env_ok_def, THEN conjunct1]]
  let ?so = "parse_options (recv_options e ws sid gate)"
  have pre: "\<not> isWithinStep ?ws" "maxRetries ?so \<le> 0" "find_op (workflowID ?ws) (step_id ?ws ?so) (fst (fst st, snd st, None :: string option, [] :: string)) = None"
    using assms(1,3) by simp_all
  obtain s v sb where s: "fst s = fst (fst st, snd st, None :: string option, [] :: string)" "recv_body e ws topic timeout timedOut s = ((v, None), sb)"
    "r = Direct v" "txn_effect ?c ?ws ?so (recv_body e ws topic timeout timedOut) (fst (fst st, snd st, None :: string option, [] :: string)) (fst st', w, k) v None"
    by (rule txn_single_run [OF pre(1) refl pre(2) _ run [unfolded res eo] _ _ pre(3)])
      (erule nr, rule tw(1), erule tw(2), blast)
  have "v = out" using s(1,2) body by (cases s) auto
  then show thesis using that [of k w] s(3,4) oc res eo assms(2) unfolding out by (auto simp: recv_outcome_def recv_env_ok_def)
qed

text \<open>
  C16: A receive takes its message, closes its gate and records its result in one transaction. The result that the workflow sees
  is the oldest unconsumed message of the topic, which is consumed; the checkpoint holds the same message; a gate is closed by the
  same commit and the delivery it reports is that of the message. Every replay returns the message from the
  checkpoint without touching the database, but it no longer knows the delivery: the id it returns is empty.
\<close>

theorem recv_consumes_with_checkpoint:
  assumes "\<not> isWithinStep ws" and "recv_env_ok e" and "find_op (workflowID ws) sid (fst st) = None"
    and "recv_txn e ws topic timeout sid gate timedOut st = Some ((Some rr, None), st')"
    and "ConsumeMessageWithUUID (workflowID ws) topic (fst st) = ((m, ser, uuid), db1)"
  shows "rv_message rr = m \<and> rv_serialization rr = serialization_or (Name (ctx_encoder e (Some ws))) ser \<and>
    notifications (fst st') = notifications db1 \<and>
    (\<exists>r. find_op (workflowID ws) sid (fst st') = Some r \<and> oo_function_name r = ''DBOS.recv'' \<and> oo_output r = m \<and>
       oo_serialization r = Some (rv_serialization rr) \<and> oo_error r = None) \<and>
    (\<forall>g. gate = Some g \<longrightarrow> (\<exists>now. workflow_gates (fst st') = workflow_gates (snd (CloseGate now (workflowID ws) (gs_Name g) uuid db1)) \<and>
       rv_deliveryID rr = fst (CloseGate now (workflowID ws) (gs_Name g) uuid db1))) \<and>
    (\<forall>db2 w2 topic' timeout' sleepID gate'. runnable (workflowID ws) db2 \<and>
       find_op (workflowID ws) sid db2 = find_op (workflowID ws) sid (fst st') \<longrightarrow>
       recvWithGate e ws topic' timeout' sid sleepID gate' (db2, w2) = Some (Returned (Some (rr\<lparr>rv_deliveryID := []\<rparr>), None), (db2, w2)))"
proof -
  let ?c = "captured_ctx (o_ctx e)" and ?ws = "captured_workflow ws" and ?so = "parse_options (recv_options e ws sid gate)"
  let ?ser = "serialization_or (Name (ctx_encoder e (Some ws))) ser"
  let ?body = "recv_body e ws topic timeout timedOut"
  obtain w k where rr: "rr = \<lparr>rv_message = m, rv_serialization = ?ser, rv_deliveryID = snd k\<rparr>"
    and eff: "txn_effect ?c ?ws ?so ?body (fst st) (fst st', w, k) (o_raw e (m, ?ser)) None"
    using recv_txn_effect [OF assms refl] by blast
  have body: "db' = db1 \<and> uuid' = uuid" if "?body (fst st, x) = (y, (db', w', uuid', did))" for x y db' w' uuid' did
    using that assms(5) by (cases x) (auto simp: recv_body_def Let_def)
  have keeps: "operation_outputs db1 = operation_outputs (fst st)" using consume_keeps [OF assms(5)] .
  have fresh: "find_op (workflowID ?ws) (step_id ?ws ?so) d = None"
    if "?body (fst st, x) = ((o_raw e (m, ?ser), None), sb)"
      "(case postStepInTxn ?so of None \<Rightarrow> Inr ((), sb) | Some post \<Rightarrow> post sb) = Inr ((), (d, w1))" for x sb d w1
    using that body assms(3) keeps by (cases sb) (auto simp: gate_post_def CloseGate_def Let_def split: option.splits prod.splits)
  obtain r enc sr where "find_op (workflowID ?ws) (step_id ?ws ?so) (fst (fst st', w, k)) = Some r" "oo_function_name r = stepName ?so"
    "txn_encode ?c (txn_encoder ?c ?ws) (o_raw e (m, ?ser)) = Inr (enc, sr)" "oo_output r = enc" "oo_serialization r = Some sr" "oo_error r = None"
    by (rule txn_effect_row [OF eff]) (erule (1) fresh, blast)
  then have r: "find_op (workflowID ws) sid (fst st') = Some r" "oo_function_name r = ''DBOS.recv''" "oo_output r = m"
    "oo_serialization r = Some ?ser" "oo_error r = None"
    using assms(2) by (auto simp: recv_env_ok_def txn_encode_def)
  have gates: "notifications (fst st') = notifications db1 \<and> (\<forall>g. gate = Some g \<longrightarrow>
      (\<exists>now. workflow_gates (fst st') = workflow_gates (snd (CloseGate now (workflowID ws) (gs_Name g) uuid db1)) \<and>
        snd k = fst (CloseGate now (workflowID ws) (gs_Name g) uuid db1)))"
  proof -
    obtain x sb db2 inp where b: "?body (fst st, x) = ((o_raw e (m, ?ser), None), sb)"
      "(case gate of None \<Rightarrow> Inr ((), sb) | Some g \<Rightarrow> gate_post e ws g sb) = Inr ((), (db2, w, k))"
      and rec: "RecordOperationResult (c_systemDB (o_ctx e)) inp db2 = Inr ((), fst st')"
      using eff by (cases gate; simp add: txn_effect_def) blast+
    obtain w0 did where "sb = (db1, w0, uuid, did)" using body b(1) by (cases sb) auto
    then show ?thesis using b(2) record_keeps [OF rec]
      by (auto simp: gate_post_def CloseGate_def Let_def split: option.splits prod.splits)
  qed
  have "recvWithGate e ws topic' timeout' sid sleepID gate' (db2, w2) = Some (Returned (Some (rr\<lparr>rv_deliveryID := []\<rparr>), None), (db2, w2))"
    if "runnable (workflowID ws) db2" "find_op (workflowID ws) sid db2 = find_op (workflowID ws) sid (fst st')" for db2 w2 topic' timeout' sleepID gate'
    using check_recorded [OF that(1) _ r(2)] that(2) r
    by (simp add: recvWithGate_def rr deserializeWorkflowError_def nullif_empty_def)
  then show ?thesis using rr r gates by auto
qed

definition raw_type :: "(string option \<times> string) go_type" where
  "raw_type = \<lparr>IsValid = (\<lambda>_. True), Kind = (\<lambda>_. OtherKind), IsNil = (\<lambda>_. False), isOfType = (\<lambda>_. True), ZeroValue = (None, []),
     json_Marshal = (\<lambda>_. Inl (ErrorText ''raw'')), json_Unmarshal = (\<lambda>_. Inl (ErrorText ''raw'')),
     gob_Encode = (\<lambda>_. Inl (ErrorText ''unregistered'')), gob_Decode = (\<lambda>_. Inl (ErrorText ''unregistered''))\<rparr>"

definition raw_env :: "(string option \<times> string, int) op_env" where
  "raw_env = \<lparr>o_ctx = \<lparr>c_systemDB = sample_sysdb_ctx, c_executorID = ''e'', c_serializer = None, c_any = raw_type,
       c_codecs = sample_error_lib, c_typeName = (\<lambda>_. ''raw''), c_asRaw = Some, c_asString = (\<lambda>_. None),
       c_now = snd, c_Err = (\<lambda>_. None), c_Cause = (\<lambda>_. None), c_wait = (\<lambda>d (db, t). (True, (db, t + max 0 d))), c_rand = (\<lambda>_. 0)\<rparr>,
     o_retryable = (\<lambda>_. False), o_threshold = 0, o_EnablePatching = True, o_others = id, o_uuid = (\<lambda>_. ''u''),
     o_int64 = \<lparr>bx_type = raw_type, bx_wrap = (\<lambda>_. (None, [])), bx_unwrap = (\<lambda>_. 0)\<rparr>,
     o_raw = id, o_string = (\<lambda>_. (None, [])), o_duration = (\<lambda>_. ''d''), o_subscribed = (\<lambda>_ _. True),
     o_select = (\<lambda>_ st. (WaitDone, st)), o_queryErr = (\<lambda>_. None)\<rparr>"

lemma raw_env_ok: "recv_env_ok raw_env"
  by (auto simp: recv_env_ok_def timer_ok_def raw_env_def)

lemma sample_inbox [simp]:
  "find_op wid fid (sample_arrival sample_pending) = None"
  "find_wf ''a'' (sample_arrival sample_pending) = Some (default_wf_row ''a'' WorkflowStatusPending 0)"
  "runnable ''a'' (sample_arrival sample_pending)"
  by (simp_all add: sample_arrival_def sample_pending_def empty_sysdb_def runnable_def default_wf_row_def)

lemma sample_consume:
  "\<exists>db1. ConsumeMessageWithUUID ''a'' ''t'' (sample_arrival sample_pending) = ((Some ''m'', None, Some ''u''), db1) \<and>
     find_wf ''a'' db1 = Some (default_wf_row ''a'' WorkflowStatusPending 0) \<and> operation_outputs db1 = []"
  by (simp add: ConsumeMessageWithUUID_def pending_messages_def limit_rows_1 order_by_def sample_arrival_def sample_pending_def empty_sysdb_def)

lemma sample_recv:
  "\<exists>rr st'. recv_txn raw_env sample_workflow ''t'' 5 0 None False (sample_arrival sample_pending, 0) = Some ((Some rr, None), st') \<and>
     runnable ''a'' (fst st')"
proof -
  let ?e = "raw_env" and ?c = "captured_ctx (o_ctx raw_env)" and ?ws = "captured_workflow sample_workflow" and ?db = "sample_arrival sample_pending"
  let ?so = "parse_options (recv_options raw_env sample_workflow 0 None)"
  let ?body = "recv_body raw_env sample_workflow ''t'' 5 False"
  let ?st = "(?db, 0 :: int, None :: string option, [] :: string)"
  obtain db1 where cons: "ConsumeMessageWithUUID ''a'' ''t'' ?db = ((Some ''m'', None, Some ''u''), db1)"
    "find_wf ''a'' db1 = Some (default_wf_row ''a'' WorkflowStatusPending 0)" "operation_outputs db1 = []"
    using sample_consume by blast
  have w: "\<not> isWithinStep ?ws" "workflowID ?ws = ''a''" "isPortableWorkflow ?ws = False" "workflowID sample_workflow = ''a''"
    by (simp_all add: sample_workflow_def)
  have b: "in_savepoint ?body ?st = (((Some ''m'', ''DBOS_JSON''), None), (db1, 0, Some ''u'', []))"
    using cons by (simp add: in_savepoint_def recv_body_def sample_workflow_def raw_env_def serialization_or_def ctx_encoder_def resolveEncoder_def
        newJSONSerializer_def Let_def)
  obtain db2 where cs: "commit_step ?c False (step_state ?ws ?so\<lparr>isWithinTransaction := True\<rparr>) ?so (c_now ?c ?st) (Some ''m'', ''DBOS_JSON'') None ?st (db1, 0, Some ''u'', []) =
      ((Direct (Some ''m'', ''DBOS_JSON''), None), (db2, 0, Some ''u'', []))" "runnable ''a'' db2"
  proof -
    have enc: "txn_encode ?c (resolveEncoder (c_any ?c) False (c_serializer ?c)) (Some ''m'', ''DBOS_JSON'') = Inr (Some ''m'', ''DBOS_JSON'')"
      by (simp add: txn_encode_def raw_env_def captured_ctx_def)
    have alive: "\<not> isWorkflowCtxCancelled (step_state ?ws ?so\<lparr>isWithinTransaction := True\<rparr>) st" for st
      by (simp add: isWorkflowCtxCancelled_def sample_workflow_def captured_workflow_def)
    show ?thesis using that cons(2,3) enc alive
      by (simp add: commit_step_def RecordOperationResult_def txn_input_def Let_def w runnable_def default_wf_row_def
          refreshExecutorID_def refresh.find split: option.split)
  qed
  have "txn_attempt ?c False (step_state ?ws ?so\<lparr>isWithinTransaction := True\<rparr>) ?so (c_now ?c ?st) ?body ?st =
      Some ((Direct (Some ''m'', ''DBOS_JSON''), None), (db2, 0, Some ''u'', []))"
    using cs execute_once [where runOnce = "in_savepoint ?body", OF b] w by (simp add: txn_attempt_def check_fresh [THEN iffD2])
  then have "RetryWithResult ?c (\<lambda>_. False) NilResult (txn_attempt ?c False (step_state ?ws ?so\<lparr>isWithinTransaction := True\<rparr>) ?so (c_now ?c ?st) ?body) ?st =
      Some ((Direct (Some ''m'', ''DBOS_JSON''), None), (db2, 0, Some ''u'', []))"
    by (simp add: RetryWithResult_def) (subst RetryLoop.simps, simp)
  then have "dbosContext_runAsTxn ?c (\<lambda>_. False) (Some ?ws) (Some ?body) (recv_options raw_env sample_workflow 0 None) ?st =
      Some ((Direct (Some ''m'', ''DBOS_JSON''), None), Some (step_counted ?ws ?so), (db2, 0, Some ''u'', []))"
    using w by (simp add: dbosContext_runAsTxn_def prepare_in_workflow [OF w(1)] Let_def)
  then have "recv_txn raw_env sample_workflow ''t'' 5 0 None False (?db, 0) =
      Some ((Some \<lparr>rv_message = Some ''m'', rv_serialization = ''DBOS_JSON'', rv_deliveryID = []\<rparr>, None), (db2, 0))"
    by (simp add: recv_txn_def recv_options_def recv_outcome_def) (simp add: raw_env_def)
  then show ?thesis using cs(2) by auto
qed

theorem recv_consumes_with_checkpoint_witness:
  "\<exists>rr st' r. recv_txn raw_env sample_workflow ''t'' 5 0 None False (sample_arrival sample_pending, 0) = Some ((Some rr, None), st') \<and>
     rv_message rr = Some ''m'' \<and> find_op ''a'' 0 (fst st') = Some r \<and> oo_output r = Some ''m'' \<and>
     recvWithGate raw_env sample_workflow ''t'' 5 0 1 None st' = Some (Returned (Some (rr\<lparr>rv_deliveryID := []\<rparr>), None), st')"
proof -
  obtain rr st' where run: "recv_txn raw_env sample_workflow ''t'' 5 0 None False (sample_arrival sample_pending, 0) = Some ((Some rr, None), st')"
    "runnable ''a'' (fst st')" using sample_recv by blast
  obtain db1 where cons: "ConsumeMessageWithUUID ''a'' ''t'' (sample_arrival sample_pending) = ((Some ''m'', None, Some ''u''), db1)"
    using sample_consume by blast
  have w: "\<not> isWithinStep sample_workflow" "workflowID sample_workflow = ''a''" by (simp_all add: sample_workflow_def)
  have fresh: "find_op (workflowID sample_workflow) 0 (fst (sample_arrival sample_pending, 0 :: int)) = None" by simp
  have cons': "ConsumeMessageWithUUID (workflowID sample_workflow) ''t'' (fst (sample_arrival sample_pending, 0 :: int)) = ((Some ''m'', None, Some ''u''), db1)"
    using cons w by simp
  note once = recv_consumes_with_checkpoint [OF w(1) raw_env_ok fresh run(1) cons']
  have "recvWithGate raw_env sample_workflow ''t'' 5 0 1 None (fst st', snd st') = Some (Returned (Some (rr\<lparr>rv_deliveryID := []\<rparr>), None), (fst st', snd st'))"
    by (rule once [THEN conjunct2, THEN conjunct2, THEN conjunct2, THEN conjunct2, THEN conjunct2, rule_format]) (simp add: w run(2))
  with once run(1) w show ?thesis by auto
qed

section \<open>A patch decision is stable\<close>

text \<open>
  C21: A workflow that has passed a patch point takes the same branch with the same step numbers whenever it is replayed, and keeps
  its step numbers when the code is changed again to deprecate the patch: as long as the row at the patch point is the one the
  first pass left, \<^verbatim>\<open>Patch\<close> repeats its answer without writing and \<^verbatim>\<open>DeprecatePatch\<close> advances the step counter as \<^verbatim>\<open>Patch\<close>
  did.
\<close>

theorem patch_decision_stable:
  assumes "dbosContext_Patch e (Some ws) name db = ((patched, None), ws', db')"
    and "find_op (workflowID ws) (stepID ws + 1) db2 = find_op (workflowID ws) (stepID ws + 1) db'"
  shows "dbosContext_Patch e (Some ws) name db2 = ((patched, None), ws', db2) \<and> DeprecatePatch e (Some ws) name db2 = (None, ws') \<and>
    (patched \<longleftrightarrow> map_option oo_function_name (find_op (workflowID ws) (stepID ws + 1) db') = Some (patchPrefix @ name))"
proof (cases "patch_guard e ''patch'' ''Patch'' (Some ws) name")
  case (Inr ws1)
  moreover from Inr have "ws1 = ws" and "patch_guard e ''deprecate patch'' ''DeprecatePatch'' (Some ws) name = Inr ws"
    by (auto simp: patch_guard_def split: if_splits)
  ultimately show ?thesis
    using assms by (auto simp: dbosContext_Patch_def DeprecatePatch_def Patch_def DoesPatchExists_def patch_row_def lookup_by_append split: option.splits if_splits)
qed (use assms in \<open>auto simp: dbosContext_Patch_def\<close>)

theorem patch_decision_stable_witness:
  "\<exists>db'. dbosContext_Patch raw_env (Some sample_workflow) ''p'' sample_pending = ((True, None), Some (sample_workflow\<lparr>stepID := 0\<rparr>), db') \<and>
     dbosContext_Patch raw_env (Some sample_workflow) ''p'' db' = ((True, None), Some (sample_workflow\<lparr>stepID := 0\<rparr>), db') \<and>
     DeprecatePatch raw_env (Some sample_workflow) ''p'' db' = (None, Some (sample_workflow\<lparr>stepID := 0\<rparr>))"
proof -
  obtain db' where "dbosContext_Patch raw_env (Some sample_workflow) ''p'' sample_pending = ((True, None), Some (sample_workflow\<lparr>stepID := 0\<rparr>), db')"
    by (simp add: dbosContext_Patch_def patch_guard_def Patch_def DoesPatchExists_def raw_env_def sample_workflow_def nextStepID_def
        sample_pending_def empty_sysdb_def)
  then show ?thesis using patch_decision_stable by blast
qed

end
