(* ===== verification/Start.thy ===== *)
theory Start
  imports Ops Functions Registry "HOL-Library.Word"
begin

text \<open>
  Starting and enqueueing workflows (\<^verbatim>\<open>RunWorkflow\<close> and \<^verbatim>\<open>Enqueue\<close> of \<^verbatim>\<open>src/dbos/workflow.go\<close>) up to the decision to
  execute: the options and their validation, the status row that is inserted, the transaction that inserts it together with the
  record of a child, and the handling of a taken deduplication id. The execution of the workflow function is not part of it.
\<close>

section \<open>Options\<close>

datatype DeduplicationPolicy = DeduplicationPolicyReject | DeduplicationPolicyReturnExisting

text \<open>
  \<open>wo_Priority\<close> is the 64-bit \<^verbatim>\<open>uint\<close>, \<open>wo_runInstance\<close> the config name of the instance.
\<close>

record workflowOptions =
  wo_WorkflowName :: string
  wo_WorkflowID :: string
  wo_queue :: "workflowQueue option"
  wo_ApplicationVersion :: string
  wo_DeduplicationID :: string
  wo_DeduplicationPolicy :: DeduplicationPolicy
  wo_Priority :: "64 word"
  wo_AuthenticatedUser :: string
  wo_AssumedRole :: string
  wo_AuthenticatedRoles :: "string list"
  wo_QueuePartitionKey :: string
  wo_DelayDuration :: duration
  wo_WorkflowAttributes :: "(string \<times> string) list"
  wo_isPortableWorkflow :: bool
  wo_runInstance :: "string option"
  wo_err :: "go_error option"

type_synonym WorkflowOption = "workflowOptions \<Rightarrow> workflowOptions"

definition WithWorkflowID :: "string \<Rightarrow> WorkflowOption" where
  "WithWorkflowID wid p = p\<lparr>wo_WorkflowID := wid\<rparr>"

definition WithRunInstance :: "string \<Rightarrow> WorkflowOption" where
  "WithRunInstance configName p = p\<lparr>wo_runInstance := Some configName\<rparr>"

definition WithQueue :: "workflowQueue option \<Rightarrow> WorkflowOption" where
  "WithQueue queue p = (case queue of
     None \<Rightarrow> p\<lparr>wo_err := Some (Join ((case wo_err p of None \<Rightarrow> [] | Some err \<Rightarrow> [err]) @ [NewInvalidOptionError ''WithQueue: queue cannot be nil'']))\<rparr>
   | Some q \<Rightarrow> p\<lparr>wo_queue := Some q\<rparr>)"

definition WithApplicationVersion :: "string \<Rightarrow> WorkflowOption" where
  "WithApplicationVersion version p = p\<lparr>wo_ApplicationVersion := version\<rparr>"

definition WithDeduplicationID :: "string \<Rightarrow> WorkflowOption" where
  "WithDeduplicationID i p = p\<lparr>wo_DeduplicationID := i\<rparr>"

definition WithDeduplicationPolicy :: "DeduplicationPolicy \<Rightarrow> WorkflowOption" where
  "WithDeduplicationPolicy policy p = p\<lparr>wo_DeduplicationPolicy := policy\<rparr>"

definition WithPriority :: "64 word \<Rightarrow> WorkflowOption" where
  "WithPriority priority p = p\<lparr>wo_Priority := priority\<rparr>"

definition WithQueuePartitionKey :: "string \<Rightarrow> WorkflowOption" where
  "WithQueuePartitionKey key p = p\<lparr>wo_QueuePartitionKey := key\<rparr>"

definition WithWorkflowAttributes :: "(string \<times> string) list \<Rightarrow> WorkflowOption" where
  "WithWorkflowAttributes attributes p = p\<lparr>wo_WorkflowAttributes := attributes\<rparr>"

definition WithDelay :: "duration \<Rightarrow> WorkflowOption" where
  "WithDelay delay p = p\<lparr>wo_DelayDuration := delay\<rparr>"

definition withWorkflowName :: "string \<Rightarrow> WorkflowOption" where
  "withWorkflowName name p = (if wo_WorkflowName p = [] then p\<lparr>wo_WorkflowName := name\<rparr> else p)"

definition WithPortableWorkflow :: WorkflowOption where
  "WithPortableWorkflow p = p\<lparr>wo_isPortableWorkflow := True\<rparr>"

definition WithAuthenticatedUser :: "string \<Rightarrow> WorkflowOption" where
  "WithAuthenticatedUser user p = p\<lparr>wo_AuthenticatedUser := user\<rparr>"

definition WithAssumedRole :: "string \<Rightarrow> WorkflowOption" where
  "WithAssumedRole role p = p\<lparr>wo_AssumedRole := role\<rparr>"

definition WithAuthenticatedRoles :: "string list \<Rightarrow> WorkflowOption" where
  "WithAuthenticatedRoles roles p = p\<lparr>wo_AuthenticatedRoles := roles\<rparr>"

definition zero_workflowOptions :: workflowOptions where
  "zero_workflowOptions = \<lparr>wo_WorkflowName = [], wo_WorkflowID = [], wo_queue = None, wo_ApplicationVersion = [], wo_DeduplicationID = [],
     wo_DeduplicationPolicy = DeduplicationPolicyReject, wo_Priority = 0, wo_AuthenticatedUser = [], wo_AssumedRole = [],
     wo_AuthenticatedRoles = [], wo_QueuePartitionKey = [], wo_DelayDuration = 0, wo_WorkflowAttributes = [],
     wo_isPortableWorkflow = False, wo_runInstance = None, wo_err = None\<rparr>"

section \<open>Starting a workflow\<close>

text \<open>
  The context of a start beyond that of an operation: \<open>r_active\<close> is the set of ids of \<^verbatim>\<open>activeWorkflowIDs\<close>, kept in the world,
  \<open>r_Deadline\<close> the deadline of the context, \<open>r_xid\<close> the fresh owner id, \<open>r_isArgs\<close> whether an input is a \<^verbatim>\<open>PortableWorkflowArgs\<close>,
  \<open>r_string\<close> how a \<^verbatim>\<open>string\<close> is the value of a step.
\<close>

record ('v, 'w, 'f) run_env =
  r_op :: "('v, 'w) op_env"
  r_registry :: "'f wf_registry"
  r_applicationVersion :: string
  r_applicationID :: string
  r_isClient :: bool
  r_ownerAppName :: string
  r_Deadline :: gotime
  r_xid :: "'w state \<Rightarrow> string"
  r_isArgs :: "'v \<Rightarrow> bool"
  r_string :: "('v, string) boxed"
  r_active :: "'w \<Rightarrow> string set"
  r_setActive :: "string set \<Rightarrow> 'w \<Rightarrow> 'w"

abbreviation r_ctx :: "('v, 'w, 'f) run_env \<Rightarrow> ('v, 'w) dbosContext" where
  "r_ctx g \<equiv> o_ctx (r_op g)"

abbreviation r_now :: "('v, 'w, 'f) run_env \<Rightarrow> 'w state \<Rightarrow> instant" where
  "r_now g st \<equiv> c_now (r_ctx g) st"

record workflowExecution =
  x_workflowID :: string
  x_queueName :: string
  x_queuePartitionKey :: string
  x_timeout :: duration
  x_deadline :: gotime
  x_authenticatedUser :: string
  x_assumedRole :: string
  x_authenticatedRoles :: "string list"
  x_isPortableWorkflow :: bool

text \<open>A start ends with a polling handle, or with an execution that this process owns.\<close>

datatype run_decision = ReturnHandle string | Execute workflowExecution

text \<open>The checks on the options, in the order of the code.\<close>

definition option_error :: "workflowOptions \<Rightarrow> go_error option" where
  "option_error p =
     (let q = wo_queue p; partitioned = (case q of None \<Rightarrow> False | Some q \<Rightarrow> wq_PartitionQueue q);
          queueName = (case q of None \<Rightarrow> [] | Some q \<Rightarrow> wq_Name q) in
      if 0 < wo_DelayDuration p \<and> q = None then Some (NewInvalidOptionError ''delay provided but queue name is missing'')
      else if wo_QueuePartitionKey p \<noteq> [] \<and> q = None then Some (NewInvalidOptionError ''partition key provided but queue name is missing'')
      else if wo_DeduplicationID p \<noteq> [] \<and> q = None then Some (NewInvalidOptionError ''deduplication ID provided but queue name is missing'')
      else if 0 < wo_Priority p \<and> q = None then Some (NewInvalidOptionError ''priority provided but queue name is missing'')
      else if wo_QueuePartitionKey p \<noteq> [] \<and> wo_DeduplicationID p \<noteq> []
      then Some (NewInvalidOptionError ''partition key and deduplication ID cannot be used together'')
      else if wo_DeduplicationPolicy p \<noteq> DeduplicationPolicyReject \<and> wo_DeduplicationID p = []
      then Some (NewInvalidOptionError ''a deduplication policy requires a deduplication ID'')
      else if wo_DeduplicationPolicy p \<noteq> DeduplicationPolicyReject \<and> q = None
      then Some (NewInvalidOptionError ''a deduplication policy requires a queue name'')
      else if partitioned \<and> wo_QueuePartitionKey p = []
      then Some (NewInvalidOptionError (''queue '' @ queueName @ '' has partitions enabled, but no partition key was provided''))
      else if q \<noteq> None \<and> wo_QueuePartitionKey p \<noteq> [] \<and> \<not> partitioned
      then Some (NewInvalidOptionError (''queue '' @ queueName @ '' is not a partitioned queue, but a partition key was provided''))
      else None)"

text \<open>A child inherits the identity of its parent where the caller gave none.\<close>

definition inherit_auth :: "'w workflowState option \<Rightarrow> workflowOptions \<Rightarrow> workflowOptions" where
  "inherit_auth parent p = (case parent of None \<Rightarrow> p | Some ps \<Rightarrow>
     p\<lparr>wo_AuthenticatedUser := (if wo_AuthenticatedUser p = [] then authenticatedUser ps else wo_AuthenticatedUser p),
       wo_AssumedRole := (if wo_AssumedRole p = [] then assumedRole ps else wo_AssumedRole p),
       wo_AuthenticatedRoles := (if wo_AuthenticatedRoles p = [] then authenticatedRoles ps else wo_AuthenticatedRoles p)\<rparr>)"

definition run_id :: "('v, 'w, 'f) run_env \<Rightarrow> workflowOptions \<Rightarrow> 'w workflowState option \<Rightarrow> 'w state \<Rightarrow> string" where
  "run_id g p parent st =
     (if wo_WorkflowID p \<noteq> [] then wo_WorkflowID p
      else case parent of Some ps \<Rightarrow> workflowID ps @ ''-'' @ show_int (stepID ps) | None \<Rightarrow> o_uuid (r_op g) st)"

text \<open>The time left until the deadline of the context; a deadline in the past leaves a millisecond.\<close>

definition run_timeout :: "gotime \<Rightarrow> instant \<Rightarrow> duration" where
  "run_timeout deadline now = (case deadline of None \<Rightarrow> 0 | Some d \<Rightarrow> if d - now < 0 then Millisecond else d - now)"

definition run_row ::
  "('v, 'w, 'f) run_env \<Rightarrow> 'f WorkflowRegistryEntry \<Rightarrow> workflowOptions \<Rightarrow> 'w workflowState option \<Rightarrow> string \<Rightarrow> string option \<Rightarrow> 'w state \<Rightarrow> WorkflowStatus" where
  "run_row g entry p parent wid encodedInput st =
     (let queueName = (case wo_queue p of None \<Rightarrow> [] | Some q \<Rightarrow> wq_Name q);
          status = (if queueName = [] then WorkflowStatusPending
                    else if 0 < wo_DelayDuration p then WorkflowStatusDelayed else WorkflowStatusEnqueued)
      in zero_WorkflowStatus\<lparr>W_Name := wo_WorkflowName p, W_ClassName := re_ClassName entry, W_ConfigName := nonempty (re_ConfigName entry),
           W_ApplicationVersion := wo_ApplicationVersion p, W_ExecutorID := c_executorID (r_ctx g), W_Status := status, W_ID := wid,
           W_CreatedAt := Some (r_now g st), W_Deadline := (if status = WorkflowStatusPending then r_Deadline g else None),
           W_Timeout := run_timeout (r_Deadline g) (r_now g st), W_Input := encodedInput, W_ApplicationID := r_applicationID g,
           W_QueueName := queueName, W_DeduplicationID := wo_DeduplicationID p, W_Priority := sint (wo_Priority p),
           W_AuthenticatedUser := wo_AuthenticatedUser p, W_AssumedRole := wo_AssumedRole p,
           W_AuthenticatedRoles := wo_AuthenticatedRoles p, W_QueuePartitionKey := wo_QueuePartitionKey p,
           W_DelayUntil := (if 0 < wo_DelayDuration p then Some (r_now g st + wo_DelayDuration p) else None),
           W_Attributes := wo_WorkflowAttributes p,
           W_Serialization := (if wo_isPortableWorkflow p then PortableSerializerName else Name (ctx_encoder (r_op g) parent)),
           W_ParentWorkflowID := (case parent of None \<Rightarrow> [] | Some ps \<Rightarrow> workflowID ps)\<rparr>)"

definition record_child ::
  "('v, 'w, 'f) run_env \<Rightarrow> string \<Rightarrow> instant \<Rightarrow> 'w workflowState option \<Rightarrow> string \<Rightarrow> sysdb \<Rightarrow> (unit \<times> sysdb) res" where
  "record_child g name childStartTime parent child db =
     (case parent of
        None \<Rightarrow> Inr ((), db)
      | Some ps \<Rightarrow>
          map_sum (\<lambda>err. NewWorkflowExecutionError (workflowID ps) (Errorf ''recording child workflow: '' err)) id
            (RecordChildWorkflow (c_systemDB (r_ctx g)) \<lparr>rc_ParentWorkflowID = workflowID ps, rc_ChildWorkflowID = child,
               rc_StepID = stepID ps, rc_StepName = name, rc_StartedAt = Some childStartTime\<rparr> db))"

text \<open>
  The transaction that inserts the status and records the child; an error rolls it back. The flag of the result tells that this
  process does not execute the workflow.
\<close>

definition insertWorkflowStatusTx ::
  "('v, 'w, 'f) run_env \<Rightarrow> WorkflowStatus \<Rightarrow> string \<Rightarrow> instant \<Rightarrow> 'w workflowState option \<Rightarrow> 'w state \<Rightarrow>
   (InsertWorkflowResult \<times> bool) res \<times> 'w state" where
  "insertWorkflowStatusTx g row ownerXID childStartTime parent st =
     (case InsertWorkflowStatus (c_systemDB (r_ctx g)) (r_now g st) \<lparr>in_Status = row, in_Tx = True, in_OwnerXID = Some ownerXID\<rparr> (fst st) of
        Inl err \<Rightarrow> (Inl (NewWorkflowExecutionError (W_ID row) (Errorf ''failed to insert workflow status: '' err)), st)
      | Inr (res, db1) \<Rightarrow>
          (case record_child g (W_Name row) childStartTime parent (W_ID row) db1 of
             Inl err \<Rightarrow> (Inl err, st)
           | Inr (_, db2) \<Rightarrow>
               let shouldSkip = (W_QueueName row \<noteq> [] \<or> res_Status res = WorkflowStatusSuccess \<or> res_Status res = WorkflowStatusError \<or>
                     res_OwnerXID res \<noteq> ownerXID \<or> W_ID row \<in> r_active g (snd st))
               in (Inr (res, shouldSkip), (db2, snd st))))"

definition run_execution :: "workflowOptions \<Rightarrow> string \<Rightarrow> InsertWorkflowResult \<Rightarrow> workflowExecution" where
  "run_execution p wid res = \<lparr>x_workflowID = wid, x_queueName = derefStr (res_QueueName res), x_queuePartitionKey = derefStr (res_QueuePartitionKey res),
     x_timeout = res_Timeout res, x_deadline = res_WorkflowDeadline res, x_authenticatedUser = wo_AuthenticatedUser p,
     x_assumedRole = wo_AssumedRole p, x_authenticatedRoles = wo_AuthenticatedRoles p, x_isPortableWorkflow = wo_isPortableWorkflow p\<rparr>"

text \<open>
  The loop around the transaction: under the return-existing policy a taken deduplication id yields a handle to its holder, and the
  loop goes round when the holder is gone by the time it is looked up, which others may make happen forever.
\<close>

partial_function (option) run_loop ::
  "('v, 'w, 'f) run_env \<Rightarrow> workflowOptions \<Rightarrow> WorkflowStatus \<Rightarrow> string \<Rightarrow> instant \<Rightarrow> 'w workflowState option \<Rightarrow> 'w state \<Rightarrow>
   (run_decision res \<times> 'w state) option" where
  "run_loop g p row ownerXID childStartTime parent st =
     (case insertWorkflowStatusTx g row ownerXID childStartTime parent st of
        (Inr (res, shouldSkip), st1) \<Rightarrow>
          Some (Inr (if shouldSkip then ReturnHandle (W_ID row) else Execute (run_execution p (W_ID row) res)), st1)
      | (Inl err, st1) \<Rightarrow>
          if wo_DeduplicationPolicy p \<noteq> DeduplicationPolicyReturnExisting \<or> \<not> errors_Is ErrorCodeQueueDeduplicated err
          then Some (Inl err, st1)
          else let st2 = o_others (r_op g) st1 in
            (case GetDeduplicatedWorkflow (W_QueueName row) (wo_DeduplicationID p) (fst st2) of
               None \<Rightarrow> run_loop g p row ownerXID childStartTime parent (o_others (r_op g) st2)
             | Some existingID \<Rightarrow>
                 (case record_child g (W_Name row) childStartTime parent existingID (fst st2) of
                    Inl err \<Rightarrow> Some (Inl err, st2)
                  | Inr (_, db3) \<Rightarrow> Some (Inr (ReturnHandle existingID), (db3, snd st2)))))"

definition encode_input :: "('v, 'w, 'f) run_env \<Rightarrow> workflowOptions \<Rightarrow> 'w workflowState option \<Rightarrow> 'v \<Rightarrow> string option res" where
  "encode_input g p parent input =
     (if wo_isPortableWorkflow p
      then map_sum (Errorf ''failed to serialize portable workflow input: '') id (encodePortableArgs (c_any (r_ctx g)) (r_isArgs g) input)
      else map_sum (Errorf ''failed to serialize workflow input: '') id (Encode (ctx_encoder (r_op g) parent) input))"

text \<open>The part of \<^verbatim>\<open>RunWorkflow\<close> after the checks; \<open>parent\<close> is the parent with its step counter advanced.\<close>

definition run_start ::
  "('v, 'w, 'f) run_env \<Rightarrow> 'f WorkflowRegistryEntry \<Rightarrow> workflowOptions \<Rightarrow> 'w workflowState option \<Rightarrow> 'v \<Rightarrow> 'w state \<Rightarrow>
   (run_decision res \<times> 'w state) option" where
  "run_start g entry p0 parent input st =
     (let p = inherit_auth parent p0; wid = run_id g p parent st in
      case (case parent of None \<Rightarrow> Inr None | Some ps \<Rightarrow> CheckChildWorkflow (workflowID ps) (stepID ps) (wo_WorkflowName p) (fst st)) of
        Inl err \<Rightarrow>
          Some (Inl (if errors_Is ErrorCodeUnexpectedStep err then err
                     else NewWorkflowExecutionError (workflowID (the parent)) (Errorf ''checking child workflow: '' err)), st)
      | Inr (Some child) \<Rightarrow> Some (Inr (ReturnHandle child), st)
      | Inr None \<Rightarrow>
          if 9223372036854775807 < wo_Priority p
          then Some (Inl (ErrorText (''priority '' @ show_int (uint (wo_Priority p)) @ '' exceeds maximum allowed value 9223372036854775807'')), st)
          else
            (case encode_input g p parent input of
               Inl err \<Rightarrow> Some (Inl (NewWorkflowExecutionError wid err), st)
             | Inr encodedInput \<Rightarrow>
                 run_loop g p (run_row g entry p parent wid encodedInput st) (r_xid g st) (r_now g st) parent st))"

text \<open>The options and the registration of a start, after the checks that need nothing else.\<close>

definition run_options ::
  "('v, 'w, 'f) run_env \<Rightarrow> WorkflowOption list \<Rightarrow> ('f WorkflowRegistryEntry \<times> workflowOptions) res" where
  "run_options g opts =
     (let p0 = fold (\<lambda>opt. opt) opts (zero_workflowOptions\<lparr>wo_ApplicationVersion := r_applicationVersion g\<rparr>) in
      case wo_err p0 of
        Some err \<Rightarrow> Inl err
      | None \<Rightarrow>
          (case workflowRegistry (r_registry g) (wo_WorkflowName p0) of
             None \<Rightarrow> Inl (NewNonExistentWorkflowError (wo_WorkflowName p0))
           | Some entry \<Rightarrow>
               let p1 = (if re_Name entry \<noteq> [] then p0\<lparr>wo_WorkflowName := re_Name entry\<rparr> else p0) in
               (case option_error p1 of Some err \<Rightarrow> Inl err | None \<Rightarrow> Inr (entry, p1))))"

definition dbosContext_RunWorkflow ::
  "('v, 'w, 'f) run_env \<Rightarrow> 'v \<Rightarrow> WorkflowOption list \<Rightarrow> 'w workflowState option \<Rightarrow> 'w state \<Rightarrow>
   (run_decision res \<times> 'w workflowState option \<times> 'w state) option" where
  "dbosContext_RunWorkflow g input opts wfState st =
     (let fail = (\<lambda>err. Some (Inl err, wfState, st)) in
      case run_options g opts of
        Inl err \<Rightarrow> fail err
      | Inr (entry, p) \<Rightarrow>
          if \<not> launched (r_registry g) \<and> wfState = None
          then fail (NewInitializationError ''DBOS must be launched before running workflows; call Launch first'')
          else if (case wfState of None \<Rightarrow> False | Some ws \<Rightarrow> isWithinStep ws)
          then fail (NewStepExecutionError (workflowID (the wfState)) (wo_WorkflowName p)
                 (ErrorText ''cannot spawn child workflow from within a step''))
          else let parent = map_option (\<lambda>ws. snd (nextStepID ws)) wfState in
            map_option (\<lambda>(d, st'). (d, parent, st')) (run_start g entry p parent input st))"

text \<open>
  The generic \<^verbatim>\<open>RunWorkflow\<close> names the function, qualified by its instance.
\<close>

definition RunWorkflow ::
  "('v, 'w, 'f) run_env \<Rightarrow> fn_value \<Rightarrow> 'v \<Rightarrow> WorkflowOption list \<Rightarrow> 'w workflowState option \<Rightarrow> 'w state \<Rightarrow>
   (run_decision res \<times> 'w workflowState option \<times> 'w state) option" where
  "RunWorkflow g fn input opts wfState st =
     (let provided = fold (\<lambda>opt. opt) opts zero_workflowOptions;
          fqn0 = resolveWorkflowFunctionName fn;
          fqn = (case wo_runInstance provided of None \<Rightarrow> fqn0 | Some configName \<Rightarrow> instanceQualifiedName fqn0 configName)
      in dbosContext_RunWorkflow g input (opts @ [withWorkflowName fqn]) wfState st)"

section \<open>Enqueueing by name\<close>

text \<open>\<open>eq_tx\<close> is \<open>None\<close> without a transaction of the caller and otherwise what \<^verbatim>\<open>resolveUserTx\<close> says of it.\<close>

record enqueueOptions =
  eq_workflowName :: string
  eq_workflowID :: string
  eq_applicationVersion :: string
  eq_applicationName :: string
  eq_deduplicationID :: string
  eq_deduplicationPolicy :: DeduplicationPolicy
  eq_priority :: "64 word"
  eq_workflowTimeout :: duration
  eq_queuePartitionKey :: string
  eq_className :: string
  eq_configName :: "string option"
  eq_delayDuration :: duration
  eq_authenticatedUser :: string
  eq_assumedRole :: string
  eq_authenticatedRoles :: "string list"
  eq_attributes :: "(string \<times> string) list"
  eq_debounceDeadline :: gotime
  eq_isDebounced :: bool
  eq_tx :: "unit res option"

type_synonym EnqueueOption = "enqueueOptions \<Rightarrow> enqueueOptions"

definition WithEnqueueWorkflowID :: "string \<Rightarrow> EnqueueOption" where
  "WithEnqueueWorkflowID x p = p\<lparr>eq_workflowID := x\<rparr>"

definition WithEnqueueApplicationVersion :: "string \<Rightarrow> EnqueueOption" where
  "WithEnqueueApplicationVersion x p = p\<lparr>eq_applicationVersion := x\<rparr>"

definition WithEnqueueDeduplicationID :: "string \<Rightarrow> EnqueueOption" where
  "WithEnqueueDeduplicationID x p = p\<lparr>eq_deduplicationID := x\<rparr>"

definition WithEnqueueDeduplicationPolicy :: "DeduplicationPolicy \<Rightarrow> EnqueueOption" where
  "WithEnqueueDeduplicationPolicy x p = p\<lparr>eq_deduplicationPolicy := x\<rparr>"

definition WithEnqueuePriority :: "64 word \<Rightarrow> EnqueueOption" where
  "WithEnqueuePriority x p = p\<lparr>eq_priority := x\<rparr>"

definition WithEnqueueTimeout :: "duration \<Rightarrow> EnqueueOption" where
  "WithEnqueueTimeout x p = p\<lparr>eq_workflowTimeout := x\<rparr>"

definition WithEnqueueQueuePartitionKey :: "string \<Rightarrow> EnqueueOption" where
  "WithEnqueueQueuePartitionKey x p = p\<lparr>eq_queuePartitionKey := x\<rparr>"

definition WithEnqueueClassName :: "string \<Rightarrow> EnqueueOption" where
  "WithEnqueueClassName x p = p\<lparr>eq_className := x\<rparr>"

definition WithEnqueueDelay :: "duration \<Rightarrow> EnqueueOption" where
  "WithEnqueueDelay x p = p\<lparr>eq_delayDuration := x\<rparr>"

definition WithEnqueueAuthenticatedUser :: "string \<Rightarrow> EnqueueOption" where
  "WithEnqueueAuthenticatedUser x p = p\<lparr>eq_authenticatedUser := x\<rparr>"

definition WithEnqueueAssumedRole :: "string \<Rightarrow> EnqueueOption" where
  "WithEnqueueAssumedRole x p = p\<lparr>eq_assumedRole := x\<rparr>"

definition WithEnqueueAuthenticatedRoles :: "string list \<Rightarrow> EnqueueOption" where
  "WithEnqueueAuthenticatedRoles x p = p\<lparr>eq_authenticatedRoles := x\<rparr>"

definition WithEnqueueApplicationName :: "string \<Rightarrow> EnqueueOption" where
  "WithEnqueueApplicationName x p = p\<lparr>eq_applicationName := x\<rparr>"

definition WithEnqueueAttributes :: "(string \<times> string) list \<Rightarrow> EnqueueOption" where
  "WithEnqueueAttributes x p = p\<lparr>eq_attributes := x\<rparr>"

definition WithEnqueueConfigName :: "string \<Rightarrow> EnqueueOption" where
  "WithEnqueueConfigName configName p = p\<lparr>eq_configName := Some configName\<rparr>"

definition WithEnqueueTransaction :: "unit res \<Rightarrow> EnqueueOption" where
  "WithEnqueueTransaction tx p = p\<lparr>eq_tx := Some tx\<rparr>"

definition withEnqueueDebounce :: "gotime \<Rightarrow> EnqueueOption" where
  "withEnqueueDebounce deadline p = p\<lparr>eq_isDebounced := True, eq_debounceDeadline := deadline\<rparr>"

definition enqueue_options :: "string \<Rightarrow> EnqueueOption list \<Rightarrow> enqueueOptions" where
  "enqueue_options name opts = fold (\<lambda>opt. opt) opts
     \<lparr>eq_workflowName = name, eq_workflowID = [], eq_applicationVersion = [], eq_applicationName = [], eq_deduplicationID = [],
      eq_deduplicationPolicy = DeduplicationPolicyReject, eq_priority = 0, eq_workflowTimeout = 0, eq_queuePartitionKey = [],
      eq_className = [], eq_configName = None, eq_delayDuration = 0, eq_authenticatedUser = [], eq_assumedRole = [],
      eq_authenticatedRoles = [], eq_attributes = [], eq_debounceDeadline = None, eq_isDebounced = False, eq_tx = None\<rparr>"

definition enqueue_version :: "('v, 'w, 'f) run_env \<Rightarrow> enqueueOptions \<Rightarrow> string" where
  "enqueue_version g p =
     (if eq_applicationVersion p = [] \<and> \<not> r_isClient g \<and> (eq_applicationName p = [] \<or> eq_applicationName p = r_ownerAppName g)
      then r_applicationVersion g else eq_applicationVersion p)"

definition enqueue_error :: "string \<Rightarrow> enqueueOptions \<Rightarrow> 'w workflowState option \<Rightarrow> go_error option" where
  "enqueue_error queueName p wfState =
     (if queueName = [] then Some (NewInvalidOptionError ''queue name is required'')
      else if eq_workflowName p = [] then Some (NewInvalidOptionError ''workflow name is required'')
      else if eq_queuePartitionKey p \<noteq> [] \<and> eq_deduplicationID p \<noteq> []
      then Some (NewInvalidOptionError ''partition key and deduplication ID cannot be used together'')
      else if eq_deduplicationPolicy p \<noteq> DeduplicationPolicyReject \<and> eq_deduplicationID p = []
      then Some (NewInvalidOptionError ''a deduplication policy requires a deduplication ID'')
      else if (case wfState of None \<Rightarrow> False | Some ws \<Rightarrow> isWithinStep ws)
      then Some (NewStepExecutionError (workflowID (the wfState)) ''DBOS.enqueue'' (ErrorText ''cannot call Enqueue within a step''))
      else if eq_tx p \<noteq> None \<and> wfState \<noteq> None
      then Some (NewInvalidOptionError ''WithEnqueueTransaction cannot be used within a workflow'')
      else if eq_tx p \<noteq> None \<and> eq_deduplicationPolicy p = DeduplicationPolicyReturnExisting
      then Some (NewInvalidOptionError ''deduplication policy 'return-existing' is not supported with WithEnqueueTransaction'')
      else case eq_tx p of
        Some (Inl err) \<Rightarrow> Some err
      | _ \<Rightarrow> if 9223372036854775807 < eq_priority p
             then Some (NewInvalidOptionError (''priority '' @ show_int (uint (eq_priority p)) @ '' exceeds maximum allowed value 9223372036854775807''))
             else None)"

definition enqueue_input :: "('v, 'w, 'f) run_env \<Rightarrow> 'w workflowState option \<Rightarrow> 'v \<Rightarrow> (string option \<times> string) res" where
  "enqueue_input g wfState input =
     (if r_isArgs g input
      then map_sum (Errorf ''failed to serialize portable workflow input: '') (\<lambda>s. (s, PortableSerializerName))
             (Encode (newPortableSerializer (c_any (r_ctx g))) input)
      else map_sum (Errorf ''failed to serialize workflow input: '') (\<lambda>s. (s, Name (ctx_encoder (r_op g) wfState)))
             (Encode (ctx_encoder (r_op g) wfState) input))"

definition enqueue_row ::
  "('v, 'w, 'f) run_env \<Rightarrow> string \<Rightarrow> enqueueOptions \<Rightarrow> 'w workflowState option \<Rightarrow> string option \<times> string \<Rightarrow> 'w state \<Rightarrow> WorkflowStatus" where
  "enqueue_row g queueName p wfState encoded st =
     (let delayed = (0 < eq_delayDuration p \<or> eq_isDebounced p) in
      zero_WorkflowStatus\<lparr>W_Name := eq_workflowName p, W_ApplicationVersion := enqueue_version g p, W_ApplicationName := eq_applicationName p,
        W_Status := (if delayed then WorkflowStatusDelayed else WorkflowStatusEnqueued),
        W_ID := (if eq_workflowID p = [] then o_uuid (r_op g) st else eq_workflowID p), W_CreatedAt := Some (r_now g st),
        W_Timeout := eq_workflowTimeout p, W_Input := fst encoded, W_QueueName := queueName, W_DeduplicationID := eq_deduplicationID p,
        W_Priority := sint (eq_priority p), W_QueuePartitionKey := eq_queuePartitionKey p, W_ClassName := eq_className p,
        W_ConfigName := eq_configName p, W_Serialization := snd encoded,
        W_DelayUntil := (if delayed then Some (r_now g st + eq_delayDuration p) else None),
        W_AuthenticatedUser := eq_authenticatedUser p, W_AssumedRole := eq_assumedRole p,
        W_AuthenticatedRoles := eq_authenticatedRoles p, W_Attributes := eq_attributes p,
        W_DebounceDeadline := eq_debounceDeadline p, W_IsDebounced := eq_isDebounced p,
        W_ParentWorkflowID := (case wfState of None \<Rightarrow> [] | Some ws \<Rightarrow> workflowID ws)\<rparr>)"

text \<open>
  The insertion; the first result is the id of the enqueued workflow, or of the holder of the deduplication id beside the error. The
  holder is looked up outside of the transaction, after what others did \<open>between\<close> the two statements.
\<close>

definition insertEnqueuedWorkflow ::
  "('v, 'w, 'f) run_env \<Rightarrow> ('w state \<Rightarrow> 'w state) \<Rightarrow> WorkflowStatus \<Rightarrow> string \<Rightarrow> bool \<Rightarrow> 'w state \<Rightarrow> (string \<times> go_error option) \<times> 'w state" where
  "insertEnqueuedWorkflow g between row dedupID returnExisting st =
     (case InsertWorkflowStatus (c_systemDB (r_ctx g)) (r_now g st) \<lparr>in_Status = row, in_Tx = True, in_OwnerXID = None\<rparr> (fst st) of
        Inr (_, db1) \<Rightarrow> ((W_ID row, None), (db1, snd st))
      | Inl err \<Rightarrow>
          if returnExisting \<and> errors_Is ErrorCodeQueueDeduplicated err then
            let st1 = between st in
            ((case GetDeduplicatedWorkflow (W_QueueName row) dedupID (fst st1) of None \<Rightarrow> [] | Some i \<Rightarrow> i, Some err), st1)
          else (([], Some err), st))"

text \<open>
  One attempt: a transactional step in a workflow, in the caller's transaction, or in one of its own. Transactional steps are taken to
  run one at a time.
\<close>

definition enqueue_attempt ::
  "('v, 'w, 'f) run_env \<Rightarrow> enqueueOptions \<Rightarrow> WorkflowStatus \<Rightarrow> 'w workflowState option \<Rightarrow> 'w state \<Rightarrow>
   ((string \<times> go_error option) \<times> 'w workflowState option \<times> 'w state) option" where
  "enqueue_attempt g p row wfState st =
     (let returnExisting = (eq_deduplicationPolicy p = DeduplicationPolicyReturnExisting) in
      case wfState of
        None \<Rightarrow> (case insertEnqueuedWorkflow g (o_others (r_op g)) row (eq_deduplicationID p) (returnExisting \<and> eq_tx p = None) st of (r, st') \<Rightarrow> Some (r, None, st'))
      | Some ws \<Rightarrow>
          map_option (\<lambda>((v, err), rest). ((bx_unwrap (r_string g) v, err), rest))
            (runAsTxn (r_ctx g) (o_retryable (r_op g)) (bx_type (r_string g)) [] wfState
               (Some (\<lambda>s. case insertEnqueuedWorkflow g id row (eq_deduplicationID p) returnExisting s of
                  ((i, err), s') \<Rightarrow> ((bx_wrap (r_string g) i, err), s')))
               [WithStepName ''DBOS.enqueue'', withChildWorkflowIDOutput] st))"

partial_function (option) enqueue_loop ::
  "('v, 'w, 'f) run_env \<Rightarrow> enqueueOptions \<Rightarrow> WorkflowStatus \<Rightarrow> 'w workflowState option \<Rightarrow> 'w state \<Rightarrow>
   (string res \<times> 'w workflowState option \<times> 'w state) option" where
  "enqueue_loop g p row wfState st =
     (case enqueue_attempt g p row wfState st of
        None \<Rightarrow> None
      | Some ((enqueuedID, None), ws', st') \<Rightarrow> Some (Inr enqueuedID, ws', st')
      | Some ((enqueuedID, Some err), ws', st') \<Rightarrow>
          if eq_deduplicationPolicy p = DeduplicationPolicyReturnExisting \<and> errors_Is ErrorCodeQueueDeduplicated err
          then if enqueuedID \<noteq> [] then Some (Inr enqueuedID, ws', st')
               else enqueue_loop g p row ws' (o_others (r_op g) st')
          else Some (Inl err, ws', st'))"

text \<open>The handle that \<^verbatim>\<open>Enqueue\<close> returns polls the workflow of the given id.\<close>

definition Enqueue ::
  "('v, 'w, 'f) run_env \<Rightarrow> string \<Rightarrow> string \<Rightarrow> 'v \<Rightarrow> EnqueueOption list \<Rightarrow> 'w workflowState option \<Rightarrow> 'w state \<Rightarrow>
   (string res \<times> 'w workflowState option \<times> 'w state) option" where
  "Enqueue g queueName name input opts wfState st =
     (let p = enqueue_options name opts in
      case enqueue_error queueName p wfState of
        Some err \<Rightarrow> Some (Inl err, wfState, st)
      | None \<Rightarrow>
          (case enqueue_input g wfState input of
             Inl err \<Rightarrow> Some (Inl err, wfState, st)
           | Inr encoded \<Rightarrow> enqueue_loop g p (enqueue_row g queueName p wfState encoded st) wfState st))"

section \<open>A workflow is executed by one start\<close>

lemma nextStepID_sel [simp]: "snd (nextStepID ws) = ws\<lparr>stepID := stepID ws + 1\<rparr>" "fst (nextStepID ws) = stepID ws + 1"
  by (simp_all add: nextStepID_def)

lemma map_sum_Inr_iff: "map_sum f h x = Inr y \<longleftrightarrow> (\<exists>z. x = Inr z \<and> y = h z)"
  by (cases x) auto

lemma record_child_same:
  assumes "record_child g name t parent child db = Inr ((), db')"
  shows "workflow_status db' = workflow_status db" and "find_wf wid db' = find_wf wid db"
  using assms by (auto simp: record_child_def RecordChildWorkflow_def split: option.splits if_splits)

lemma insert_result_owner: "insert_result s r = Inr res \<Longrightarrow> res_OwnerXID res = derefStr (ws_owner_xid r) \<and> res_Status res = ws_status r"
  by (auto simp: insert_result_def split: if_splits)

text \<open>What the transaction leaves: the row of the first start, with its owner.\<close>

lemma insertWorkflowStatusTx_row:
  assumes "insertWorkflowStatusTx g row xid t parent st = (Inr (res, skip), st')"
  shows "case find_wf (W_ID row) (fst st) of
      None \<Rightarrow> find_wf (W_ID row) (fst st') = Some (insert_row (c_systemDB (r_ctx g)) (r_now g st) \<lparr>in_Status = row, in_Tx = True, in_OwnerXID = Some xid\<rparr>) \<and>
        res_OwnerXID res = xid
    | Some r \<Rightarrow> res_OwnerXID res = derefStr (ws_owner_xid r)"
    and "skip \<longleftrightarrow> W_QueueName row \<noteq> [] \<or> res_Status res = WorkflowStatusSuccess \<or> res_Status res = WorkflowStatusError \<or>
      res_OwnerXID res \<noteq> xid \<or> W_ID row \<in> r_active g (snd st)"
proof -
  let ?inp = "\<lparr>in_Status = row, in_Tx = True, in_OwnerXID = Some xid\<rparr>"
  obtain db1 db2 where ins: "InsertWorkflowStatus (c_systemDB (r_ctx g)) (r_now g st) ?inp (fst st) = Inr (res, db1)"
    and child: "record_child g (W_Name row) t parent (W_ID row) db1 = Inr ((), db2)" and st': "st' = (db2, snd st)"
    and skip: "skip \<longleftrightarrow> W_QueueName row \<noteq> [] \<or> res_Status res = WorkflowStatusSuccess \<or> res_Status res = WorkflowStatusError \<or>
      res_OwnerXID res \<noteq> xid \<or> W_ID row \<in> r_active g (snd st)"
    using assms by (auto simp: insertWorkflowStatusTx_def Let_def split: sum.splits prod.splits)
  show "skip \<longleftrightarrow> W_QueueName row \<noteq> [] \<or> res_Status res = WorkflowStatusSuccess \<or> res_Status res = WorkflowStatusError \<or>
      res_OwnerXID res \<noteq> xid \<or> W_ID row \<in> r_active g (snd st)" by (rule skip)
  show "case find_wf (W_ID row) (fst st) of
      None \<Rightarrow> find_wf (W_ID row) (fst st') = Some (insert_row (c_systemDB (r_ctx g)) (r_now g st) ?inp) \<and> res_OwnerXID res = xid
    | Some r \<Rightarrow> res_OwnerXID res = derefStr (ws_owner_xid r)"
  proof (cases "find_wf (W_ID row) (fst st)")
    case None
    with ins have "db1 = (fst st)\<lparr>workflow_status := workflow_status (fst st) @ [insert_row (c_systemDB (r_ctx g)) (r_now g st) ?inp]\<rparr>"
      and r: "insert_result row (insert_row (c_systemDB (r_ctx g)) (r_now g st) ?inp) = Inr res"
      by (auto simp: InsertWorkflowStatus_def Let_def map_sum_Inr_iff split: if_splits)
    then have "find_wf (W_ID row) db1 = Some (insert_row (c_systemDB (r_ctx g)) (r_now g st) ?inp)"
      using None by (simp add: lookup_by_append insert_row_def Let_def)
    with None insert_result_owner [OF r] show ?thesis
      by (simp add: st' record_child_same(2) [OF child] insert_row_def Let_def)
  next
    case (Some r)
    with ins show ?thesis by (auto simp: InsertWorkflowStatus_def Let_def reinsert_set_def map_sum_Inr_iff dest!: insert_result_owner split: if_splits)
  qed
qed

lemma errors_Is_text: "\<not> errors_Is c (ErrorText t)"
  by (simp add: errors_Is_def Error_Is_def Portable_Is_def)

lemma errors_Is_NewWorkflowExecutionError [simp]:
  "errors_Is c (NewWorkflowExecutionError wid err) \<longleftrightarrow> c \<noteq> 0 \<and> c = ErrorCodeWorkflowExecution \<or> errors_Is c err"
  by (auto simp: NewWorkflowExecutionError_def)

text \<open>Without a queue there is no deduplication, so the loop is not repeated.\<close>

lemma record_child_no_dedup: "record_child g name t parent child db = Inl err \<Longrightarrow> \<not> errors_Is ErrorCodeQueueDeduplicated err"
  by (auto simp: record_child_def RecordChildWorkflow_def NewUnexpectedStepError_def fk_violation_def map_sum_def errors_Is_text
      split: option.splits if_splits sum.splits)

lemma insertWorkflowStatusTx_no_dedup:
  assumes "insertWorkflowStatusTx g row xid t parent st = (Inl err, st')"
  shows "W_QueueName row = [] \<Longrightarrow> \<not> errors_Is ErrorCodeQueueDeduplicated err" and "st' = st"
proof -
  show "st' = st" using assms by (auto simp: insertWorkflowStatusTx_def Let_def split: sum.splits prod.splits)
  assume q: "W_QueueName row = []"
  have "\<not> dedup_conflict (insert_row (c_systemDB (r_ctx g)) (r_now g st) \<lparr>in_Status = row, in_Tx = True, in_OwnerXID = Some xid\<rparr>) rows" for rows
    using q by (simp add: dedup_conflict_def insert_row_def dedup_slot_def slot_of_def nonempty_def Let_def)
  moreover have "\<not> errors_Is ErrorCodeQueueDeduplicated e" if "insert_result row r = Inl e" for r e
    using that by (auto simp: insert_result_def NewUnexpectedWorkflowError_def split: if_splits)
  ultimately show "\<not> errors_Is ErrorCodeQueueDeduplicated err"
    using assms record_child_no_dedup by (fastforce simp: insertWorkflowStatusTx_def InsertWorkflowStatus_def map_sum_def Let_def
        split: option.splits sum.splits prod.splits if_splits)
qed

text \<open>A rule for the results of the loop.\<close>

lemma run_loop_result:
  fixes g :: "('v, 'w, 'f) run_env"
  assumes run: "run_loop g p row xid t parent st = Some res" and "I st"
    and inserted: "\<And>s s1 r skip. I s \<Longrightarrow> insertWorkflowStatusTx g row xid t parent s = (Inr (r, skip), s1) \<Longrightarrow>
      P (Inr (if skip then ReturnHandle (W_ID row) else Execute (run_execution p (W_ID row) r)), s1)"
    and failed: "\<And>s err. I s \<Longrightarrow> P (Inl err, s)"
    and others: "\<And>s. I s \<Longrightarrow> W_QueueName row \<noteq> [] \<Longrightarrow> I (o_others (r_op g) s)"
    and existing: "\<And>s i db. I s \<Longrightarrow> record_child g (W_Name row) t parent i (fst s) = Inr ((), db) \<Longrightarrow> P (Inr (ReturnHandle i), (db, snd s))"
  shows "P res"
proof -
  let ?Q = "\<lambda>(g' :: ('v, 'w, 'f) run_env) p' row' xid' t' (parent' :: 'w workflowState option) (s :: 'w state) res.
      g' = g \<and> p' = p \<and> row' = row \<and> xid' = xid \<and> t' = t \<and> parent' = parent \<longrightarrow> I s \<longrightarrow> P res"
  have "?Q g p row xid t parent st res"
  proof (rule run_loop.raw_induct [where P = ?Q, OF _ run], intro impI, elim conjE)
    fix loop g' p' row' xid' t' parent' s res
    assume IH: "\<And>g' p' row' xid' t' parent' s res. loop g' p' row' xid' t' parent' s = Some res \<Longrightarrow> ?Q g' p' row' xid' t' parent' s res"
      and eqs: "g' = g" "p' = p" "row' = row" "xid' = xid" "t' = t" "parent' = parent" and I: "I s"
      and body: "(case insertWorkflowStatusTx g' row' xid' t' parent' s of
          (Inr (res, shouldSkip), st1) \<Rightarrow> Some (Inr (if shouldSkip then ReturnHandle (W_ID row') else Execute (run_execution p' (W_ID row') res)), st1)
        | (Inl err, st1) \<Rightarrow>
            if wo_DeduplicationPolicy p' \<noteq> DeduplicationPolicyReturnExisting \<or> \<not> errors_Is ErrorCodeQueueDeduplicated err
            then Some (Inl err, st1)
            else let st2 = o_others (r_op g') st1 in
              (case GetDeduplicatedWorkflow (W_QueueName row') (wo_DeduplicationID p') (fst st2) of
                 None \<Rightarrow> loop g' p' row' xid' t' parent' (o_others (r_op g') st2)
               | Some existingID \<Rightarrow>
                   (case record_child g' (W_Name row') t' parent' existingID (fst st2) of
                      Inl err \<Rightarrow> Some (Inl err, st2)
                    | Inr (_, db3) \<Rightarrow> Some (Inr (ReturnHandle existingID), (db3, snd st2))))) = Some res"
    show "P res"
    proof (cases "fst (insertWorkflowStatusTx g row xid t parent s)")
      case (Inl err)
      then obtain st1 where tx: "insertWorkflowStatusTx g row xid t parent s = (Inl err, st1)" by (metis prod.collapse)
      note no = insertWorkflowStatusTx_no_dedup [OF tx]
      show ?thesis
      proof (cases "wo_DeduplicationPolicy p \<noteq> DeduplicationPolicyReturnExisting \<or> \<not> errors_Is ErrorCodeQueueDeduplicated err")
        case True
        with body tx failed [OF I, of err] show ?thesis by (auto simp: eqs no(2))
      next
        case False
        then have q: "W_QueueName row \<noteq> []" using no(1) by blast
        let ?s2 = "o_others (r_op g) s"
        have I2: "I ?s2" using others [OF I q] .
        from False body tx show ?thesis
          using IH [of g p row xid t parent "o_others (r_op g) ?s2" res] others [OF I2 q] failed [OF I2] existing [OF I2]
          by (auto simp: eqs no(2) Let_def split: option.splits sum.splits)
      qed
    next
      case (Inr rs)
      then obtain r skip st1 where tx: "insertWorkflowStatusTx g row xid t parent s = (Inr (r, skip), st1)" by (metis prod.collapse)
      with body inserted [OF I tx] show ?thesis by (auto simp: eqs)
    qed
  qed
  then show ?thesis using assms(2) by simp
qed

lemma run_loop_execute:
  assumes "run_loop g p row xid t parent st = Some (Inr (Execute x), st')"
  shows "W_QueueName row = []" and "\<exists>r. insertWorkflowStatusTx g row xid t parent st = (Inr (r, False), st') \<and> x = run_execution p (W_ID row) r"
proof -
  let ?P = "\<lambda>res :: run_decision res \<times> _. \<forall>x' s'. res = (Inr (Execute x'), s') \<longrightarrow> W_QueueName row = [] \<and>
      (\<exists>r. insertWorkflowStatusTx g row xid t parent st = (Inr (r, False), s') \<and> x' = run_execution p (W_ID row) r)"
  have "?P (Inr (Execute x), st')"
    by (rule run_loop_result [where I = "\<lambda>s. W_QueueName row = [] \<longrightarrow> s = st" and P = ?P, OF assms])
      (auto dest: insertWorkflowStatusTx_row(2))
  then show "W_QueueName row = []" and "\<exists>r. insertWorkflowStatusTx g row xid t parent st = (Inr (r, False), st') \<and> x = run_execution p (W_ID row) r"
    by blast+
qed

lemma run_execute:
  assumes "dbosContext_RunWorkflow g input opts wfState st = Some (Inr (Execute x), ws', st')"
  obtains row t r p where "insertWorkflowStatusTx g row (r_xid g st) t (map_option (\<lambda>ws. snd (nextStepID ws)) wfState) st = (Inr (r, False), st')"
    and "x = run_execution p (W_ID row) r" and "W_Status row = WorkflowStatusPending" and "W_ExecutorID row = c_executorID (r_ctx g)"
proof -
  let ?parent = "map_option (\<lambda>ws. snd (nextStepID ws)) wfState"
  obtain entry p0 where "run_start g entry p0 ?parent input st = Some (Inr (Execute x), st')"
    using assms by (auto simp: dbosContext_RunWorkflow_def Let_def split: sum.splits if_splits)
  then obtain p enc where loop: "run_loop g p (run_row g entry p ?parent (run_id g p ?parent st) enc st) (r_xid g st) (r_now g st) ?parent st =
      Some (Inr (Execute x), st')"
    by (auto simp: run_start_def Let_def split: sum.splits option.splits if_splits)
  from run_loop_execute [OF loop] show thesis
    by (auto intro!: that simp: run_row_def Let_def split: if_splits)
qed

text \<open>
  C8: The id of a workflow is an idempotency key. The start that executes a workflow is the one that inserted it: the workflow did not
  exist before, and is \<^verbatim>\<open>PENDING\<close> on this executor with the owner id of this start. No other start, from any process and with any options,
  executes the workflow as long as its row has that owner. Owner ids are fresh and not empty.
\<close>

theorem start_executes_once:
  fixes g :: "('v, 'w, 'f) run_env"
  assumes "dbosContext_RunWorkflow g input opts wfState st = Some (Inr (Execute x), ws', st')"
    and "\<forall>r \<in> set (workflow_status (fst st)). ws_owner_xid r \<noteq> Some (r_xid g st)" and "r_xid g st \<noteq> []"
  shows "find_wf (x_workflowID x) (fst st) = None \<and>
    (\<exists>r. find_wf (x_workflowID x) (fst st') = Some r \<and> ws_status r = WorkflowStatusPending \<and> ws_owner_xid r = Some (r_xid g st) \<and>
       ws_executor_id r = Some (c_executorID (r_ctx g))) \<and>
    (\<forall>(g2 :: ('v, 'w, 'f) run_env) input2 opts2 wfState2 st2 r2 x2 ws2 st3. find_wf (x_workflowID x) (fst st2) = Some r2 \<longrightarrow> ws_owner_xid r2 = Some (r_xid g st) \<longrightarrow>
       r_xid g2 st2 \<noteq> r_xid g st \<longrightarrow> dbosContext_RunWorkflow g2 input2 opts2 wfState2 st2 = Some (Inr (Execute x2), ws2, st3) \<longrightarrow>
       x_workflowID x2 \<noteq> x_workflowID x)"
proof -
  obtain row t r p where tx: "insertWorkflowStatusTx g row (r_xid g st) t (map_option (\<lambda>ws. snd (nextStepID ws)) wfState) st = (Inr (r, False), st')"
    and x: "x = run_execution p (W_ID row) r" and row: "W_Status row = WorkflowStatusPending" "W_ExecutorID row = c_executorID (r_ctx g)"
    using assms(1) by (rule run_execute)
  have wid: "x_workflowID x = W_ID row" by (simp add: x run_execution_def)
  have own: "res_OwnerXID r = r_xid g st" using insertWorkflowStatusTx_row(2) [OF tx] by simp
  have new: "find_wf (W_ID row) (fst st) = None"
  proof (rule ccontr)
    assume "find_wf (W_ID row) (fst st) \<noteq> None"
    then obtain old where "find_wf (W_ID row) (fst st) = Some old" by blast
    then have "old \<in> set (workflow_status (fst st))" and "derefStr (ws_owner_xid old) = r_xid g st"
      using insertWorkflowStatusTx_row(1) [OF tx] own by (auto dest: lookup_by_SomeD)
    then show False using assms(2,3) by (cases "ws_owner_xid old") auto
  qed
  moreover have "x_workflowID x2 \<noteq> W_ID row"
    if "find_wf (W_ID row) (fst st2) = Some r2" "ws_owner_xid r2 = Some (r_xid g st)" "r_xid g2 st2 \<noteq> r_xid g st"
      and run2: "dbosContext_RunWorkflow g2 input2 opts2 wfState2 st2 = Some (Inr (Execute x2), ws2, st3)"
    for g2 :: "('v, 'w, 'f) run_env" and input2 opts2 wfState2 st2 r2 x2 ws2 st3
  proof
    obtain row2 t2 res2 p2 where tx2: "insertWorkflowStatusTx g2 row2 (r_xid g2 st2) t2 (map_option (\<lambda>ws. snd (nextStepID ws)) wfState2) st2 = (Inr (res2, False), st3)"
      and x2: "x2 = run_execution p2 (W_ID row2) res2" using run2 by (rule run_execute)
    assume "x_workflowID x2 = W_ID row"
    with that(1) have "find_wf (W_ID row2) (fst st2) = Some r2" by (simp add: x2 run_execution_def)
    then show False using that(2,3) insertWorkflowStatusTx_row [OF tx2] by simp
  qed
  moreover have "\<exists>r. find_wf (W_ID row) (fst st') = Some r \<and> ws_status r = WorkflowStatusPending \<and> ws_owner_xid r = Some (r_xid g st) \<and>
       ws_executor_id r = Some (c_executorID (r_ctx g))"
    using insertWorkflowStatusTx_row(1) [OF tx] row new by (simp add: insert_row_def Let_def)
  ultimately show ?thesis unfolding wid by blast
qed

section \<open>A child is started once\<close>

fun decision_id :: "run_decision \<Rightarrow> string" where
  "decision_id (ReturnHandle wid) = wid"
| "decision_id (Execute x) = x_workflowID x"

lemma InsertWorkflowStatus_ops: "InsertWorkflowStatus s now inp db = Inr (res, db') \<Longrightarrow> operation_outputs db' = operation_outputs db"
  by (auto simp: InsertWorkflowStatus_def Let_def map_sum_Inr_iff split: option.splits if_splits)

lemma record_child_row:
  assumes "record_child g name t (Some ps) child db = Inr ((), db')"
  shows "\<exists>r. find_op (workflowID ps) (stepID ps) db' = Some r \<and> oo_child_workflow_id r = Some child \<and>
    (find_op (workflowID ps) (stepID ps) db = None \<longrightarrow> oo_function_name r = name) \<and>
    (\<forall>old. find_op (workflowID ps) (stepID ps) db = Some old \<longrightarrow> r = old)"
  using assms by (auto simp: record_child_def RecordChildWorkflow_def child_op_row_def lookup_by_append map_sum_Inr_iff
      split: option.splits if_splits)

lemma inherit_auth_name [simp]: "wo_WorkflowName (inherit_auth parent p) = wo_WorkflowName p"
  by (simp add: inherit_auth_def split: option.split)

lemma run_row_sel [simp]:
  "W_Name (run_row g entry p parent wid enc st) = wo_WorkflowName p" "W_ID (run_row g entry p parent wid enc st) = wid"
  by (simp_all add: run_row_def Let_def)

text \<open>
  \<open>old\<close> is what the parent has recorded at the step: nothing, or a row of another kind, which makes the start fail.
\<close>

lemma run_loop_child:
  assumes run: "run_loop g p row xid t (Some ps) st = Some (Inr d, st')"
    and old: "case find_op (workflowID ps) (stepID ps) (fst st) of None \<Rightarrow> True | Some r \<Rightarrow> oo_child_workflow_id r = None"
    and others: "\<And>s. find_op (workflowID ps) (stepID ps) (fst (o_others (r_op g) s)) = find_op (workflowID ps) (stepID ps) (fst s)"
  shows "\<exists>r. find_op (workflowID ps) (stepID ps) (fst st') = Some r \<and> oo_function_name r = W_Name row \<and> oo_child_workflow_id r = Some (decision_id d)"
proof -
  let ?I = "\<lambda>s. find_op (workflowID ps) (stepID ps) (fst s) = find_op (workflowID ps) (stepID ps) (fst st)"
  let ?P = "\<lambda>res :: run_decision res \<times> _. \<forall>d s'. res = (Inr d, s') \<longrightarrow> (\<exists>r. find_op (workflowID ps) (stepID ps) (fst s') = Some r \<and>
      oo_function_name r = W_Name row \<and> oo_child_workflow_id r = Some (decision_id d))"
  have recorded: "\<exists>r. find_op (workflowID ps) (stepID ps) db' = Some r \<and> oo_function_name r = W_Name row \<and> oo_child_workflow_id r = Some child"
    if "record_child g (W_Name row) t (Some ps) child db = Inr ((), db')"
      "find_op (workflowID ps) (stepID ps) db = find_op (workflowID ps) (stepID ps) (fst st)" for child db db'
    using record_child_row [OF that(1)] that(2) old by (auto split: option.splits)
  have "?P (Inr d, st')"
  proof (rule run_loop_result [where I = ?I and P = ?P, OF run])
    fix s s1 r skip
    assume I: "?I s" and tx: "insertWorkflowStatusTx g row xid t (Some ps) s = (Inr (r, skip), s1)"
    then obtain db1 db2 where "InsertWorkflowStatus (c_systemDB (r_ctx g)) (r_now g s) \<lparr>in_Status = row, in_Tx = True, in_OwnerXID = Some xid\<rparr> (fst s) = Inr (r, db1)"
      and child: "record_child g (W_Name row) t (Some ps) (W_ID row) db1 = Inr ((), db2)" and s1: "s1 = (db2, snd s)"
      by (auto simp: insertWorkflowStatusTx_def Let_def split: sum.splits prod.splits)
    with I have "find_op (workflowID ps) (stepID ps) db1 = find_op (workflowID ps) (stepID ps) (fst st)"
      by (simp add: InsertWorkflowStatus_ops)
    from recorded [OF child this] show "?P (Inr (if skip then ReturnHandle (W_ID row) else Execute (run_execution p (W_ID row) r)), s1)"
      by (auto simp: s1 run_execution_def)
  qed (use others recorded in auto)
  then show ?thesis by blast
qed

text \<open>
  C9: A child is started once: a parent replayed to the same point is given a handle to the child that its first execution started or
  attached to, whatever the input, the options' ids and the deduplication policy, and nothing is inserted. What the parent has recorded
  at a step is changed by nobody else.
\<close>

theorem child_start_replayed:
  assumes run: "dbosContext_RunWorkflow g input opts (Some ws) st = Some (Inr d, ws', st')"
    and others: "\<And>s. find_op (workflowID ws) (stepID ws + 1) (fst (o_others (r_op g) s)) = find_op (workflowID ws) (stepID ws + 1) (fst s)"
    and kept: "find_op (workflowID ws) (stepID ws + 1) db2 = find_op (workflowID ws) (stepID ws + 1) (fst st')"
  shows "dbosContext_RunWorkflow g input2 opts (Some ws) (db2, w2) = Some (Inr (ReturnHandle (decision_id d)), ws', (db2, w2))"
proof -
  let ?ps = "snd (nextStepID ws)" and ?op = "find_op (workflowID ws) (stepID ws + 1)"
  obtain entry p where opts: "run_options g opts = Inr (entry, p)" and ws: "\<not> isWithinStep ws" "ws' = Some ?ps"
    and start: "run_start g entry p (Some ?ps) input st = Some (Inr d, st')"
    using run by (auto simp: dbosContext_RunWorkflow_def Let_def split: sum.splits if_splits)
  have "\<exists>r. ?op (fst st') = Some r \<and> oo_function_name r = wo_WorkflowName p \<and> oo_child_workflow_id r = Some (decision_id d)"
  proof (cases "CheckChildWorkflow (workflowID ws) (stepID ws + 1) (wo_WorkflowName p) (fst st) = Inr None")
    case True
    let ?q = "inherit_auth (Some ?ps) p"
    from True start obtain enc where
      loop: "run_loop g ?q (run_row g entry ?q (Some ?ps) (run_id g ?q (Some ?ps) st) enc st) (r_xid g st) (r_now g st) (Some ?ps) st = Some (Inr d, st')"
      by (auto simp: run_start_def Let_def split: sum.splits if_splits)
    have old: "case find_op (workflowID ?ps) (stepID ?ps) (fst st) of None \<Rightarrow> True | Some r \<Rightarrow> oo_child_workflow_id r = None"
      using True by (auto simp: CheckChildWorkflow_def split: option.splits if_splits)
    show ?thesis using run_loop_child [OF loop old] others by simp
  next
    case False
    with start show ?thesis by (auto simp: run_start_def Let_def CheckChildWorkflow_def split: option.splits if_splits)
  qed
  then have "CheckChildWorkflow (workflowID ws) (stepID ws + 1) (wo_WorkflowName p) db2 = Inr (Some (decision_id d))"
    by (auto simp: CheckChildWorkflow_def kept)
  then have "run_start g entry p (Some ?ps) input2 (db2, w2) = Some (Inr (ReturnHandle (decision_id d)), (db2, w2))"
    by (simp add: run_start_def Let_def)
  then show ?thesis by (simp add: dbosContext_RunWorkflow_def opts ws)
qed

section \<open>A lost commit acknowledgement\<close>

lemma reinsert_result: "insert_result s (reinsert_set ex r) = insert_result s r"
  by (simp add: insert_result_def reinsert_set_def)

lemma reinsert_uuid [simp]: "ws_workflow_uuid (reinsert_set ex r) = ws_workflow_uuid r"
  by (simp add: reinsert_set_def)

lemma InsertWorkflowStatus_again:
  assumes "InsertWorkflowStatus s now inp db = Inr (res, db1)"
    and "find_wf (W_ID (in_Status inp)) db2 = find_wf (W_ID (in_Status inp)) db1"
  shows "InsertWorkflowStatus s now2 inp db2 = Inr (res, update_wf (\<lambda>r. ws_workflow_uuid r = W_ID (in_Status inp)) (reinsert_set (insert_row s now2 inp)) db2)"
proof -
  let ?wid = "W_ID (in_Status inp)"
  have tx: "in_Tx inp" using assms(1) by (auto simp: InsertWorkflowStatus_def Let_def split: if_splits)
  have "\<exists>r. find_wf ?wid db1 = Some r \<and> insert_result (in_Status inp) r = Inr res"
  proof (cases "find_wf ?wid db")
    case None
    with assms(1) tx show ?thesis
      by (auto simp: InsertWorkflowStatus_def Let_def map_sum_Inr_iff lookup_by_append insert_row_def split: if_splits)
  next
    case (Some old)
    then have "ws_workflow_uuid old = ?wid" by (auto dest: lookup_by_SomeD)
    moreover have "db1 = update_wf (\<lambda>r. ws_workflow_uuid r = ?wid) (reinsert_set (insert_row s now inp)) db"
      and "insert_result (in_Status inp) old = Inr res"
      using assms(1) tx Some by (auto simp: InsertWorkflowStatus_def Let_def map_sum_Inr_iff reinsert_result)
    ultimately show ?thesis using Some
      by (auto simp: lookup_by_update_where reinsert_result)
  qed
  with assms(2) tx show ?thesis by (auto simp: InsertWorkflowStatus_def Let_def reinsert_result)
qed

lemma record_child_again:
  assumes "record_child g name t parent child db = Inr ((), db1)"
    and "case parent of None \<Rightarrow> True | Some ps \<Rightarrow> find_op (workflowID ps) (stepID ps) db2 = find_op (workflowID ps) (stepID ps) db1"
  shows "record_child g name t parent child db2 = Inr ((), db2)"
proof (cases parent)
  case (Some ps)
  with assms obtain r where "find_op (workflowID ps) (stepID ps) db2 = Some r" "oo_child_workflow_id r = Some child"
    using record_child_row [of g name t ps child db db1] by auto
  then show ?thesis by (simp add: record_child_def RecordChildWorkflow_def Some)
qed (simp add: record_child_def)

text \<open>
  C10: A start whose commit went through but was not acknowledged is repeated by the retry of the transaction, and decides as it did: the owner
  id in the row is its own. The repetition inserts nothing and records nothing.
\<close>

theorem start_survives_lost_commit:
  assumes "insertWorkflowStatusTx g row xid t parent st = (Inr (res, skip), st1)" and "r_active g w = r_active g (snd st)"
  shows "insertWorkflowStatusTx g row xid t parent (fst st1, w) =
    (Inr (res, skip), (update_wf (\<lambda>r. ws_workflow_uuid r = W_ID row)
       (reinsert_set (insert_row (c_systemDB (r_ctx g)) (r_now g (fst st1, w)) \<lparr>in_Status = row, in_Tx = True, in_OwnerXID = Some xid\<rparr>)) (fst st1), w))"
proof -
  let ?inp = "\<lparr>in_Status = row, in_Tx = True, in_OwnerXID = Some xid\<rparr>"
  obtain db1 db2 where ins: "InsertWorkflowStatus (c_systemDB (r_ctx g)) (r_now g st) ?inp (fst st) = Inr (res, db1)"
    and child: "record_child g (W_Name row) t parent (W_ID row) db1 = Inr ((), db2)" and st1: "st1 = (db2, snd st)"
    using assms(1) by (auto simp: insertWorkflowStatusTx_def Let_def split: sum.splits prod.splits)
  note again = InsertWorkflowStatus_again [OF ins, of db2 "r_now g (db2, w)"]
  have "record_child g (W_Name row) t parent (W_ID row) (update_wf (\<lambda>r. ws_workflow_uuid r = W_ID row) h db2) =
      Inr ((), update_wf (\<lambda>r. ws_workflow_uuid r = W_ID row) h db2)" for h
    by (rule record_child_again [OF child]) (simp split: option.split)
  with again show ?thesis
    using insertWorkflowStatusTx_row(2) [OF assms(1)] assms(2)
    by (simp add: insertWorkflowStatusTx_def st1 record_child_same(2) [OF child] Let_def)
qed

section \<open>A sample start\<close>

definition sample_entry :: "unit WorkflowRegistryEntry" where
  "sample_entry = \<lparr>re_fn = (), re_MaxRetries = 100, re_Name = ''w'', re_FQN = ''w'', re_ClassName = [], re_ConfigName = []\<rparr>"

definition sample_run :: "(bool, int, unit) run_env" where
  "sample_run = \<lparr>r_op = sample_env id, r_registry = \<lparr>launched = True, workflowRegistry = [''w'' \<mapsto> sample_entry], workflowCustomNametoFQN = [''w'' \<mapsto> ''w'']\<rparr>,
     r_applicationVersion = ''v'', r_applicationID = ''app'', r_isClient = False, r_ownerAppName = [], r_Deadline = None,
     r_xid = (\<lambda>st. ''o''), r_isArgs = (\<lambda>_. False), r_string = \<lparr>bx_type = bool_type, bx_wrap = (\<lambda>_. True), bx_unwrap = (\<lambda>_. [])\<rparr>,
     r_active = (\<lambda>_. {}), r_setActive = (\<lambda>_. id)\<rparr>"

lemma run_loop_inserted:
  "insertWorkflowStatusTx g row xid t parent st = (Inr (r, skip), s1) \<Longrightarrow>
     run_loop g p row xid t parent st = Some (Inr (if skip then ReturnHandle (W_ID row) else Execute (run_execution p (W_ID row) r)), s1)"
  by (subst run_loop.simps) simp

lemma sample_run_sel [simp]:
  "c_systemDB (r_ctx sample_run) = sample_sysdb_ctx" "c_executorID (r_ctx sample_run) = ''e''" "r_now sample_run st = 0"
  "r_xid sample_run st = ''o''" "launched (r_registry sample_run)" "r_active sample_run w = {}" "o_others (r_op sample_run) st = st"
  by (auto simp: sample_run_def sample_env_def sample_context_def split: prod.split)

lemma sample_options:
  "run_options sample_run [WithWorkflowID ''x'', withWorkflowName ''w''] =
     Inr (sample_entry, zero_workflowOptions\<lparr>wo_ApplicationVersion := ''v'', wo_WorkflowID := ''x'', wo_WorkflowName := ''w''\<rparr>)"
  by (simp add: run_options_def sample_run_def sample_entry_def zero_workflowOptions_def WithWorkflowID_def withWorkflowName_def option_error_def)

lemma sample_input:
  assumes "parent = None \<or> parent = Some (sample_workflow\<lparr>stepID := 0\<rparr>)" and "\<not> wo_isPortableWorkflow p"
  shows "encode_input sample_run p parent True = Inr (Some (EncodeToString ''true''))"
proof -
  have "(case parent of None \<Rightarrow> False | Some ws \<Rightarrow> isPortableWorkflow ws) = False" using assms(1) by (auto simp: sample_workflow_def)
  then show ?thesis using assms(2)
    by (simp add: encode_input_def ctx_encoder_def sample_run_def sample_env_def resolveEncoder_def newJSONSerializer_def sample_context_def
        bool_type_def isNilValue_def)
qed

lemma sample_tx:
  assumes parent: "parent = None \<or> parent = Some (sample_workflow\<lparr>stepID := 0\<rparr>)"
    and row: "W_ID row = ''x''" "W_QueueName row = []" "W_Status row = WorkflowStatusPending"
  shows "\<exists>r s1. insertWorkflowStatusTx sample_run row ''o'' 0 parent (sample_pending, 0) = (Inr (r, False), s1)"
proof -
  let ?inp = "\<lparr>in_Status = row, in_Tx = True, in_OwnerXID = Some ''o''\<rparr>"
  let ?db1 = "sample_pending\<lparr>workflow_status := workflow_status sample_pending @ [insert_row sample_sysdb_ctx 0 ?inp]\<rparr>"
  have new: "find_wf ''x'' sample_pending = None" by (simp add: sample_pending_def default_wf_row_def)
  obtain r where r: "insert_result row (insert_row sample_sysdb_ctx 0 ?inp) = Inr r"
    using row by (auto simp: insert_result_def insert_row_def nonempty_def Let_def)
  have res: "res_Status r = WorkflowStatusPending" "res_OwnerXID r = ''o''"
    using insert_result_owner [OF r] row by (simp_all add: insert_row_def Let_def)
  have "\<not> dedup_conflict (insert_row sample_sysdb_ctx 0 ?inp) (workflow_status sample_pending)"
    using row by (simp add: dedup_conflict_def insert_row_def dedup_slot_def slot_of_def nonempty_def Let_def)
  then have ins: "InsertWorkflowStatus sample_sysdb_ctx 0 ?inp sample_pending = Inr (r, ?db1)"
    using r row(1) new by (simp add: InsertWorkflowStatus_def)
  have "\<exists>db2. record_child sample_run (W_Name row) 0 parent ''x'' ?db1 = Inr ((), db2)"
    using parent by (auto simp: record_child_def RecordChildWorkflow_def sample_workflow_def sample_pending_def empty_sysdb_def default_wf_row_def)
  then show ?thesis using ins res row by (auto simp: insertWorkflowStatusTx_def)
qed

lemma sample_start:
  assumes "parent = None \<or> parent = Some sample_workflow"
  shows "\<exists>x st'. dbosContext_RunWorkflow sample_run True [WithWorkflowID ''x'', withWorkflowName ''w''] parent (sample_pending, 0) =
     Some (Inr (Execute x), map_option (\<lambda>ws. snd (nextStepID ws)) parent, st') \<and> x_workflowID x = ''x''"
proof -
  let ?p = "zero_workflowOptions\<lparr>wo_ApplicationVersion := ''v'', wo_WorkflowID := ''x'', wo_WorkflowName := ''w''\<rparr>"
  define par where "par = map_option (\<lambda>ws. snd (nextStepID ws)) parent"
  define q where "q = inherit_auth par ?p"
  have par: "par = None \<or> par = Some (sample_workflow\<lparr>stepID := 0\<rparr>)" 
  proof (cases parent)
    case (Some ws)
    with assms have "ws = sample_workflow" by simp
    then show ?thesis by (simp add: par_def Some) (simp add: sample_workflow_def)
  qed (simp add: par_def)
  have q: "run_id sample_run q par (sample_pending, 0) = ''x''" "\<not> wo_isPortableWorkflow q" "wo_Priority q = 0" "wo_WorkflowName q = ''w''"
    "wo_queue q = None"
    by (simp_all add: q_def run_id_def inherit_auth_def zero_workflowOptions_def split: option.split)
  define enc where "enc = EncodeToString ''true''"
  define row where "row = run_row sample_run sample_entry q par ''x'' (Some enc) (sample_pending, 0)"
  have "W_ID row = ''x''" "W_QueueName row = []" "W_Status row = WorkflowStatusPending"
    using q(5) by (simp_all add: row_def run_row_def Let_def)
  from sample_tx [OF par this] obtain r s1 where tx: "insertWorkflowStatusTx sample_run row ''o'' 0 par (sample_pending, 0) = (Inr (r, False), s1)"
    by blast
  have child: "(case par of None \<Rightarrow> Inr None | Some ps \<Rightarrow> CheckChildWorkflow (workflowID ps) (stepID ps) (wo_WorkflowName q) (fst (sample_pending, 0 :: int))) = Inr None"
    by (simp add: CheckChildWorkflow_def sample_pending_def empty_sysdb_def split: option.split)
  have "run_start sample_run sample_entry ?p par True (sample_pending, 0) = Some (Inr (Execute (run_execution q (W_ID row) r)), s1)"
    using sample_input [OF par q(2)] run_loop_inserted [OF tx, of q]
    unfolding run_start_def Let_def q_def [symmetric] child enc_def [symmetric] by (simp add: q row_def)
  then have "dbosContext_RunWorkflow sample_run True [WithWorkflowID ''x'', withWorkflowName ''w''] parent (sample_pending, 0) =
      Some (Inr (Execute (run_execution q (W_ID row) r)), par, s1)"
    using assms unfolding dbosContext_RunWorkflow_def sample_options par_def [symmetric] by (cases parent) (simp_all add: sample_workflow_def)
  moreover have "x_workflowID (run_execution q (W_ID row) r) = ''x''" by (simp add: run_execution_def row_def)
  ultimately show ?thesis unfolding par_def by blast
qed

theorem start_executes_once_witness:
  "\<exists>x st' r. dbosContext_RunWorkflow sample_run True [WithWorkflowID ''x'', withWorkflowName ''w''] None (sample_pending, 0) =
       Some (Inr (Execute x), None, st') \<and> x_workflowID x = ''x'' \<and> find_wf ''x'' sample_pending = None \<and>
     find_wf ''x'' (fst st') = Some r \<and> ws_status r = WorkflowStatusPending \<and> ws_owner_xid r = Some ''o''"
proof -
  obtain x st' where run: "dbosContext_RunWorkflow sample_run True [WithWorkflowID ''x'', withWorkflowName ''w''] None (sample_pending, 0) =
      Some (Inr (Execute x), None, st')" and x: "x_workflowID x = ''x''" using sample_start [of None] by auto
  have "\<forall>r \<in> set (workflow_status (fst (sample_pending, 0 :: int))). ws_owner_xid r \<noteq> Some (r_xid sample_run (sample_pending, 0))"
    by (simp add: sample_pending_def default_wf_row_def)
  from start_executes_once [OF run this] x show ?thesis using run by auto
qed

theorem child_start_replayed_witness:
  "\<exists>x st' ws'. dbosContext_RunWorkflow sample_run True [WithWorkflowID ''x'', withWorkflowName ''w''] (Some sample_workflow) (sample_pending, 0) =
       Some (Inr (Execute x), ws', st') \<and>
     dbosContext_RunWorkflow sample_run False [WithWorkflowID ''x'', withWorkflowName ''w''] (Some sample_workflow) (fst st', 7) =
       Some (Inr (ReturnHandle ''x''), ws', (fst st', 7))"
proof -
  obtain x st' ws' where run: "dbosContext_RunWorkflow sample_run True [WithWorkflowID ''x'', withWorkflowName ''w''] (Some sample_workflow) (sample_pending, 0) =
      Some (Inr (Execute x), ws', st')" and x: "x_workflowID x = ''x''" using sample_start [of "Some sample_workflow"] by blast
  have "dbosContext_RunWorkflow sample_run False [WithWorkflowID ''x'', withWorkflowName ''w''] (Some sample_workflow) (fst st', 7) =
      Some (Inr (ReturnHandle (decision_id (Execute x))), ws', (fst st', 7))"
    by (rule child_start_replayed [OF run]) simp_all
  with run x show ?thesis by auto
qed

theorem start_survives_lost_commit_witness:
  "\<exists>r st1 db2. insertWorkflowStatusTx sample_run (zero_WorkflowStatus\<lparr>W_ID := ''x''\<rparr>) ''o'' 0 None (sample_pending, 0) = (Inr (r, False), st1) \<and>
     insertWorkflowStatusTx sample_run (zero_WorkflowStatus\<lparr>W_ID := ''x''\<rparr>) ''o'' 0 None (fst st1, 7) = (Inr (r, False), (db2, 7))"
proof -
  obtain r st1 where run: "insertWorkflowStatusTx sample_run (zero_WorkflowStatus\<lparr>W_ID := ''x''\<rparr>) ''o'' 0 None (sample_pending, 0) = (Inr (r, False), st1)"
    using sample_tx [of None "zero_WorkflowStatus\<lparr>W_ID := ''x''\<rparr>"] by (auto simp: zero_WorkflowStatus_def)
  from start_survives_lost_commit [OF run, of 7] run show ?thesis by simp
qed

end
