(* ===== verification/Spec2Isabelle.thy ===== *)
theory Spec2Isabelle
  imports Lifecycle Txn Gates Runner Schedules Ops Start
begin

text \<open>
  DBOS Transact for Go (\<^verbatim>\<open>src/dbos\<close>) makes workflows durable: a workflow is a Go function whose steps are
  checkpointed in a system database, so that it can be executed again after a crash and continue where it was.
  This development models the system database, the durable operations a workflow performs on it and the services
  that move workflows along (queues, schedules, garbage collection, recovery), and proves what they promise.

  \<^bold>\<open>The program's parts and how they interact.\<close> A process has a context (\<^verbatim>\<open>dbosContext\<close>), a registry of workflow
  functions, a queue runner and a scheduler. \<^verbatim>\<open>RunWorkflow\<close>, \<^verbatim>\<open>Enqueue\<close> and the scheduler insert rows of
  \<^verbatim>\<open>workflow_status\<close>; the queue runner claims enqueued rows; the executing workflow calls steps, messages, events,
  streams, sleeps, gates and children, each of which reads and adds rows of \<^verbatim>\<open>operation_outputs\<close>; its outcome ends
  the row. Long waits suspend the workflow in the database, and whoever produces what it waits for makes it due
  again. Several processes share one database.

  \<^bold>\<open>How the code is modelled.\<close> The database is one record of tables (\<open>sysdb\<close>, in \<open>Tables\<close>), each a list of rows; a
  nullable column is an option. An SQL statement is a guard (\<open>_where\<close>) and an assignment (\<open>_set\<close>) on rows, and a
  transaction a function from a database to a result and a database. Go errors are the datatype \<open>go_error\<close>, results
  that may fail have the type \<open>'a res\<close>. Step bodies and everything else a process touches act on a state
  \<open>'w state\<close>, the database and a world \<open>'w\<close>. The clock, generated ids, row locks that other transactions hold,
  what other executors do between two statements, the user's functions, the codecs of user types, the cron library
  and the cancellation of contexts are arguments. Transactions run one after the other, except where the code runs
  at a weaker isolation level and depends on it (the delivery to a gate, the batches of the garbage collector, the
  checks after a suspension, the reader of a stream): there the interference is an argument. Lost connections are
  not modelled, except for the retried transaction of a step (\<open>Txn\<close>) and of a start (\<open>Start\<close>).

  \<^bold>\<open>Theories.\<close>
  \<^item> \<open>Prelude\<close>: time arithmetic, decimal rendering, the relational operations and their lemmas.
  \<^item> \<open>Models\<close> (\<^verbatim>\<open>internal/models\<close>): statuses, error codes, constructors and the tree walk of \<^verbatim>\<open>errors.Is\<close>.
  \<^item> \<open>Tables\<close> (\<^verbatim>\<open>migrations\<close>): the rows, the constraints \<open>db_inv\<close>, and the locales \<open>row_update\<close>,
    \<open>inv_update\<close> and \<open>status_update\<close>, which every updating statement interprets: it keeps the constraints and follows the
    graph of statuses.
  \<^item> \<open>Workflows\<close>, \<open>Versions\<close>, \<open>Steps\<close>, \<open>Queues\<close>, \<open>Comms\<close>, \<open>GC\<close>, \<open>Fork\<close>, \<open>Gates\<close>
    (\<^verbatim>\<open>internal/sysdb/system_database.go\<close>, \<^verbatim>\<open>internal/sysdb/gates.go\<close>): the operations on each group of tables. \<open>Steps\<close> has the
    locale \<open>write_once\<close> for checkpoints and child records, \<open>Comms\<close> the locale \<open>fifo_channel\<close> for the inbox of a workflow.
  \<^item> \<open>Lifecycle\<close>: the operations as one state machine that refines an abstract specification of workflows and
    checkpoints.
  \<^item> \<open>Notifier\<close> (\<^verbatim>\<open>internal/sysdb/notifier.go\<close>): the registries of waiters, and an interleaving model of waiters and
    signals.
  \<^item> \<open>Serialization\<close> (\<^verbatim>\<open>serialization.go\<close>): value and error encodings, with the locale \<open>lossless_serializer\<close>.
  \<^item> \<open>Exec\<close>, \<open>Txn\<close> (\<^verbatim>\<open>workflow.go\<close>, \<^verbatim>\<open>internal/sysdb/retry.go\<close>): steps, transactional steps and their retries. \<open>Api\<close>: the
    operations of a context run as a step inside of a workflow.
  \<^item> \<open>Ops\<close> (\<^verbatim>\<open>workflow.go\<close>, \<^verbatim>\<open>gates.go\<close>, \<^verbatim>\<open>readaudience.go\<close>): messages, gates, events, streams, sleeps, patches and
    durable suspension.
  \<^item> \<open>Functions\<close>, \<open>Start\<close> (\<^verbatim>\<open>workflow.go\<close>): the registry of functions, starting and enqueueing workflows.
  \<^item> \<open>Registry\<close>, \<open>Runner\<close> (\<^verbatim>\<open>queue.go\<close>, \<^verbatim>\<open>system_database.go\<close>): the configuration of queues and the iteration of a
    queue's worker. \<open>Schedules\<close> (\<^verbatim>\<open>scheduler.go\<close>, \<^verbatim>\<open>workflow.go\<close>, \<^verbatim>\<open>system_database.go\<close>): cron schedules.

  \<^bold>\<open>What is shown.\<close>
  \<^item> Durability: a checkpoint is stored once, a recorded step is never executed again, a crashed workflow replays to
    the point it had reached (\<open>Steps\<close>, \<open>Exec\<close>); a transactional step is atomic with its checkpoint (\<open>Txn\<close>); every
    operation keeps outcomes and checkpoints (\<open>Lifecycle\<close>).
  \<^item> Starting: one start executes a workflow, a child is started once, a lost commit acknowledgement does no harm
    (\<open>Start\<close>); deduplication, cancellation, outcomes and descendants (\<open>Workflows\<close>); forks (\<open>Fork\<close>).
  \<^item> Queues: limits, order, progress of a dequeue (\<open>Queues\<close>) and of a worker over all partitions (\<open>Runner\<close>).
  \<^item> Communication: messages once and in order (\<open>Comms\<close>), consumed together with their checkpoint, streams read
    once and in order, deadlines that survive recovery, no wakeup lost by a suspension or by a waiter (\<open>Ops\<close>,
    \<open>Notifier\<close>); authorised deliveries to gates (\<open>Gates\<close>).
  \<^item> Services: a batched collection deletes what one statement deletes (\<open>GC\<close>); a tick enqueues once, a backfill covers
    its window, the reconciler installs the active schedules (\<open>Schedules\<close>).
  \<^item> Round trips of values and gates (\<open>Serialization\<close>, \<open>Gates\<close>).
  \<^item> Some theorems show a behaviour the code does not mean to have: a fork of an unversioned workflow that no queue
    dequeues, an empty error replayed as success, a stream reported closed while its workflow is suspended, a
    delivery across organisations, a backfill that does not return.

  \<^bold>\<open>Bounds and termination.\<close> There is no fuel. Loops with a measure are functions; a loop that others can keep
  going (the retry of a transaction, the search for descendants, a wait, a stream reader, a start under the
  return-existing policy, a backfill) is a partial function into option whose value \<open>None\<close> is not returning, and where the
  code promises to return, that is proved. A poll is a function of the list of database states it sees. Go's \<^verbatim>\<open>int\<close> is
  \<open>int\<close> where nothing in the code overflows and a 64-bit word for the priority of a start, which is compared and converted.
  A \<^verbatim>\<open>float64\<close> is a real, with the rounding of each operation as an argument.

  \<^bold>\<open>Not modelled.\<close>
  \<^item> The goroutine that runs a workflow function and the handles on it (\<^verbatim>\<open>executeWorkflow\<close>, \<^verbatim>\<open>GetResult\<close>,
    \<^verbatim>\<open>startDequeuedWorkflows\<close>), steps in goroutines (\<^verbatim>\<open>Go\<close>, \<^verbatim>\<open>Select\<close>), and the supervisors of queues and schedules: they are
    goroutines, channels and context callbacks of the Go runtime around statements that are modelled.
  \<^item> The conductor and its protocol, the admin server and the command line: network and terminal interfaces to the
    modelled operations.
  \<^item> Configuration and launch, migrations, dialects, connection pools and SQL rendering: what they produce, the schema
    and the statements, is what is modelled.
  \<^item> The wrappers of the listing and management operations, exports and imports, renaming an application, the
    aggregates, the debouncer client and the data sources: further compositions of the modelled statements.
  \<^item> Logging, and the release script.
\<close>

end
